theory Spec2Isabelle
  imports Main "HOL-Library.Word"
begin

section \<open>TecnicoFS: the file-system facade of fs/operations.c\<close>

text \<open>
  The facade functions of \<^verbatim>\<open>fs/operations.c\<close> are embedded one by one, under
  their own names. The global file-system state becomes a record that every function
  takes and returns. A pointer into one of the state's tables (\<^verbatim>\<open>inode_t *\<close>,
  \<^verbatim>\<open>open_file_entry_t *\<close>, a data block) is the index of the slot it points
  at, so a field read through the pointer sees the current table; the NULL pointer is
  \<open>None\<close>. \<^verbatim>\<open>size_t\<close> is a 64-bit word (an LP64 platform) whose arithmetic
  wraps around; \<^verbatim>\<open>int\<close> values (inumbers, handles, return codes) never get
  near their limits here and are integers. A failed \<^verbatim>\<open>ALWAYS_ASSERT\<close> and a
  \<^verbatim>\<open>memcpy\<close> that leaves its block or its source buffer end the call with an
  error instead of a return value.
\<close>

subsection \<open>Data model\<close>

type_synonym byte = "8 word"
type_synonym size_t = "64 word"

datatype inode_type = T_FILE | T_DIRECTORY | T_SYM_LINK

datatype allocation_state = FREE | TAKEN

record inode_t =
  i_node_type :: inode_type
  i_size :: size_t
  i_data_block :: int
  i_links :: int
  i_target_d_name :: string

record dir_entry_t =
  d_name :: string
  d_inumber :: int

record open_file_entry_t =
  of_inumber :: int
  of_offset :: size_t

record tfs_params =
  max_inode_count :: nat
  max_block_count :: nat
  max_open_files_count :: nat
  block_size :: size_t

text \<open>
  The mode of \<^verbatim>\<open>tfs_open\<close> is a bit mask of three independent bits; the code only
  ever tests single bits (\<^verbatim>\<open>mode & TFS_O_TRUNC\<close>), so a mode is the set of the bits
  that are set, \<^verbatim>\<open>mode & b\<close> is membership and \<^verbatim>\<open>a | b\<close> is union.
\<close>

datatype tfs_flag = TFS_O_CREAT | TFS_O_TRUNC | TFS_O_APPEND

type_synonym tfs_file_mode_t = "tfs_flag set"

text \<open>
  Modelled from the spec: the global \<^verbatim>\<open>FsState\<close> of state.c (not among the
  sources): the parameters fixed at init, the three pools (inodes, data blocks,
  open-file entries), each a table with its free bitmap, and the bound on a directory
  entry's name (a constant of config.h, carried as the parameter \<open>max_file_name\<close>).
  A data block has two views that are kept apart: its bytes (\<open>fs_data\<close>) and, for
  a directory's block, its array of entries (\<open>fs_dir\<close>); how an entry is laid out
  in bytes is not modelled.
\<close>

record tfs_state =
  params :: tfs_params
  max_file_name :: nat
  inode_table :: "nat \<Rightarrow> inode_t"
  freeinode_ts :: "nat \<Rightarrow> allocation_state"
  fs_data :: "nat \<Rightarrow> nat \<Rightarrow> byte"
  fs_dir :: "nat \<Rightarrow> nat \<Rightarrow> dir_entry_t"
  free_blocks :: "nat \<Rightarrow> allocation_state"
  open_file_table :: "nat \<Rightarrow> open_file_entry_t"
  free_open_file_entries :: "nat \<Rightarrow> allocation_state"

datatype error = AssertFailed | OutOfBounds

type_synonym 'a result = "error + 'a \<times> tfs_state"

definition ROOT_DIR_INUM :: int where
  "ROOT_DIR_INUM = 0"

subsection \<open>The state layer (state.c), from the specification\<close>

text \<open>
  Modelled from the spec: the scan of a pool's \<open>alloc\<close> (state.c), which takes the
  first free slot: \<open>find_slot P n\<close> is the least index below \<open>n\<close> that satisfies
  \<open>P\<close>. The directory's linear scans use it too.
\<close>

primrec find_slot :: "(nat \<Rightarrow> bool) \<Rightarrow> nat \<Rightarrow> nat option" where
  "find_slot P 0 = None"
| "find_slot P (Suc n) =
     (case find_slot P n of
        Some i \<Rightarrow> Some i
      | None \<Rightarrow> if P n then Some n else None)"

text \<open>
  Modelled from the spec: \<^verbatim>\<open>state_block_size\<close> (state.c), the configured block size.
\<close>

definition state_block_size :: "tfs_state \<Rightarrow> size_t" where
  "state_block_size s = block_size (params s)"

text \<open>
  Modelled from the spec: \<^verbatim>\<open>data_block_alloc\<close>, \<^verbatim>\<open>data_block_free\<close> and
  \<^verbatim>\<open>data_block_get\<close> (state.c), the block pool: alloc takes the first free slot
  and fails (-1) when the pool is full, free clears the slot's bit, get answers NULL for
  an index out of range or a slot that is not allocated. Freeing an index out of range
  is left without effect.
\<close>

definition data_block_alloc :: "tfs_state \<Rightarrow> int \<times> tfs_state" where
  "data_block_alloc s =
     (case find_slot (\<lambda>i. free_blocks s i = FREE) (max_block_count (params s)) of
        None \<Rightarrow> (-1, s)
      | Some b \<Rightarrow> (int b, s\<lparr>free_blocks := (free_blocks s)(b := TAKEN)\<rparr>))"

definition data_block_free :: "tfs_state \<Rightarrow> int \<Rightarrow> tfs_state" where
  "data_block_free s b =
     (if 0 \<le> b \<and> nat b < max_block_count (params s)
      then s\<lparr>free_blocks := (free_blocks s)(nat b := FREE)\<rparr>
      else s)"

definition data_block_get :: "tfs_state \<Rightarrow> int \<Rightarrow> nat option" where
  "data_block_get s b =
     (if 0 \<le> b \<and> nat b < max_block_count (params s) \<and> free_blocks s (nat b) = TAKEN
      then Some (nat b) else None)"

text \<open>
  Modelled from the spec: \<^verbatim>\<open>inode_get\<close> (state.c), the bounds- and
  allocation-checked accessor of the inode pool.
\<close>

definition inode_get :: "tfs_state \<Rightarrow> int \<Rightarrow> nat option" where
  "inode_get s inumber =
     (if 0 \<le> inumber \<and> nat inumber < max_inode_count (params s)
         \<and> freeinode_ts s (nat inumber) = TAKEN
      then Some (nat inumber) else None)"

text \<open>
  Modelled from the spec: the free slot of a directory: the empty name and an invalid
  inumber.
\<close>

definition free_dir_entry :: dir_entry_t where
  "free_dir_entry = \<lparr>d_name = [], d_inumber = -1\<rparr>"

text \<open>
  Modelled from the spec: \<^verbatim>\<open>inode_create\<close> (state.c): it takes the first free
  inode slot and fails (-1) when there is none; size 0 and link count 1 for every kind;
  a directory gets a data block of free entries, and the inode allocation is rolled
  back when no block is left; a symlink's target name is left empty.
\<close>

definition inode_create :: "tfs_state \<Rightarrow> inode_type \<Rightarrow> int \<times> tfs_state" where
  "inode_create s i_type =
     (case find_slot (\<lambda>i. freeinode_ts s i = FREE) (max_inode_count (params s)) of
        None \<Rightarrow> (-1, s)
      | Some inumber \<Rightarrow>
          (case i_type of
             T_DIRECTORY \<Rightarrow>
               (case data_block_alloc s of
                  (b, s1) \<Rightarrow>
                    if b = -1 then (-1, s)
                    else (int inumber,
                          s1\<lparr>freeinode_ts := (freeinode_ts s1)(inumber := TAKEN),
                             inode_table := (inode_table s1)(inumber :=
                               \<lparr>i_node_type = T_DIRECTORY, i_size = 0, i_data_block = b,
                                i_links = 1, i_target_d_name = []\<rparr>),
                             fs_dir := (fs_dir s1)(nat b := (\<lambda>_. free_dir_entry))\<rparr>))
           | _ \<Rightarrow>
               (int inumber,
                s\<lparr>freeinode_ts := (freeinode_ts s)(inumber := TAKEN),
                  inode_table := (inode_table s)(inumber :=
                    \<lparr>i_node_type = i_type, i_size = 0, i_data_block = -1,
                     i_links = 1, i_target_d_name = []\<rparr>)\<rparr>)))"

text \<open>
  Modelled from the spec: \<^verbatim>\<open>inode_delete\<close> (state.c): it frees the inode's data
  block if the inode is a file with size > 0 or a directory, and returns the slot to the
  pool. An inumber out of range is left without effect.
\<close>

definition inode_delete :: "tfs_state \<Rightarrow> int \<Rightarrow> tfs_state" where
  "inode_delete s inumber =
     (if 0 \<le> inumber \<and> nat inumber < max_inode_count (params s) then
        let inode = inode_table s (nat inumber);
            s1 = (if (i_node_type inode = T_FILE \<and> 0 < i_size inode)
                     \<or> i_node_type inode = T_DIRECTORY
                  then data_block_free s (i_data_block inode) else s)
        in s1\<lparr>freeinode_ts := (freeinode_ts s1)(nat inumber := FREE)\<rparr>
      else s)"

text \<open>
  Modelled from the spec: the directory store of state.c. A directory inode's data
  block holds \<open>max_inode_count\<close> entries. \<^verbatim>\<open>find_in_dir\<close> scans them for an exact
  name match and answers the entry's inumber, or -1. \<^verbatim>\<open>add_dir_entry\<close> fails
  (-1) if the name is longer than the bound, if an entry with the name exists, or if no
  slot is free (a slot is free when its name is empty); otherwise it fills the first
  free slot. \<^verbatim>\<open>clear_dir_entry\<close> empties the matching slot and fails if there
  is none. All three fail on an inode that is not a directory with an allocated block.
\<close>

definition dir_block :: "tfs_state \<Rightarrow> nat \<Rightarrow> nat option" where
  "dir_block s inode =
     (if i_node_type (inode_table s inode) = T_DIRECTORY
      then data_block_get s (i_data_block (inode_table s inode)) else None)"

definition find_in_dir :: "tfs_state \<Rightarrow> nat \<Rightarrow> string \<Rightarrow> int" where
  "find_in_dir s inode sub_name =
     (case dir_block s inode of
        None \<Rightarrow> -1
      | Some b \<Rightarrow>
          (case find_slot (\<lambda>i. d_name (fs_dir s b i) = sub_name) (max_inode_count (params s)) of
             None \<Rightarrow> -1
           | Some i \<Rightarrow> d_inumber (fs_dir s b i)))"

definition add_dir_entry :: "tfs_state \<Rightarrow> nat \<Rightarrow> string \<Rightarrow> int \<Rightarrow> int \<times> tfs_state" where
  "add_dir_entry s inode sub_name sub_inumber =
     (if max_file_name s < length sub_name then (-1, s)
      else
        (case dir_block s inode of
           None \<Rightarrow> (-1, s)
         | Some b \<Rightarrow>
             if find_slot (\<lambda>i. d_name (fs_dir s b i) = sub_name) (max_inode_count (params s)) \<noteq> None
             then (-1, s)
             else
               (case find_slot (\<lambda>i. d_name (fs_dir s b i) = []) (max_inode_count (params s)) of
                  None \<Rightarrow> (-1, s)
                | Some i \<Rightarrow>
                    (0, s\<lparr>fs_dir := (fs_dir s)(b := (fs_dir s b)(i :=
                            \<lparr>d_name = sub_name, d_inumber = sub_inumber\<rparr>))\<rparr>))))"

definition clear_dir_entry :: "tfs_state \<Rightarrow> nat \<Rightarrow> string \<Rightarrow> int \<times> tfs_state" where
  "clear_dir_entry s inode sub_name =
     (case dir_block s inode of
        None \<Rightarrow> (-1, s)
      | Some b \<Rightarrow>
          (case find_slot (\<lambda>i. d_name (fs_dir s b i) = sub_name) (max_inode_count (params s)) of
             None \<Rightarrow> (-1, s)
           | Some i \<Rightarrow>
               (0, s\<lparr>fs_dir := (fs_dir s)(b := (fs_dir s b)(i := free_dir_entry))\<rparr>)))"

text \<open>
  Modelled from the spec: the open-file table of state.c:
  \<^verbatim>\<open>add_to_open_file_table\<close> takes the first free entry and fails (-1) when the
  table is full, \<^verbatim>\<open>remove_from_open_file_table\<close> frees the entry, and
  \<^verbatim>\<open>get_open_file_entry\<close> is bounds- and liveness-checked.
\<close>

definition add_to_open_file_table :: "tfs_state \<Rightarrow> int \<Rightarrow> size_t \<Rightarrow> int \<times> tfs_state" where
  "add_to_open_file_table s inumber offset =
     (case find_slot (\<lambda>i. free_open_file_entries s i = FREE) (max_open_files_count (params s)) of
        None \<Rightarrow> (-1, s)
      | Some h \<Rightarrow>
          (int h,
           s\<lparr>free_open_file_entries := (free_open_file_entries s)(h := TAKEN),
             open_file_table := (open_file_table s)(h :=
               \<lparr>of_inumber = inumber, of_offset = offset\<rparr>)\<rparr>))"

definition remove_from_open_file_table :: "tfs_state \<Rightarrow> int \<Rightarrow> tfs_state" where
  "remove_from_open_file_table s fhandle =
     (if 0 \<le> fhandle \<and> nat fhandle < max_open_files_count (params s)
      then s\<lparr>free_open_file_entries := (free_open_file_entries s)(nat fhandle := FREE)\<rparr>
      else s)"

definition get_open_file_entry :: "tfs_state \<Rightarrow> int \<Rightarrow> nat option" where
  "get_open_file_entry s fhandle =
     (if 0 \<le> fhandle \<and> nat fhandle < max_open_files_count (params s)
         \<and> free_open_file_entries s (nat fhandle) = TAKEN
      then Some (nat fhandle) else None)"

text \<open>
  Modelled from the spec: \<^verbatim>\<open>state_init\<close> (state.c): the state with the given
  parameters and every slot of every pool free. The spec names no way for it to fail.
  The tables' first contents are not determined by the C code; they are zero here.
\<close>

definition state_init :: "tfs_params \<Rightarrow> nat \<Rightarrow> int \<times> tfs_state" where
  "state_init ps name_bound =
     (0, \<lparr>params = ps, max_file_name = name_bound,
          inode_table = (\<lambda>_. \<lparr>i_node_type = T_FILE, i_size = 0, i_data_block = -1,
                               i_links = 0, i_target_d_name = []\<rparr>),
          freeinode_ts = (\<lambda>_. FREE),
          fs_data = (\<lambda>_ _. 0),
          fs_dir = (\<lambda>_ _. free_dir_entry),
          free_blocks = (\<lambda>_. FREE),
          open_file_table = (\<lambda>_. \<lparr>of_inumber = -1, of_offset = 0\<rparr>),
          free_open_file_entries = (\<lambda>_. FREE)\<rparr>)"

subsection \<open>memcpy on a data block\<close>

text \<open>
  \<^verbatim>\<open>memcpy(block + off, buffer, n)\<close> and \<^verbatim>\<open>memcpy(buffer, block + off, n)\<close>
  on the bytes of one block.
\<close>

definition block_write :: "(nat \<Rightarrow> byte) \<Rightarrow> nat \<Rightarrow> byte list \<Rightarrow> nat \<Rightarrow> nat \<Rightarrow> byte" where
  "block_write blk off buffer n =
     (\<lambda>i. if off \<le> i \<and> i < off + n then buffer ! (i - off) else blk i)"

definition block_read :: "(nat \<Rightarrow> byte) \<Rightarrow> nat \<Rightarrow> nat \<Rightarrow> byte list" where
  "block_read blk off n = map (\<lambda>i. blk (off + i)) [0..<n]"

subsection \<open>The facade (fs/operations.c)\<close>

definition tfs_default_params :: tfs_params where
  "tfs_default_params =
     \<lparr>max_inode_count = 64, max_block_count = 1024, max_open_files_count = 16,
      block_size = 1024\<rparr>"

definition tfs_init :: "tfs_params option \<Rightarrow> nat \<Rightarrow> int \<times> tfs_state" where
  "tfs_init params_ptr name_bound =
     (let ps = (case params_ptr of Some p \<Rightarrow> p | None \<Rightarrow> tfs_default_params) in
      case state_init ps name_bound of
        (rc, s) \<Rightarrow>
          if rc \<noteq> 0 then (-1, s)
          else
            (case inode_create s T_DIRECTORY of
               (root, s1) \<Rightarrow> if root \<noteq> ROOT_DIR_INUM then (-1, s1) else (0, s1)))"

definition valid_pathname :: "string option \<Rightarrow> bool" where
  "valid_pathname name =
     (case name of None \<Rightarrow> False | Some n \<Rightarrow> 1 < length n \<and> n ! 0 = CHR ''/'')"

definition tfs_lookup :: "tfs_state \<Rightarrow> string option \<Rightarrow> nat \<Rightarrow> int" where
  "tfs_lookup s name root_inode =
     (if \<not> valid_pathname name then -1
      else find_in_dir s root_inode (tl (the name)))"

partial_function (option) tfs_open ::
  "tfs_state \<Rightarrow> string option \<Rightarrow> tfs_file_mode_t \<Rightarrow> int result option" where
  "tfs_open s name mode =
     (if \<not> valid_pathname name then Some (Inr (-1, s))
      else
        (case inode_get s ROOT_DIR_INUM of
           None \<Rightarrow> Some (Inl AssertFailed)
         | Some root_dir_inode \<Rightarrow>
             let inum = tfs_lookup s name root_dir_inode in
             if 0 \<le> inum then
               (case inode_get s inum of
                  None \<Rightarrow> Some (Inl AssertFailed)
                | Some inode \<Rightarrow>
                    if i_node_type (inode_table s inode) = T_SYM_LINK then
                      (if Some (i_target_d_name (inode_table s inode)) = name
                       then Some (Inr (-1, s))
                       else tfs_open s (Some (i_target_d_name (inode_table s inode))) mode)
                    else
                      let s1 = (if TFS_O_TRUNC \<in> mode \<and> 0 < i_size (inode_table s inode)
                                then (data_block_free s (i_data_block (inode_table s inode)))
                                       \<lparr>inode_table := (inode_table s)(inode :=
                                          (inode_table s inode)\<lparr>i_size := 0\<rparr>)\<rparr>
                                else s);
                          offset = (if TFS_O_APPEND \<in> mode
                                    then i_size (inode_table s1 inode) else 0)
                      in Some (Inr (add_to_open_file_table s1 inum offset)))
             else if TFS_O_CREAT \<in> mode then
               (case inode_create s T_FILE of
                  (inum, s1) \<Rightarrow>
                    if inum = -1 then Some (Inr (-1, s1))
                    else
                      (case add_dir_entry s1 root_dir_inode (tl (the name)) inum of
                         (rc, s2) \<Rightarrow>
                           if rc = -1 then Some (Inr (-1, inode_delete s2 inum))
                           else Some (Inr (add_to_open_file_table s2 inum 0))))
             else Some (Inr (-1, s))))"

definition tfs_sym_link :: "tfs_state \<Rightarrow> string option \<Rightarrow> string option \<Rightarrow> int result" where
  "tfs_sym_link s target link_name =
     (if \<not> valid_pathname link_name \<or> \<not> valid_pathname target then Inr (-1, s)
      else
        (case inode_get s ROOT_DIR_INUM of
           None \<Rightarrow> Inl AssertFailed
         | Some iroot \<Rightarrow>
             if tfs_lookup s target iroot = -1 then Inr (-1, s)
             else
               (case inode_create s T_SYM_LINK of
                  (i_link_number, s1) \<Rightarrow>
                    if i_link_number = -1 then Inr (-1, s1)
                    else
                      (case inode_get s1 i_link_number of
                         None \<Rightarrow> Inr (-1, s1)
                       | Some i_link \<Rightarrow>
                           let s2 = s1\<lparr>inode_table := (inode_table s1)(i_link :=
                                      (inode_table s1 i_link)\<lparr>i_target_d_name := the target\<rparr>)\<rparr>
                           in
                           (case inode_get s2 ROOT_DIR_INUM of
                              None \<Rightarrow> Inr (-1, s2)
                            | Some r \<Rightarrow>
                                (case add_dir_entry s2 r (tl (the link_name)) i_link_number of
                                   (rc, s3) \<Rightarrow>
                                     if rc = -1 then Inr (-1, s3) else Inr (0, s3)))))))"

definition tfs_link :: "tfs_state \<Rightarrow> string option \<Rightarrow> string option \<Rightarrow> int result" where
  "tfs_link s target link_name =
     (if \<not> valid_pathname target \<or> \<not> valid_pathname link_name then Inr (-1, s)
      else
        (case inode_get s ROOT_DIR_INUM of
           None \<Rightarrow> Inl AssertFailed
         | Some iroot \<Rightarrow>
             let target_inumber = tfs_lookup s target iroot in
             if target_inumber = -1 then Inr (-1, s)
             else
               (case inode_get s target_inumber of
                  None \<Rightarrow> Inr (-1, s)
                | Some itarget \<Rightarrow>
                    if i_node_type (inode_table s itarget) = T_SYM_LINK then Inr (-1, s)
                    else
                      (case add_dir_entry s iroot (tl (the link_name)) target_inumber of
                         (rc, s1) \<Rightarrow>
                           if rc = -1 then Inr (-1, s1)
                           else Inr (0, s1\<lparr>inode_table := (inode_table s1)(itarget :=
                                   (inode_table s1 itarget)\<lparr>i_links :=
                                      i_links (inode_table s1 itarget) + 1\<rparr>)\<rparr>)))))"

definition tfs_close :: "tfs_state \<Rightarrow> int \<Rightarrow> int result" where
  "tfs_close s fhandle =
     (case get_open_file_entry s fhandle of
        None \<Rightarrow> Inr (-1, s)
      | Some file \<Rightarrow> Inr (0, remove_from_open_file_table s fhandle))"

definition tfs_write :: "tfs_state \<Rightarrow> int \<Rightarrow> byte list \<Rightarrow> size_t \<Rightarrow> int result" where
  "tfs_write s fhandle buffer to_write0 =
     (case get_open_file_entry s fhandle of
        None \<Rightarrow> Inr (-1, s)
      | Some file \<Rightarrow>
          (case inode_get s (of_inumber (open_file_table s file)) of
             None \<Rightarrow> Inl AssertFailed
           | Some inode \<Rightarrow>
               let block_size = state_block_size s;
                   offset = of_offset (open_file_table s file);
                   to_write = (if block_size < to_write0 + offset
                               then block_size - offset else to_write0)
               in
               if 0 < to_write then
                 (case (if i_size (inode_table s inode) = 0 then
                          (case data_block_alloc s of
                             (bnum, s1) \<Rightarrow>
                               if bnum = -1 then None
                               else Some (s1\<lparr>inode_table := (inode_table s1)(inode :=
                                            (inode_table s1 inode)\<lparr>i_data_block := bnum\<rparr>)\<rparr>))
                        else Some s) of
                    None \<Rightarrow> Inr (-1, s)
                  | Some s2 \<Rightarrow>
                      (case data_block_get s2 (i_data_block (inode_table s2 inode)) of
                         None \<Rightarrow> Inl AssertFailed
                       | Some block \<Rightarrow>
                           if unat block_size < unat offset + unat to_write
                              \<or> length buffer < unat to_write
                           then Inl OutOfBounds
                           else
                             let s3 = s2\<lparr>fs_data := (fs_data s2)(block :=
                                        block_write (fs_data s2 block) (unat offset) buffer
                                          (unat to_write))\<rparr>;
                                 new_offset = offset + to_write;
                                 s4 = s3\<lparr>open_file_table := (open_file_table s3)(file :=
                                        (open_file_table s3 file)\<lparr>of_offset := new_offset\<rparr>)\<rparr>;
                                 s5 = (if i_size (inode_table s4 inode) < new_offset
                                       then s4\<lparr>inode_table := (inode_table s4)(inode :=
                                              (inode_table s4 inode)\<lparr>i_size := new_offset\<rparr>)\<rparr>
                                       else s4)
                             in Inr (sint to_write, s5)))
               else Inr (sint to_write, s)))"

definition tfs_read :: "tfs_state \<Rightarrow> int \<Rightarrow> size_t \<Rightarrow> (int \<times> byte list) result" where
  "tfs_read s fhandle len =
     (case get_open_file_entry s fhandle of
        None \<Rightarrow> Inr ((-1, []), s)
      | Some file \<Rightarrow>
          (case inode_get s (of_inumber (open_file_table s file)) of
             None \<Rightarrow> Inl AssertFailed
           | Some inode \<Rightarrow>
               let offset = of_offset (open_file_table s file);
                   to_read0 = i_size (inode_table s inode) - offset;
                   to_read = (if len < to_read0 then len else to_read0)
               in
               if 0 < to_read then
                 (case data_block_get s (i_data_block (inode_table s inode)) of
                    None \<Rightarrow> Inl AssertFailed
                  | Some block \<Rightarrow>
                      if unat (state_block_size s) < unat offset + unat to_read
                      then Inl OutOfBounds
                      else
                        Inr ((sint to_read,
                              block_read (fs_data s block) (unat offset) (unat to_read)),
                             s\<lparr>open_file_table := (open_file_table s)(file :=
                                 (open_file_table s file)\<lparr>of_offset := offset + to_read\<rparr>)\<rparr>))
               else Inr ((sint to_read, []), s)))"

definition tfs_unlink :: "tfs_state \<Rightarrow> string option \<Rightarrow> int result" where
  "tfs_unlink s target =
     (if \<not> valid_pathname target then Inr (-1, s)
      else
        (case inode_get s ROOT_DIR_INUM of
           None \<Rightarrow> Inl AssertFailed
         | Some iroot \<Rightarrow>
             let i_target_num = tfs_lookup s target iroot in
             if i_target_num = -1 then Inr (-1, s)
             else
               (case inode_get s i_target_num of
                  None \<Rightarrow> Inr (-1, s)
                | Some i_target \<Rightarrow>
                    let s1 = (if i_links (inode_table s i_target) - 1 \<le> 0
                              then inode_delete s i_target_num
                              else s\<lparr>inode_table := (inode_table s)(i_target :=
                                     (inode_table s i_target)\<lparr>i_links :=
                                        i_links (inode_table s i_target) - 1\<rparr>)\<rparr>)
                    in
                    (case inode_get s1 ROOT_DIR_INUM of
                       None \<Rightarrow> Inr (0, s1)
                     | Some r \<Rightarrow> Inr (0, snd (clear_dir_entry s1 r (tl (the target))))))))"

subsection \<open>Observations and concrete states\<close>

text \<open>The value a call returned, if it returned.\<close>

definition retval :: "'a result \<Rightarrow> 'a option" where
  "retval r = (case r of Inl _ \<Rightarrow> None | Inr (v, _) \<Rightarrow> Some v)"

text \<open>The state a call leaves behind; the state it started in if it does not return.\<close>

definition state_after :: "(tfs_state \<Rightarrow> 'a result option) \<Rightarrow> tfs_state \<Rightarrow> tfs_state" where
  "state_after call s = (case call s of Some (Inr (_, s')) \<Rightarrow> s' | _ \<Rightarrow> s)"

text \<open>
  A small file system right after \<^verbatim>\<open>tfs_init\<close>: four inodes, two data blocks,
  two open-file entries, blocks of 16 bytes, names of up to 8 characters.
\<close>

definition small_params :: tfs_params where
  "small_params =
     \<lparr>max_inode_count = 4, max_block_count = 2, max_open_files_count = 2, block_size = 16\<rparr>"

definition fresh_fs :: tfs_state where
  "fresh_fs = snd (tfs_init (Some small_params) 8)"

text \<open>The same after \<^verbatim>\<open>tfs_open("/a", TFS_O_CREAT)\<close>, and after a second open of \<open>/a\<close>.\<close>

definition one_file_fs :: tfs_state where
  "one_file_fs = state_after (\<lambda>s. tfs_open s (Some ''/a'') {TFS_O_CREAT}) fresh_fs"

definition two_open_fs :: tfs_state where
  "two_open_fs = state_after (\<lambda>s. tfs_open s (Some ''/a'') {}) one_file_fs"

text \<open>
  A state whose root directory holds the symlink \<open>s\<close> with target \<open>/s\<close> and the
  symlink \<open>t\<close> with target \<open>/s\<close>, built with the steps \<^verbatim>\<open>tfs_sym_link\<close>
  takes after its lookup.
\<close>

definition put_sym_link :: "tfs_state \<Rightarrow> string \<Rightarrow> string \<Rightarrow> tfs_state" where
  "put_sym_link s target sub_name =
     (case inode_create s T_SYM_LINK of
        (n, s1) \<Rightarrow>
          snd (add_dir_entry
                 (s1\<lparr>inode_table := (inode_table s1)(nat n :=
                       (inode_table s1 (nat n))\<lparr>i_target_d_name := target\<rparr>)\<rparr>)
                 0 sub_name n))"

definition self_loop_fs :: tfs_state where
  "self_loop_fs = put_sym_link (put_sym_link fresh_fs ''/s'' ''s'') ''/s'' ''t''"

text \<open>
  The round trip of three bytes through \<open>/f\<close> on the small file system: the states
  after the first open and after the write.
\<close>

definition rt_bytes :: "byte list" where
  "rt_bytes = [104, 105, 33]"

definition rt_opened :: tfs_state where
  "rt_opened = state_after (\<lambda>s. tfs_open s (Some ''/f'') {TFS_O_CREAT, TFS_O_TRUNC}) fresh_fs"

definition rt_written :: tfs_state where
  "rt_written = state_after (\<lambda>s. Some (tfs_write s 0 rt_bytes 3)) rt_opened"

text \<open>
  A file system whose only data block belongs to the root directory, and the states of
  a round trip through \<open>/f\<close> on it.
\<close>

definition tiny_params :: tfs_params where
  "tiny_params =
     \<lparr>max_inode_count = 2, max_block_count = 1, max_open_files_count = 1, block_size = 4\<rparr>"

definition full_fs :: tfs_state where
  "full_fs = snd (tfs_init (Some tiny_params) 8)"

definition full_opened :: tfs_state where
  "full_opened = state_after (\<lambda>s. tfs_open s (Some ''/f'') {TFS_O_CREAT, TFS_O_TRUNC}) full_fs"

definition full_closed :: tfs_state where
  "full_closed = state_after (\<lambda>s. Some (tfs_close s 0)) full_opened"

definition full_reopened :: tfs_state where
  "full_reopened = state_after (\<lambda>s. tfs_open s (Some ''/f'') {}) full_closed"

text \<open>
  A read through a handle whose offset lies beyond the file's size: \<open>/a\<close> is open
  twice; twelve bytes are written through handle 0 and eight read through handle 1;
  handle 0 is closed, \<open>/a\<close> is reopened with \<^verbatim>\<open>TFS_O_TRUNC\<close> and three bytes
  are written.
\<close>

definition stale_written :: tfs_state where
  "stale_written =
     state_after (\<lambda>s. Some (tfs_write s 0 [1, 2, 3, 4, 5, 6, 7, 8, 9, 10, 11, 12] 12)) two_open_fs"

definition stale_read :: tfs_state where
  "stale_read = state_after (\<lambda>s. Some (tfs_read s 1 8)) stale_written"

definition stale_closed :: tfs_state where
  "stale_closed = state_after (\<lambda>s. Some (tfs_close s 0)) stale_read"

definition stale_truncated :: tfs_state where
  "stale_truncated =
     state_after (\<lambda>s. tfs_open s (Some ''/a'') {TFS_O_TRUNC}) stale_closed"

definition stale_rewritten :: tfs_state where
  "stale_rewritten =
     state_after (\<lambda>s. Some (tfs_write s 0 [7, 8, 9] 3)) stale_truncated"

text \<open>The small file system after \<open>/a\<close> was created, left open, and unlinked.\<close>

definition unlinked_open_fs :: tfs_state where
  "unlinked_open_fs = state_after (\<lambda>s. Some (tfs_unlink s (Some ''/a''))) one_file_fs"

text \<open>
  The small file system with the file \<open>/a\<close> and, beside it, a hard link \<open>/b\<close> to it;
  and with \<open>/a\<close> and a symbolic link \<open>/l\<close> to it.
\<close>

definition linked_fs :: tfs_state where
  "linked_fs = state_after (\<lambda>s. Some (tfs_link s (Some ''/a'') (Some ''/b''))) one_file_fs"

definition sym_fs :: tfs_state where
  "sym_fs = state_after (\<lambda>s. Some (tfs_sym_link s (Some ''/a'') (Some ''/l''))) one_file_fs"

subsection \<open>Reachable states and their invariant\<close>

text \<open>
  The states the facade can be in: the one \<^verbatim>\<open>tfs_init\<close> leaves behind when it
  returns 0, and every state a call of the facade that returns leaves behind. A call
  that stops at an assertion ends the program, and so does not continue the run.
\<close>

inductive reachable :: "tfs_state \<Rightarrow> bool" where
  r_init: "tfs_init params_ptr name_bound = (0, s) \<Longrightarrow> reachable s"
| r_open: "reachable s \<Longrightarrow> tfs_open s name mode = Some (Inr (h, s')) \<Longrightarrow> reachable s'"
| r_sym_link: "reachable s \<Longrightarrow> tfs_sym_link s target link_name = Inr (rc, s') \<Longrightarrow> reachable s'"
| r_link: "reachable s \<Longrightarrow> tfs_link s target link_name = Inr (rc, s') \<Longrightarrow> reachable s'"
| r_close: "reachable s \<Longrightarrow> tfs_close s fhandle = Inr (rc, s') \<Longrightarrow> reachable s'"
| r_write: "reachable s \<Longrightarrow> tfs_write s fhandle buffer n = Inr (rc, s') \<Longrightarrow> reachable s'"
| r_read: "reachable s \<Longrightarrow> tfs_read s fhandle len = Inr (r, s') \<Longrightarrow> reachable s'"
| r_unlink: "reachable s \<Longrightarrow> tfs_unlink s target = Inr (rc, s') \<Longrightarrow> reachable s'"

text \<open>
  What holds in all of them. The root inode (inumber 0) is an allocated directory whose
  block is allocated; no other allocated inode is a directory or, with a size above 0,
  shares the root's block, and a symbolic link has at most one link; no directory entry
  names inumber 0, and no name occurs in two entries; no open-file entry refers to
  inumber 0.
\<close>

definition root_block :: "tfs_state \<Rightarrow> int" where
  "root_block s = i_data_block (inode_table s 0)"

definition root_inv :: "tfs_state \<Rightarrow> bool" where
  "root_inv s \<longleftrightarrow>
     0 < max_inode_count (params s) \<and> freeinode_ts s 0 = TAKEN
   \<and> i_node_type (inode_table s 0) = T_DIRECTORY
   \<and> 0 \<le> root_block s \<and> nat (root_block s) < max_block_count (params s)
   \<and> free_blocks s (nat (root_block s)) = TAKEN"

definition inode_inv :: "tfs_state \<Rightarrow> bool" where
  "inode_inv s \<longleftrightarrow>
     (\<forall>p. p \<noteq> 0 \<and> freeinode_ts s p = TAKEN \<longrightarrow>
        i_node_type (inode_table s p) \<noteq> T_DIRECTORY
        \<and> (0 < i_size (inode_table s p) \<longrightarrow> i_data_block (inode_table s p) \<noteq> root_block s)
        \<and> (i_node_type (inode_table s p) = T_SYM_LINK \<longrightarrow> i_links (inode_table s p) \<le> 1))"

definition dir_inv :: "tfs_state \<Rightarrow> bool" where
  "dir_inv s \<longleftrightarrow>
     (\<forall>e. d_inumber (fs_dir s (nat (root_block s)) e) \<noteq> 0)
   \<and> (\<forall>i j. i < max_inode_count (params s) \<and> j < max_inode_count (params s)
            \<and> d_name (fs_dir s (nat (root_block s)) i) = d_name (fs_dir s (nat (root_block s)) j)
            \<and> d_name (fs_dir s (nat (root_block s)) i) \<noteq> []
          \<longrightarrow> i = j)"

definition open_inv :: "tfs_state \<Rightarrow> bool" where
  "open_inv s \<longleftrightarrow>
     (\<forall>f. free_open_file_entries s f = TAKEN \<longrightarrow> of_inumber (open_file_table s f) \<noteq> 0)"

definition tfs_inv :: "tfs_state \<Rightarrow> bool" where
  "tfs_inv s \<longleftrightarrow> root_inv s \<and> inode_inv s \<and> dir_inv s \<and> open_inv s"

text \<open>
  A second invariant, on the links: the slots of the root directory that hold a name and
  the inumber \<open>p\<close>; every slot that holds a name names an allocated inode, and an
  allocated inode has at least as many links as there are slots naming it.
\<close>

definition entries_of :: "tfs_state \<Rightarrow> nat \<Rightarrow> nat set" where
  "entries_of s p =
     {i. i < max_inode_count (params s)
         \<and> d_name (fs_dir s (nat (root_block s)) i) \<noteq> []
         \<and> d_inumber (fs_dir s (nat (root_block s)) i) = int p}"

definition link_inv :: "tfs_state \<Rightarrow> bool" where
  "link_inv s \<longleftrightarrow>
     (\<forall>i. i < max_inode_count (params s) \<and> d_name (fs_dir s (nat (root_block s)) i) \<noteq> []
        \<longrightarrow> inode_get s (d_inumber (fs_dir s (nat (root_block s)) i)) \<noteq> None)
   \<and> (\<forall>p. freeinode_ts s p = TAKEN
        \<longrightarrow> int (card (entries_of s p)) \<le> i_links (inode_table s p))"

section \<open>Properties\<close>

subsection \<open>Scanning a pool\<close>

lemma find_slot_SomeD: "find_slot P n = Some i \<Longrightarrow> i < n \<and> P i"
  by (induction n) (auto split: option.splits if_splits)

lemma find_slot_None_iff: "find_slot P n = None \<longleftrightarrow> (\<forall>i<n. \<not> P i)"
  by (induction n) (auto split: option.splits simp: less_Suc_eq)

lemma find_slot_least: "find_slot P n = Some i \<Longrightarrow> j < i \<Longrightarrow> \<not> P j"
proof (induction n)
  case 0
  then show ?case by simp
next
  case (Suc n)
  show ?case
  proof (cases "find_slot P n")
    case None
    with Suc.prems have "i = n" by (simp split: if_splits)
    with None Suc.prems show ?thesis by (simp add: find_slot_None_iff)
  next
    case (Some k)
    with Suc show ?thesis by simp
  qed
qed

lemma find_slot_only:
  assumes "i < n" "P i" "\<And>j. j < n \<Longrightarrow> P j \<Longrightarrow> j = i"
  shows "find_slot P n = Some i"
proof (cases "find_slot P n")
  case None
  with assms(1,2) show ?thesis by (simp add: find_slot_None_iff)
next
  case (Some k)
  from find_slot_SomeD [OF Some] assms(3) have "k = i" by blast
  with Some show ?thesis by simp
qed

lemma find_slot_cong_below:
  "(\<And>i. i < n \<Longrightarrow> P i = Q i) \<Longrightarrow> find_slot P n = find_slot Q n"
  by (induction n) (auto split: option.splits)

subsection \<open>The state layer\<close>

lemma inode_get_SomeD:
  "inode_get s i = Some p \<Longrightarrow>
     p = nat i \<and> 0 \<le> i \<and> p < max_inode_count (params s) \<and> freeinode_ts s p = TAKEN"
  by (auto simp: inode_get_def split: if_splits)

lemma inode_get_after_create:
  assumes "p < max_inode_count (params s)"
  shows "inode_get (s\<lparr>freeinode_ts := (freeinode_ts s)(p := TAKEN), inode_table := tb\<rparr>) i
         = (if i = int p then Some p else inode_get s i)"
  using assms by (auto simp: inode_get_def)

lemma inode_get_free: "freeinode_ts s p = FREE \<Longrightarrow> inode_get s (int p) = None"
  by (simp add: inode_get_def)

lemma inode_create_cases:
  assumes "t \<noteq> T_DIRECTORY" "inode_create s t = (n, s1)"
  shows "(n = -1 \<and> s1 = s) \<or>
         (\<exists>p. n = int p \<and> p < max_inode_count (params s) \<and> freeinode_ts s p = FREE
            \<and> s1 = s\<lparr>freeinode_ts := (freeinode_ts s)(p := TAKEN),
                    inode_table := (inode_table s)(p :=
                      \<lparr>i_node_type = t, i_size = 0, i_data_block = -1,
                       i_links = 1, i_target_d_name = []\<rparr>)\<rparr>)"
proof (cases "find_slot (\<lambda>i. freeinode_ts s i = FREE) (max_inode_count (params s))")
  case None
  with assms show ?thesis by (auto simp: inode_create_def)
next
  case (Some p)
  from find_slot_SomeD [OF Some] Some assms show ?thesis
    by (cases t) (auto simp: inode_create_def)
qed

lemma data_block_alloc_cases:
  assumes "data_block_alloc s = (bn, s1)"
  shows "(bn = -1 \<and> s1 = s) \<or>
         (\<exists>b. bn = int b \<and> b < max_block_count (params s) \<and> free_blocks s b = FREE
            \<and> s1 = s\<lparr>free_blocks := (free_blocks s)(b := TAKEN)\<rparr>)"
proof (cases "find_slot (\<lambda>i. free_blocks s i = FREE) (max_block_count (params s))")
  case None
  with assms show ?thesis by (auto simp: data_block_alloc_def)
next
  case (Some b)
  from find_slot_SomeD [OF Some] Some assms show ?thesis
    by (auto simp: data_block_alloc_def)
qed

lemma data_block_get_SomeD:
  "data_block_get s bn = Some b \<Longrightarrow>
     b = nat bn \<and> 0 \<le> bn \<and> b < max_block_count (params s) \<and> free_blocks s b = TAKEN"
  by (auto simp: data_block_get_def split: if_splits)

lemma add_to_open_file_table_cases:
  assumes "add_to_open_file_table s inum offset = (h, s1)"
  shows "(h = -1 \<and> s1 = s) \<or>
         (\<exists>f. h = int f \<and> f < max_open_files_count (params s)
            \<and> free_open_file_entries s f = FREE
            \<and> s1 = s\<lparr>free_open_file_entries := (free_open_file_entries s)(f := TAKEN),
                    open_file_table := (open_file_table s)(f :=
                      \<lparr>of_inumber = inum, of_offset = offset\<rparr>)\<rparr>)"
proof (cases "find_slot (\<lambda>i. free_open_file_entries s i = FREE) (max_open_files_count (params s))")
  case None
  with assms show ?thesis by (auto simp: add_to_open_file_table_def)
next
  case (Some f)
  from find_slot_SomeD [OF Some] Some assms show ?thesis
    by (auto simp: add_to_open_file_table_def)
qed

lemma add_to_open_file_table_free:
  assumes "f < max_open_files_count (params s)" "free_open_file_entries s f = FREE"
  shows "fst (add_to_open_file_table s inum offset) \<noteq> -1"
proof -
  from assms have "find_slot (\<lambda>i. free_open_file_entries s i = FREE)
                     (max_open_files_count (params s)) \<noteq> None"
    by (auto simp: find_slot_None_iff)
  then show ?thesis
    by (auto simp: add_to_open_file_table_def)
qed

lemma add_dir_entry_cases:
  assumes "add_dir_entry s d nm x = (rc, s')"
  shows "(rc = -1 \<and> s' = s) \<or>
         (rc = 0 \<and> (\<exists>b i. dir_block s d = Some b \<and> i < max_inode_count (params s)
            \<and> find_slot (\<lambda>j. d_name (fs_dir s b j) = nm) (max_inode_count (params s)) = None
            \<and> s' = s\<lparr>fs_dir := (fs_dir s)(b := (fs_dir s b)(i :=
                      \<lparr>d_name = nm, d_inumber = x\<rparr>))\<rparr>))"
proof (cases "dir_block s d")
  case None
  with assms show ?thesis by (auto simp: add_dir_entry_def split: if_splits)
next
  case (Some b)
  show ?thesis
  proof (cases "find_slot (\<lambda>i. d_name (fs_dir s b i) = []) (max_inode_count (params s))")
    case None
    with Some assms show ?thesis by (auto simp: add_dir_entry_def split: if_splits)
  next
    case (Some i)
    from find_slot_SomeD [OF Some] Some \<open>dir_block s d = Some b\<close> assms show ?thesis
      by (auto simp: add_dir_entry_def split: if_splits)
  qed
qed

lemma dir_block_fs_dir_update [simp]:
  "dir_block (s\<lparr>fs_dir := f\<rparr>) d = dir_block s d"
  by (simp add: dir_block_def data_block_get_def)

lemma dir_block_links_update [simp]:
  "dir_block (s\<lparr>inode_table := (inode_table s)(p := (inode_table s p)\<lparr>i_links := v\<rparr>)\<rparr>) d
     = dir_block s d"
  by (auto simp: dir_block_def data_block_get_def)

lemma dir_block_still:
  assumes "dir_block s d = Some bd"
    and "i_node_type (inode_table s' d) = i_node_type (inode_table s d)"
    and "i_data_block (inode_table s' d) = i_data_block (inode_table s d)"
    and "free_blocks s' bd = TAKEN"
    and "max_block_count (params s') = max_block_count (params s)"
  shows "dir_block s' d = Some bd"
  using assms by (auto simp: dir_block_def data_block_get_def split: if_splits)

lemma find_in_dir_cong:
  "dir_block s' d = dir_block s d \<Longrightarrow> fs_dir s' = fs_dir s \<Longrightarrow> params s' = params s
   \<Longrightarrow> find_in_dir s' d nm = find_in_dir s d nm"
  by (simp add: find_in_dir_def split: option.splits)

lemma find_in_dir_added:
  assumes "dir_block s d = Some b" "i < max_inode_count (params s)"
    "find_slot (\<lambda>j. d_name (fs_dir s b j) = nm) (max_inode_count (params s)) = None"
  shows "find_in_dir (s\<lparr>fs_dir := (fs_dir s)(b := (fs_dir s b)(i :=
            \<lparr>d_name = nm, d_inumber = x\<rparr>))\<rparr>) d nm = x"
proof -
  have "find_slot (\<lambda>j. d_name (((fs_dir s b)(i := \<lparr>d_name = nm, d_inumber = x\<rparr>)) j) = nm)
          (max_inode_count (params s)) = Some i"
    using assms(2,3) by (intro find_slot_only) (auto simp: find_slot_None_iff split: if_splits)
  with assms(1) show ?thesis by (simp add: find_in_dir_def)
qed

lemma add_dir_entry_found:
  assumes "add_dir_entry s d nm x = (rc, s')" "rc \<noteq> -1"
  shows "find_in_dir s' d nm = x"
  using add_dir_entry_cases [OF assms(1)] assms(2) by (auto simp: find_in_dir_added)

lemma add_dir_entry_frame:
  assumes "add_dir_entry s d nm x = (rc, s')"
  shows "inode_table s' = inode_table s \<and> freeinode_ts s' = freeinode_ts s
     \<and> params s' = params s \<and> free_blocks s' = free_blocks s
     \<and> open_file_table s' = open_file_table s
     \<and> free_open_file_entries s' = free_open_file_entries s
     \<and> fs_data s' = fs_data s \<and> max_file_name s' = max_file_name s"
  using add_dir_entry_cases [OF assms] by auto

lemma add_dir_entry_slot:
  assumes "add_dir_entry s d nm x = (rc, s')" "rc \<noteq> -1"
  shows "\<exists>b i. dir_block s d = Some b \<and> i < max_inode_count (params s)
            \<and> d_name (fs_dir s b i) = [] \<and> nm \<noteq> []
            \<and> s' = s\<lparr>fs_dir := (fs_dir s)(b := (fs_dir s b)(i :=
                      \<lparr>d_name = nm, d_inumber = x\<rparr>))\<rparr>"
proof (cases "dir_block s d")
  case None
  with assms show ?thesis by (auto simp: add_dir_entry_def split: if_splits)
next
  case (Some b)
  show ?thesis
  proof (cases "find_slot (\<lambda>i. d_name (fs_dir s b i) = []) (max_inode_count (params s))")
    case None
    with Some assms show ?thesis by (auto simp: add_dir_entry_def split: if_splits)
  next
    case (Some i)
    note i = find_slot_SomeD [OF Some]
    from assms \<open>dir_block s d = Some b\<close>
    have nf: "find_slot (\<lambda>i. d_name (fs_dir s b i) = nm) (max_inode_count (params s)) = None"
      by (auto simp: add_dir_entry_def split: if_splits)
    with i have "nm \<noteq> []" by (auto simp: find_slot_None_iff)
    with i Some nf \<open>dir_block s d = Some b\<close> assms show ?thesis
      by (auto simp: add_dir_entry_def split: if_splits)
  qed
qed

lemma add_dir_entry_other:
  assumes a: "add_dir_entry s d nm x = (rc, s')" and ne: "nm' \<noteq> nm" "nm' \<noteq> []"
  shows "find_in_dir s' d nm' = find_in_dir s d nm'"
proof (cases "rc = -1")
  case True
  with add_dir_entry_cases [OF a] show ?thesis by auto
next
  case False
  from add_dir_entry_slot [OF a False] obtain b i where
    b: "dir_block s d = Some b" and i: "d_name (fs_dir s b i) = []"
    and s': "s' = s\<lparr>fs_dir := (fs_dir s)(b := (fs_dir s b)(i :=
                      \<lparr>d_name = nm, d_inumber = x\<rparr>))\<rparr>"
    by auto
  let ?n = "max_inode_count (params s)"
  have same: "(d_name (fs_dir s' b j) = nm') = (d_name (fs_dir s b j) = nm')" for j
    using i ne by (auto simp: s')
  have fs: "find_slot (\<lambda>j. d_name (fs_dir s' b j) = nm') ?n
          = find_slot (\<lambda>j. d_name (fs_dir s b j) = nm') ?n"
    by (rule find_slot_cong_below) (rule same)
  have b': "dir_block s' d = Some b" "params s' = params s"
    using b by (simp_all add: s')
  show ?thesis
  proof (cases "find_slot (\<lambda>j. d_name (fs_dir s b j) = nm') ?n")
    case None
    with fs b b' show ?thesis by (simp add: find_in_dir_def)
  next
    case (Some k)
    from find_slot_SomeD [OF Some] i ne(2) have "k \<noteq> i" by auto
    with fs Some b b' show ?thesis by (simp add: find_in_dir_def s')
  qed
qed

lemma inode_delete_frame:
  "inode_table (inode_delete s i) = inode_table s"
  "fs_dir (inode_delete s i) = fs_dir s"
  "params (inode_delete s i) = params s"
  by (simp_all add: inode_delete_def data_block_free_def Let_def)

lemma inode_delete_gone:
  assumes "inode_get s i = Some p"
  shows "inode_get (inode_delete s i) (int p) = None"
  using inode_get_SomeD [OF assms]
  by (simp add: inode_delete_def data_block_free_def Let_def inode_get_def)

subsection \<open>Copying bytes and counting them\<close>

lemma block_read_write:
  "n \<le> length buffer \<Longrightarrow> block_read (block_write blk off buffer n) off n = take n buffer"
  by (rule nth_equalityI) (simp_all add: block_read_def block_write_def)

lemma block_write_outside:
  "j < off \<or> off + n \<le> j \<Longrightarrow> block_write blk off buffer n j = blk j"
  by (auto simp: block_write_def)

lemma write_count:
  fixes n off bs :: size_t
  assumes "off \<le> bs" "unat n + unat off < 2 ^ 64"
  shows "(if bs < n + off then bs - off else n) = min n (bs - off)"
proof -
  have s: "unat (n + off) = unat n + unat off"
    using assms(2) by (simp add: unat_add_lem [THEN iffD1])
  have d: "unat (bs - off) = unat bs - unat off"
    using assms(1) by (simp add: unat_sub)
  have o: "unat off \<le> unat bs"
    using assms(1) by (simp add: word_le_nat_alt)
  have "bs < n + off \<longleftrightarrow> \<not> n \<le> bs - off"
    using o by (simp add: word_less_nat_alt word_le_nat_alt s d) arith
  then show ?thesis
    by (simp add: min_def)
qed

lemma write_in_bounds:
  fixes n off bs :: size_t
  assumes "off \<le> bs"
  shows "unat off + unat (min n (bs - off)) \<le> unat bs"
proof -
  have d: "unat (bs - off) = unat bs - unat off"
    using assms(1) by (simp add: unat_sub)
  have o: "unat off \<le> unat bs"
    using assms(1) by (simp add: word_le_nat_alt)
  have "unat (min n (bs - off)) \<le> unat (bs - off)"
    by (simp add: word_le_nat_alt [symmetric])
  with d o show ?thesis by arith
qed

subsection \<open>The branches of the facade\<close>

lemma valid_a [simp]: "valid_pathname (Some (CHR ''/'' # c # cs))"
  by (simp add: valid_pathname_def)

lemma valid_pathname_tl: "valid_pathname name \<Longrightarrow> tl (the name) \<noteq> []"
  by (cases name; cases "the name") (auto simp: valid_pathname_def)

lemma valid_pathname_eqI:
  assumes "valid_pathname a" "valid_pathname b" "tl (the a) = tl (the b)"
  shows "a = b"
proof -
  from assms(1) obtain xs where a: "a = Some (CHR ''/'' # xs)"
    by (cases a; cases "the a") (auto simp: valid_pathname_def)
  from assms(2) obtain ys where b: "b = Some (CHR ''/'' # ys)"
    by (cases b; cases "the b") (auto simp: valid_pathname_def)
  from assms(3) a b show ?thesis by simp
qed

lemma tfs_open_existing:
  assumes "valid_pathname name" "inode_get s ROOT_DIR_INUM = Some root"
    and "tfs_lookup s name root = inum" "0 \<le> inum"
    and "inode_get s inum = Some inode"
    and "i_node_type (inode_table s inode) \<noteq> T_SYM_LINK"
  shows "tfs_open s name mode =
     (let s1 = (if TFS_O_TRUNC \<in> mode \<and> 0 < i_size (inode_table s inode)
                then (data_block_free s (i_data_block (inode_table s inode)))
                       \<lparr>inode_table := (inode_table s)(inode :=
                          (inode_table s inode)\<lparr>i_size := 0\<rparr>)\<rparr>
                else s);
          offset = (if TFS_O_APPEND \<in> mode then i_size (inode_table s1 inode) else 0)
      in Some (Inr (add_to_open_file_table s1 inum offset)))"
  by (subst tfs_open.simps) (use assms in \<open>simp add: Let_def\<close>)

lemma tfs_open_create:
  assumes "valid_pathname name" "inode_get s ROOT_DIR_INUM = Some root"
    and "tfs_lookup s name root < 0" "TFS_O_CREAT \<in> mode"
  shows "tfs_open s name mode =
     (case inode_create s T_FILE of
        (inum, s1) \<Rightarrow>
          if inum = -1 then Some (Inr (-1, s1))
          else
            (case add_dir_entry s1 root (tl (the name)) inum of
               (rc, s2) \<Rightarrow>
                 if rc = -1 then Some (Inr (-1, inode_delete s2 inum))
                 else Some (Inr (add_to_open_file_table s2 inum 0))))"
  by (subst tfs_open.simps) (use assms in \<open>simp add: Let_def\<close>)

lemma tfs_write_unfold:
  fixes n :: size_t
  assumes h: "get_open_file_entry s fhandle = Some file"
    and i: "inode_get s (of_inumber (open_file_table s file)) = Some inode"
    and off: "of_offset (open_file_table s file) \<le> block_size (params s)"
    and novf: "unat n + unat (of_offset (open_file_table s file)) < 2 ^ 64"
    and buf: "unat n \<le> length buffer"
    and k: "k = min n (block_size (params s) - of_offset (open_file_table s file))"
    and offset: "offset = of_offset (open_file_table s file)"
  shows "tfs_write s fhandle buffer n =
    (if 0 < k then
       (case (if i_size (inode_table s inode) = 0 then
                (case data_block_alloc s of
                   (bnum, s1) \<Rightarrow>
                     if bnum = -1 then None
                     else Some (s1\<lparr>inode_table := (inode_table s1)(inode :=
                                  (inode_table s1 inode)\<lparr>i_data_block := bnum\<rparr>)\<rparr>))
              else Some s) of
          None \<Rightarrow> Inr (-1, s)
        | Some s2 \<Rightarrow>
            (case data_block_get s2 (i_data_block (inode_table s2 inode)) of
               None \<Rightarrow> Inl AssertFailed
             | Some block \<Rightarrow>
                 let s3 = s2\<lparr>fs_data := (fs_data s2)(block :=
                            block_write (fs_data s2 block) (unat offset) buffer (unat k))\<rparr>;
                     s4 = s3\<lparr>open_file_table := (open_file_table s3)(file :=
                            (open_file_table s3 file)\<lparr>of_offset := offset + k\<rparr>)\<rparr>;
                     s5 = (if i_size (inode_table s4 inode) < offset + k
                           then s4\<lparr>inode_table := (inode_table s4)(inode :=
                                  (inode_table s4 inode)\<lparr>i_size := offset + k\<rparr>)\<rparr>
                           else s4)
                 in Inr (sint k, s5)))
     else Inr (sint k, s))"
proof -
  have cnt: "(if block_size (params s) < n + offset then block_size (params s) - offset else n) = k"
    unfolding k offset by (rule write_count [OF off novf])
  have inb: "\<not> unat (block_size (params s)) < unat offset + unat k"
    using write_in_bounds [OF off, of n] by (simp add: k offset)
  have "unat k \<le> unat n"
    by (simp add: k word_le_nat_alt [symmetric])
  with buf have inbuf: "\<not> length buffer < unat k"
    by simp
  show ?thesis
    using h i offset [symmetric] cnt inb inbuf
    by (simp add: tfs_write_def state_block_size_def Let_def cong: option.case_cong if_cong)
qed

lemma tfs_read_within_size:
  fixes len :: size_t
  assumes h: "get_open_file_entry s fhandle = Some file"
    and i: "inode_get s (of_inumber (open_file_table s file)) = Some inode"
    and offset: "offset = of_offset (open_file_table s file)"
    and off: "offset \<le> i_size (inode_table s inode)"
    and sz: "i_size (inode_table s inode) \<le> block_size (params s)"
    and k: "k = min len (i_size (inode_table s inode) - offset)"
  shows "tfs_read s fhandle len =
     (if 0 < k then
        (case data_block_get s (i_data_block (inode_table s inode)) of
           None \<Rightarrow> Inl AssertFailed
         | Some block \<Rightarrow>
             Inr ((sint k, block_read (fs_data s block) (unat offset) (unat k)),
                  s\<lparr>open_file_table := (open_file_table s)(file :=
                      (open_file_table s file)\<lparr>of_offset := offset + k\<rparr>)\<rparr>))
      else Inr ((sint k, []), s))"
proof -
  have cnt: "(if len < i_size (inode_table s inode) - offset then len
              else i_size (inode_table s inode) - offset) = k"
    by (auto simp: k min_def)
  have "offset \<le> block_size (params s)"
    using off sz by simp
  from write_in_bounds [OF off, of len] sz
  have inb: "\<not> unat (block_size (params s)) < unat offset + unat k"
    by (simp add: k word_le_nat_alt)
  show ?thesis
    using h i offset [symmetric] cnt inb
    by (simp add: tfs_read_def state_block_size_def Let_def cong: option.case_cong if_cong)
qed

subsection \<open>Evaluating the concrete states\<close>

lemma find_slot_numeral:
  "find_slot P (numeral k) =
     (case find_slot P (pred_numeral k) of
        Some i \<Rightarrow> Some i
      | None \<Rightarrow> if P (pred_numeral k) then Some (pred_numeral k) else None)"
  by (simp add: numeral_eq_Suc)

lemmas upt_numeral = upt_rec [of _ "numeral k"] for k

lemmas state_defs = state_init_def inode_create_def data_block_alloc_def
  data_block_free_def data_block_get_def inode_get_def inode_delete_def dir_block_def
  find_in_dir_def add_dir_entry_def clear_dir_entry_def add_to_open_file_table_def
  remove_from_open_file_table_def get_open_file_entry_def
  free_dir_entry_def state_block_size_def

lemmas eval_defs = state_defs tfs_init_def valid_pathname_def tfs_lookup_def ROOT_DIR_INUM_def
  small_params_def fresh_fs_def find_slot_numeral Let_def state_after_def one_file_fs_def
  two_open_fs_def self_loop_fs_def put_sym_link_def tfs_open.simps

lemmas eval_io = eval_defs rt_opened_def rt_written_def rt_bytes_def tiny_params_def
  full_fs_def full_opened_def full_closed_def full_reopened_def tfs_write_def tfs_read_def
  tfs_close_def tfs_unlink_def retval_def block_write_def block_read_def upt_numeral
  stale_written_def stale_read_def stale_closed_def stale_truncated_def stale_rewritten_def
  unlinked_open_fs_def

lemma fresh_facts:
  "inode_get fresh_fs ROOT_DIR_INUM = Some 0"
  "tfs_lookup fresh_fs (Some ''/a'') 0 = -1"
  "tfs_lookup fresh_fs (Some ''/123456789'') 0 < 0"
  by (simp_all add: eval_defs)

lemma fresh_create:
  "inode_create fresh_fs T_FILE = (1, snd (inode_create fresh_fs T_FILE))"
  "add_dir_entry (snd (inode_create fresh_fs T_FILE)) 0 (tl (the (Some ''/123456789''))) 1
     = (-1, snd (inode_create fresh_fs T_FILE))"
  by (simp_all add: eval_defs)

lemma one_file_facts:
  "inode_get one_file_fs ROOT_DIR_INUM = Some 0"
  "tfs_lookup one_file_fs (Some ''/a'') 0 = 1"
  "inode_get one_file_fs 1 = Some 1"
  "i_node_type (inode_table one_file_fs 1) = T_FILE"
  "i_links (inode_table one_file_fs 1) = 1"
  "fst (add_dir_entry one_file_fs 0 ''b'' 1) = 0"
  "fst (add_dir_entry one_file_fs 0 ''a'' 1) = -1"
  by (simp_all add: eval_defs)

lemma one_file_more:
  "tfs_lookup one_file_fs (Some ''/l'') 0 = -1"
  "inode_create one_file_fs T_SYM_LINK = (2, snd (inode_create one_file_fs T_SYM_LINK))"
  "fst (add_dir_entry
         ((snd (inode_create one_file_fs T_SYM_LINK))\<lparr>inode_table :=
            (inode_table (snd (inode_create one_file_fs T_SYM_LINK)))(nat 2 :=
              (inode_table (snd (inode_create one_file_fs T_SYM_LINK)) (nat 2))
                \<lparr>i_target_d_name := the (Some ''/a'')\<rparr>)\<rparr>)
         0 (tl (the (Some ''/a''))) 2) = -1"
  "retval (tfs_sym_link one_file_fs (Some ''/a'') (Some ''/l'')) = Some 0"
  "tfs_lookup one_file_fs (Some ''/a'') 0 \<noteq> -1"
  by (simp_all add: eval_defs tfs_sym_link_def retval_def)

lemma two_open_facts:
  "inode_get two_open_fs ROOT_DIR_INUM = Some 0"
  "tfs_lookup two_open_fs (Some ''/b'') 0 < 0"
  "inode_get two_open_fs 2 = None"
  by (simp_all add: eval_defs)

lemma two_open_create:
  "inode_create two_open_fs T_FILE = (2, snd (inode_create two_open_fs T_FILE))"
  "add_dir_entry (snd (inode_create two_open_fs T_FILE)) 0 (tl (the (Some ''/b''))) 2
     = (0, snd (add_dir_entry (snd (inode_create two_open_fs T_FILE)) 0 ''b'' 2))"
  "fst (add_to_open_file_table
         (snd (add_dir_entry (snd (inode_create two_open_fs T_FILE)) 0 ''b'' 2)) 2 0) = -1"
  by (simp_all add: eval_defs)


lemma rt_facts:
  "length rt_bytes \<le> unat (block_size (params fresh_fs))"
  "inode_get fresh_fs ROOT_DIR_INUM = Some 0"
  "tfs_lookup fresh_fs (Some ''/f'') 0 = -1"
  "tfs_open fresh_fs (Some ''/f'') {TFS_O_CREAT, TFS_O_TRUNC} = Some (Inr (0, rt_opened))"
  "(0::int) \<noteq> -1"
  "tfs_write rt_opened 0 rt_bytes (of_nat (length rt_bytes)) = Inr (int (length rt_bytes), rt_written)"
  by (simp_all add: eval_io)

lemma write_facts:
  "get_open_file_entry one_file_fs 0 = Some 0"
  "inode_get one_file_fs (of_inumber (open_file_table one_file_fs 0)) = Some 1"
  "of_offset (open_file_table one_file_fs 0) \<le> block_size (params one_file_fs)"
  "unat (3 :: size_t) + unat (of_offset (open_file_table one_file_fs 0)) < 2 ^ 64"
  "unat (3 :: size_t) \<le> length rt_bytes"
  "(3 :: size_t) = min 3 (block_size (params one_file_fs) - of_offset (open_file_table one_file_fs 0))"
  "(0 :: size_t) = of_offset (open_file_table one_file_fs 0)"
  "unat (0 :: size_t) + unat (of_offset (open_file_table one_file_fs 0)) < 2 ^ 64"
  "unat (0 :: size_t) \<le> length rt_bytes"
  "(0 :: size_t) = min 0 (block_size (params one_file_fs) - of_offset (open_file_table one_file_fs 0))"
  "i_size (inode_table one_file_fs 1) = 0"
  "fst (data_block_alloc one_file_fs) = int 1"
  by (simp_all add: eval_io)

lemma full_write_facts:
  "get_open_file_entry full_opened 0 = Some 0"
  "inode_get full_opened (of_inumber (open_file_table full_opened 0)) = Some 1"
  "of_offset (open_file_table full_opened 0) \<le> block_size (params full_opened)"
  "unat (1 :: size_t) + unat (of_offset (open_file_table full_opened 0)) < 2 ^ 64"
  "unat (1 :: size_t) \<le> length [1 :: byte]"
  "(1 :: size_t) = min 1 (block_size (params full_opened) - of_offset (open_file_table full_opened 0))"
  "(0 :: size_t) = of_offset (open_file_table full_opened 0)"
  "i_size (inode_table full_opened 1) = 0"
  "fst (data_block_alloc full_opened) = -1"
  by (simp_all add: eval_io)

subsection \<open>The invariant holds in every reachable state\<close>

lemma tfs_invD:
  assumes "tfs_inv s"
  shows "root_inv s" "inode_inv s" "dir_inv s" "open_inv s"
  using assms by (simp_all add: tfs_inv_def)

lemma inv_root: "tfs_inv s \<Longrightarrow> inode_get s ROOT_DIR_INUM = Some 0"
  by (simp add: tfs_inv_def root_inv_def inode_get_def ROOT_DIR_INUM_def)

lemma inv_root_taken: "tfs_inv s \<Longrightarrow> freeinode_ts s 0 = TAKEN"
  by (simp add: tfs_inv_def root_inv_def)

lemma inv_dir_block: "tfs_inv s \<Longrightarrow> dir_block s 0 = Some (nat (root_block s))"
  by (simp add: tfs_inv_def root_inv_def dir_block_def data_block_get_def root_block_def)

lemma inv_find_in_dir: "tfs_inv s \<Longrightarrow> find_in_dir s 0 nm \<noteq> 0"
  by (auto simp: find_in_dir_def inv_dir_block tfs_inv_def dir_inv_def split: option.splits)

lemma inv_lookup: "tfs_inv s \<Longrightarrow> tfs_lookup s name 0 \<noteq> 0"
  by (simp add: tfs_lookup_def inv_find_in_dir)

lemma inv_init:
  assumes "tfs_init params_ptr name_bound = (0, s)"
  shows "tfs_inv s"
proof -
  define ps where "ps = (case params_ptr of Some p \<Rightarrow> p | None \<Rightarrow> tfs_default_params)"
  define s0 where "s0 = snd (state_init ps name_bound)"
  have s0: "freeinode_ts s0 = (\<lambda>_. FREE)" "free_blocks s0 = (\<lambda>_. FREE)"
     "free_open_file_entries s0 = (\<lambda>_. FREE)" "params s0 = ps"
     "fs_dir s0 = (\<lambda>_ _. free_dir_entry)"
    by (simp_all add: s0_def state_init_def)
  have t: "tfs_init params_ptr name_bound =
      (case inode_create s0 T_DIRECTORY of
         (root, s1) \<Rightarrow> if root \<noteq> ROOT_DIR_INUM then (-1, s1) else (0, s1))"
    by (simp add: tfs_init_def ps_def s0_def state_init_def Let_def)
  obtain root s1 where ic: "inode_create s0 T_DIRECTORY = (root, s1)"
    by (cases "inode_create s0 T_DIRECTORY")
  with t assms have r: "root = 0" "s1 = s"
    by (auto simp: ROOT_DIR_INUM_def split: if_splits)
  show ?thesis
  proof (cases "find_slot (\<lambda>i. freeinode_ts s0 i = FREE) (max_inode_count (params s0))")
    case None
    with ic r show ?thesis by (simp add: inode_create_def)
  next
    case (Some p)
    note p = find_slot_SomeD [OF Some]
    show ?thesis
    proof (cases "find_slot (\<lambda>i. free_blocks s0 i = FREE) (max_block_count (params s0))")
      case None
      with ic r Some show ?thesis by (simp add: inode_create_def data_block_alloc_def)
    next
      case (Some b)
      note b = find_slot_SomeD [OF Some]
      from ic r \<open>find_slot (\<lambda>i. freeinode_ts s0 i = FREE) (max_inode_count (params s0)) = Some p\<close>
        Some p b
      show ?thesis
        by (auto simp: inode_create_def data_block_alloc_def tfs_inv_def root_inv_def
              inode_inv_def dir_inv_def open_inv_def root_block_def s0 free_dir_entry_def)
    qed
  qed
qed

lemma inv_inode_create:
  assumes "tfs_inv s" "t \<noteq> T_DIRECTORY" "inode_create s t = (n, s1)"
  shows "tfs_inv s1 \<and> n \<noteq> 0
    \<and> (n \<noteq> -1 \<longrightarrow> 0 \<le> n \<and> freeinode_ts s1 (nat n) = TAKEN \<and> freeinode_ts s (nat n) = FREE)"
proof -
  from inode_create_cases [OF assms(2,3)] consider
    (none) "n = -1" "s1 = s"
    | (some) p where "n = int p" "p < max_inode_count (params s)" "freeinode_ts s p = FREE"
        "s1 = s\<lparr>freeinode_ts := (freeinode_ts s)(p := TAKEN),
                inode_table := (inode_table s)(p :=
                  \<lparr>i_node_type = t, i_size = 0, i_data_block = -1,
                   i_links = 1, i_target_d_name = []\<rparr>)\<rparr>"
    by blast
  then show ?thesis
  proof cases
    case none
    with assms(1) show ?thesis by simp
  next
    case some
    from some(3) inv_root_taken [OF assms(1)] have p0: "p \<noteq> 0"
      by (intro notI) simp
    have rb: "root_block s1 = root_block s"
      using p0 by (simp add: some(4) root_block_def)
    have "root_inv s1 = root_inv s"
      using p0 by (simp add: root_inv_def rb) (simp add: some(4))
    moreover have "inode_inv s1"
      using tfs_invD(2) [OF assms(1)] assms(2) p0 unfolding inode_inv_def rb
      by (simp add: some(4))
    moreover have "dir_inv s1 = dir_inv s"
      by (simp add: dir_inv_def rb) (simp add: some(4))
    moreover have "open_inv s1 = open_inv s"
      by (simp add: open_inv_def some(4))
    ultimately show ?thesis
      using p0 some(1,3) tfs_invD [OF assms(1)] by (simp add: tfs_inv_def some(4))
  qed
qed

lemma inv_add_dir_entry:
  assumes "tfs_inv s" "x \<noteq> 0" "add_dir_entry s 0 nm x = (rc, s')"
  shows "tfs_inv s'"
proof -
  from add_dir_entry_cases [OF assms(3)] consider
    (none) "s' = s"
    | (some) b i where "dir_block s 0 = Some b" "i < max_inode_count (params s)"
        "find_slot (\<lambda>j. d_name (fs_dir s b j) = nm) (max_inode_count (params s)) = None"
        "s' = s\<lparr>fs_dir := (fs_dir s)(b := (fs_dir s b)(i :=
                      \<lparr>d_name = nm, d_inumber = x\<rparr>))\<rparr>"
    by blast
  then show ?thesis
  proof cases
    case none
    with assms(1) show ?thesis by simp
  next
    case some
    from some(1) inv_dir_block [OF assms(1)] have b: "b = nat (root_block s)"
      by simp
    from some(3) have nd: "\<And>j. j < max_inode_count (params s) \<Longrightarrow>
        d_name (fs_dir s (nat (root_block s)) j) \<noteq> nm"
      by (simp add: find_slot_None_iff b)
    have rb: "root_block s' = root_block s"
      by (simp add: some(4) root_block_def)
    have "root_inv s' = root_inv s"
      by (simp add: root_inv_def rb) (simp add: some(4))
    moreover have "inode_inv s' = inode_inv s"
      by (simp add: inode_inv_def rb) (simp add: some(4))
    moreover have "open_inv s' = open_inv s"
      by (simp add: open_inv_def some(4))
    moreover have "dir_inv s'"
      using tfs_invD(3) [OF assms(1)] assms(2) nd unfolding dir_inv_def rb
      by (simp add: some(4) b) metis
    ultimately show ?thesis
      using tfs_invD [OF assms(1)] by (simp add: tfs_inv_def)
  qed
qed

lemma clear_dir_entry_cases:
  assumes "clear_dir_entry s d nm = (rc, s')"
  shows "(rc = -1 \<and> s' = s) \<or>
         (rc = 0 \<and> (\<exists>b i. dir_block s d = Some b
            \<and> find_slot (\<lambda>j. d_name (fs_dir s b j) = nm) (max_inode_count (params s)) = Some i
            \<and> s' = s\<lparr>fs_dir := (fs_dir s)(b := (fs_dir s b)(i := free_dir_entry))\<rparr>))"
  using assms by (auto simp: clear_dir_entry_def split: option.splits)

lemma inv_clear_dir_entry:
  assumes "tfs_inv s" "clear_dir_entry s 0 nm = (rc, s')"
  shows "tfs_inv s'"
proof -
  from clear_dir_entry_cases [OF assms(2)] consider
    (none) "s' = s"
    | (some) b i where "dir_block s 0 = Some b"
        "s' = s\<lparr>fs_dir := (fs_dir s)(b := (fs_dir s b)(i := free_dir_entry))\<rparr>"
    by blast
  then show ?thesis
  proof cases
    case none
    with assms(1) show ?thesis by simp
  next
    case some
    from some(1) inv_dir_block [OF assms(1)] have b: "b = nat (root_block s)"
      by simp
    have rb: "root_block s' = root_block s"
      by (simp add: some(2) root_block_def)
    have "root_inv s' = root_inv s"
      by (simp add: root_inv_def rb) (simp add: some(2))
    moreover have "inode_inv s' = inode_inv s"
      by (simp add: inode_inv_def rb) (simp add: some(2))
    moreover have "open_inv s' = open_inv s"
      by (simp add: open_inv_def some(2))
    moreover have "dir_inv s'"
      using tfs_invD(3) [OF assms(1)] unfolding dir_inv_def rb
      by (simp add: some(2) b free_dir_entry_def) metis
    ultimately show ?thesis
      using tfs_invD [OF assms(1)] by (simp add: tfs_inv_def)
  qed
qed


lemma inv_add_to_open_file_table:
  assumes "tfs_inv s" "x \<noteq> 0" "add_to_open_file_table s x off = (h, s')"
  shows "tfs_inv s'"
proof -
  from add_to_open_file_table_cases [OF assms(3)] consider
    (none) "s' = s"
    | (some) f where
        "s' = s\<lparr>free_open_file_entries := (free_open_file_entries s)(f := TAKEN),
                open_file_table := (open_file_table s)(f :=
                  \<lparr>of_inumber = x, of_offset = off\<rparr>)\<rparr>"
    by blast
  then show ?thesis
  proof cases
    case none
    with assms(1) show ?thesis by simp
  next
    case some
    have rb: "root_block s' = root_block s"
      by (simp add: some root_block_def)
    have "root_inv s' = root_inv s"
      by (simp add: root_inv_def rb) (simp add: some)
    moreover have "inode_inv s' = inode_inv s"
      by (simp add: inode_inv_def rb) (simp add: some)
    moreover have "dir_inv s' = dir_inv s"
      by (simp add: dir_inv_def rb) (simp add: some)
    moreover have "open_inv s'"
      using tfs_invD(4) [OF assms(1)] assms(2) by (simp add: open_inv_def some)
    ultimately show ?thesis
      using tfs_invD [OF assms(1)] by (simp add: tfs_inv_def)
  qed
qed

lemma inv_remove_from_open_file_table:
  assumes "tfs_inv s"
  shows "tfs_inv (remove_from_open_file_table s h)"
proof (cases "0 \<le> h \<and> nat h < max_open_files_count (params s)")
  case False
  then have "remove_from_open_file_table s h = s"
    by (auto simp: remove_from_open_file_table_def)
  with assms show ?thesis by simp
next
  case True
  define s' where "s' = s\<lparr>free_open_file_entries := (free_open_file_entries s)(nat h := FREE)\<rparr>"
  have e: "remove_from_open_file_table s h = s'"
    using True by (simp add: remove_from_open_file_table_def s'_def)
  have rb: "root_block s' = root_block s"
    by (simp add: s'_def root_block_def)
  have "root_inv s' = root_inv s"
    by (simp add: root_inv_def rb) (simp add: s'_def)
  moreover have "inode_inv s' = inode_inv s"
    by (simp add: inode_inv_def rb) (simp add: s'_def)
  moreover have "dir_inv s' = dir_inv s"
    by (simp add: dir_inv_def rb) (simp add: s'_def)
  moreover have "open_inv s'"
    using tfs_invD(4) [OF assms] by (simp add: open_inv_def s'_def)
  ultimately show ?thesis
    using tfs_invD [OF assms] by (simp add: tfs_inv_def e)
qed

lemma inv_data_block_free:
  assumes "tfs_inv s" "b \<noteq> root_block s"
  shows "tfs_inv (data_block_free s b) \<and> inode_table (data_block_free s b) = inode_table s
    \<and> freeinode_ts (data_block_free s b) = freeinode_ts s"
proof (cases "0 \<le> b \<and> nat b < max_block_count (params s)")
  case False
  then have "data_block_free s b = s"
    by (auto simp: data_block_free_def)
  with assms show ?thesis by simp
next
  case True
  define s' where "s' = s\<lparr>free_blocks := (free_blocks s)(nat b := FREE)\<rparr>"
  have e: "data_block_free s b = s'"
    using True by (simp add: data_block_free_def s'_def)
  have rb: "root_block s' = root_block s"
    by (simp add: s'_def root_block_def)
  from tfs_invD(1) [OF assms(1)] have "0 \<le> root_block s"
    by (simp add: root_inv_def)
  with True assms(2) have ne: "nat (root_block s) \<noteq> nat b"
    by auto
  have "root_inv s' = root_inv s"
    using ne by (simp add: root_inv_def rb) (simp add: s'_def)
  moreover have "inode_inv s' = inode_inv s"
    by (simp add: inode_inv_def rb) (simp add: s'_def)
  moreover have "dir_inv s' = dir_inv s"
    by (simp add: dir_inv_def rb) (simp add: s'_def)
  moreover have "open_inv s' = open_inv s"
    by (simp add: open_inv_def s'_def)
  ultimately show ?thesis
    using tfs_invD [OF assms(1)] by (simp add: tfs_inv_def e) (simp add: s'_def)
qed

lemma inv_free_inode:
  assumes "tfs_inv s" "p \<noteq> 0"
  shows "tfs_inv (s\<lparr>freeinode_ts := (freeinode_ts s)(p := FREE)\<rparr>)"
proof -
  let ?s = "s\<lparr>freeinode_ts := (freeinode_ts s)(p := FREE)\<rparr>"
  have rb: "root_block ?s = root_block s"
    by (simp add: root_block_def)
  have "root_inv ?s = root_inv s"
    using assms(2) by (simp add: root_inv_def rb)
  moreover have "inode_inv ?s"
    using tfs_invD(2) [OF assms(1)] by (simp add: inode_inv_def rb)
  moreover have "dir_inv ?s = dir_inv s"
    by (simp add: dir_inv_def rb)
  moreover have "open_inv ?s = open_inv s"
    by (simp add: open_inv_def)
  ultimately show ?thesis
    using tfs_invD [OF assms(1)] by (simp add: tfs_inv_def)
qed

lemma inv_inode_delete:
  assumes "tfs_inv s" "inum \<noteq> 0" "freeinode_ts s (nat inum) = TAKEN"
  shows "tfs_inv (inode_delete s inum)"
proof (cases "0 \<le> inum \<and> nat inum < max_inode_count (params s)")
  case False
  then have "inode_delete s inum = s"
    by (auto simp: inode_delete_def)
  with assms(1) show ?thesis by simp
next
  case True
  define p where "p = nat inum"
  with True assms(2) have p0: "p \<noteq> 0" by simp
  define s1 where "s1 = (if (i_node_type (inode_table s p) = T_FILE \<and> 0 < i_size (inode_table s p))
                     \<or> i_node_type (inode_table s p) = T_DIRECTORY
                  then data_block_free s (i_data_block (inode_table s p)) else s)"
  from tfs_invD(2) [OF assms(1)] assms(3) p0 have
    nd: "i_node_type (inode_table s p) \<noteq> T_DIRECTORY" and
    blk: "0 < i_size (inode_table s p) \<Longrightarrow> i_data_block (inode_table s p) \<noteq> root_block s"
    by (simp_all add: inode_inv_def p_def)
  have s1: "tfs_inv s1 \<and> freeinode_ts s1 = freeinode_ts s"
  proof (cases "i_node_type (inode_table s p) = T_FILE \<and> 0 < i_size (inode_table s p)")
    case True
    with inv_data_block_free [OF assms(1) blk] show ?thesis
      by (simp add: s1_def)
  next
    case False
    with nd have "s1 = s" by (auto simp: s1_def)
    with assms(1) show ?thesis by simp
  qed
  have "inode_delete s inum = s1\<lparr>freeinode_ts := (freeinode_ts s1)(p := FREE)\<rparr>"
    using True by (simp add: inode_delete_def Let_def s1_def p_def)
  with inv_free_inode [of s1 p] s1 p0 show ?thesis
    by simp
qed

lemma inv_data_block_alloc:
  assumes "tfs_inv s" "data_block_alloc s = (bn, s1)"
  shows "tfs_inv s1 \<and> bn \<noteq> root_block s \<and> inode_table s1 = inode_table s
     \<and> freeinode_ts s1 = freeinode_ts s \<and> params s1 = params s
     \<and> free_open_file_entries s1 = free_open_file_entries s
     \<and> open_file_table s1 = open_file_table s"
proof -
  from tfs_invD(1) [OF assms(1)] have r: "0 \<le> root_block s"
    "free_blocks s (nat (root_block s)) = TAKEN"
    by (simp_all add: root_inv_def)
  from data_block_alloc_cases [OF assms(2)] consider
    (none) "bn = -1" "s1 = s"
    | (some) b where "bn = int b" "free_blocks s b = FREE"
        "s1 = s\<lparr>free_blocks := (free_blocks s)(b := TAKEN)\<rparr>"
    by blast
  then show ?thesis
  proof cases
    case none
    with assms(1) r show ?thesis by auto
  next
    case some
    have ne: "bn \<noteq> root_block s"
    proof
      assume "bn = root_block s"
      with some(1) have "nat (root_block s) = b" by simp
      with r(2) some(2) show False by simp
    qed
    have rb: "root_block s1 = root_block s"
      by (simp add: some(3) root_block_def)
    have "root_inv s1"
      using tfs_invD(1) [OF assms(1)] by (simp add: root_inv_def rb) (simp add: some(3))
    moreover have "inode_inv s1 = inode_inv s"
      by (simp add: inode_inv_def rb) (simp add: some(3))
    moreover have "dir_inv s1 = dir_inv s"
      by (simp add: dir_inv_def rb) (simp add: some(3))
    moreover have "open_inv s1 = open_inv s"
      by (simp add: open_inv_def some(3))
    ultimately show ?thesis
      using tfs_invD [OF assms(1)] ne by (simp add: tfs_inv_def) (simp add: some(3))
  qed
qed


lemma inv_update_inode:
  assumes "tfs_inv s" "p \<noteq> 0"
    and "i_node_type ino = i_node_type (inode_table s p)"
    and "i_links ino \<le> i_links (inode_table s p) \<or> i_node_type ino \<noteq> T_SYM_LINK"
    and "0 < i_size ino \<longrightarrow> i_data_block ino \<noteq> root_block s"
  shows "tfs_inv (s\<lparr>inode_table := (inode_table s)(p := ino)\<rparr>)"
proof -
  let ?s = "s\<lparr>inode_table := (inode_table s)(p := ino)\<rparr>"
  have rb: "root_block ?s = root_block s"
    using assms(2) by (simp add: root_block_def)
  have "root_inv ?s = root_inv s"
    using assms(2) by (simp add: root_inv_def rb)
  moreover have "inode_inv ?s"
    using tfs_invD(2) [OF assms(1)] assms(2-5) unfolding inode_inv_def rb
    by (simp (no_asm_simp)) (metis order_trans)
  moreover have "dir_inv ?s = dir_inv s"
    by (simp add: dir_inv_def rb)
  moreover have "open_inv ?s = open_inv s"
    by (simp add: open_inv_def)
  ultimately show ?thesis
    using tfs_invD [OF assms(1)] by (simp add: tfs_inv_def)
qed

lemma inv_set_offset:
  assumes "tfs_inv s"
  shows "tfs_inv (s\<lparr>open_file_table := (open_file_table s)(f :=
            (open_file_table s f)\<lparr>of_offset := v\<rparr>)\<rparr>)"
proof -
  let ?s = "s\<lparr>open_file_table := (open_file_table s)(f :=
            (open_file_table s f)\<lparr>of_offset := v\<rparr>)\<rparr>"
  have rb: "root_block ?s = root_block s"
    by (simp add: root_block_def)
  have "root_inv ?s = root_inv s"
    by (simp add: root_inv_def rb)
  moreover have "inode_inv ?s = inode_inv s"
    by (simp add: inode_inv_def rb)
  moreover have "dir_inv ?s = dir_inv s"
    by (simp add: dir_inv_def rb)
  moreover have "open_inv ?s"
    using tfs_invD(4) [OF assms] by (simp add: open_inv_def)
  ultimately show ?thesis
    using tfs_invD [OF assms] by (simp add: tfs_inv_def)
qed

lemma inv_set_fs_data:
  "tfs_inv (s\<lparr>fs_data := d\<rparr>) = tfs_inv s"
  by (simp add: tfs_inv_def root_inv_def inode_inv_def dir_inv_def open_inv_def root_block_def)

lemma inv_tfs_close:
  assumes "tfs_inv s" "tfs_close s fhandle = Inr (rc, s')"
  shows "tfs_inv s'"
  using assms inv_remove_from_open_file_table [OF assms(1), of fhandle]
  by (auto simp: tfs_close_def split: option.splits)

lemma inv_tfs_read:
  assumes "tfs_inv s" "tfs_read s fhandle len = Inr (r, s')"
  shows "tfs_inv s'"
  using assms(2) assms(1) inv_set_offset [OF assms(1)]
  by (auto simp: tfs_read_def Let_def split: option.splits if_splits)


lemma inv_open_entry:
  assumes "tfs_inv s" "get_open_file_entry s fhandle = Some f"
    and "inode_get s (of_inumber (open_file_table s f)) = Some p"
  shows "p \<noteq> 0 \<and> freeinode_ts s p = TAKEN"
proof -
  from assms(2) have "free_open_file_entries s f = TAKEN"
    by (auto simp: get_open_file_entry_def split: if_splits)
  with tfs_invD(4) [OF assms(1)] have "of_inumber (open_file_table s f) \<noteq> 0"
    by (simp add: open_inv_def)
  with inode_get_SomeD [OF assms(3)] show ?thesis
    by auto
qed

lemma inv_inode_block:
  assumes "tfs_inv s" "p \<noteq> 0" "freeinode_ts s p = TAKEN" "0 < i_size (inode_table s p)"
  shows "i_data_block (inode_table s p) \<noteq> root_block s"
  using tfs_invD(2) [OF assms(1)] assms(2-4) by (simp add: inode_inv_def)

lemma inv_tfs_write:
  assumes inv: "tfs_inv s" and w: "tfs_write s fhandle buffer n = Inr (rc, s')"
  shows "tfs_inv s'"
proof (cases "get_open_file_entry s fhandle")
  case None
  with w inv show ?thesis by (simp add: tfs_write_def)
next
  case (Some f)
  note f = Some
  show ?thesis
  proof (cases "inode_get s (of_inumber (open_file_table s f))")
    case None
    with w f show ?thesis by (simp add: tfs_write_def)
  next
    case (Some p)
    note p = inv_open_entry [OF inv f Some]
    define offset where "offset = of_offset (open_file_table s f)"
    define k where "k = (if state_block_size s < n + offset
                         then state_block_size s - offset else n)"
    define prep where "prep =
       (if i_size (inode_table s p) = 0 then
          (case data_block_alloc s of
             (bnum, s1) \<Rightarrow>
               if bnum = -1 then None
               else Some (s1\<lparr>inode_table := (inode_table s1)(p :=
                            (inode_table s1 p)\<lparr>i_data_block := bnum\<rparr>)\<rparr>))
        else Some s)"
    have unf: "tfs_write s fhandle buffer n =
      (if 0 < k then
         (case prep of
            None \<Rightarrow> Inr (-1, s)
          | Some s2 \<Rightarrow>
              (case data_block_get s2 (i_data_block (inode_table s2 p)) of
                 None \<Rightarrow> Inl AssertFailed
               | Some block \<Rightarrow>
                   if unat (state_block_size s) < unat offset + unat k \<or> length buffer < unat k
                   then Inl OutOfBounds
                   else
                     let s3 = s2\<lparr>fs_data := (fs_data s2)(block :=
                                block_write (fs_data s2 block) (unat offset) buffer (unat k))\<rparr>;
                         s4 = s3\<lparr>open_file_table := (open_file_table s3)(f :=
                                (open_file_table s3 f)\<lparr>of_offset := offset + k\<rparr>)\<rparr>;
                         s5 = (if i_size (inode_table s4 p) < offset + k
                               then s4\<lparr>inode_table := (inode_table s4)(p :=
                                      (inode_table s4 p)\<lparr>i_size := offset + k\<rparr>)\<rparr>
                               else s4)
                     in Inr (sint k, s5)))
       else Inr (sint k, s))"
      using f Some
      by (simp add: tfs_write_def Let_def offset_def [symmetric] k_def [symmetric]
            prep_def [symmetric] cong: option.case_cong if_cong)
    have prep: "\<And>s2. prep = Some s2 \<Longrightarrow>
        tfs_inv s2 \<and> freeinode_ts s2 p = TAKEN
        \<and> (i_size (inode_table s2 p) = 0 \<or> 0 < i_size (inode_table s2 p))
        \<and> i_data_block (inode_table s2 p) \<noteq> root_block s2"
    proof -
      fix s2
      assume a: "prep = Some s2"
      show "tfs_inv s2 \<and> freeinode_ts s2 p = TAKEN
        \<and> (i_size (inode_table s2 p) = 0 \<or> 0 < i_size (inode_table s2 p))
        \<and> i_data_block (inode_table s2 p) \<noteq> root_block s2"
      proof (cases "i_size (inode_table s p) = 0")
        case False
        then have "0 < i_size (inode_table s p)" by (simp add: word_gt_0)
        with a False inv p inv_inode_block [OF inv] show ?thesis
          by (simp add: prep_def)
      next
        case True
        obtain bn s1 where al: "data_block_alloc s = (bn, s1)"
          by (cases "data_block_alloc s")
        note s1 = inv_data_block_alloc [OF inv al]
        from a True al have s2: "s2 = s1\<lparr>inode_table := (inode_table s1)(p :=
                            (inode_table s1 p)\<lparr>i_data_block := bn\<rparr>)\<rparr>"
          by (simp add: prep_def split: if_splits)
        have rb: "root_block s1 = root_block s"
          using s1 by (simp add: root_block_def)
        have "tfs_inv s2"
          unfolding s2 using s1 p rb by (intro inv_update_inode) simp_all
        moreover have "root_block s2 = root_block s"
          using p s1 by (simp add: s2 root_block_def)
        ultimately show ?thesis
          using s1 p True by (simp add: s2 word_gt_0)
      qed
    qed
    show ?thesis
    proof (cases "0 < k")
      case False
      with w inv show ?thesis by (simp add: unf)
    next
      case True
      show ?thesis
      proof (cases prep)
        case None
        with w inv True show ?thesis by (simp add: unf)
      next
        case (Some s2)
        note s2 = prep [OF Some]
        from w True Some obtain block where
          s': "s' = (let s3 = s2\<lparr>fs_data := (fs_data s2)(block :=
                                block_write (fs_data s2 block) (unat offset) buffer (unat k))\<rparr>;
                         s4 = s3\<lparr>open_file_table := (open_file_table s3)(f :=
                                (open_file_table s3 f)\<lparr>of_offset := offset + k\<rparr>)\<rparr>
                     in (if i_size (inode_table s4 p) < offset + k
                               then s4\<lparr>inode_table := (inode_table s4)(p :=
                                      (inode_table s4 p)\<lparr>i_size := offset + k\<rparr>)\<rparr>
                               else s4))"
          by (auto simp: unf Let_def split: option.splits if_splits)
        define s3 where "s3 = s2\<lparr>fs_data := (fs_data s2)(block :=
                                block_write (fs_data s2 block) (unat offset) buffer (unat k))\<rparr>"
        define s4 where "s4 = s3\<lparr>open_file_table := (open_file_table s3)(f :=
                                (open_file_table s3 f)\<lparr>of_offset := offset + k\<rparr>)\<rparr>"
        have i3: "tfs_inv s3"
          using s2 by (simp add: s3_def inv_set_fs_data)
        have i4: "tfs_inv s4"
          unfolding s4_def by (rule inv_set_offset [OF i3])
        have same: "inode_table s4 = inode_table s2" "root_block s4 = root_block s2"
          by (simp_all add: s4_def s3_def root_block_def)
        have "tfs_inv (s4\<lparr>inode_table := (inode_table s4)(p :=
                                      (inode_table s4 p)\<lparr>i_size := offset + k\<rparr>)\<rparr>)"
          using i4 p s2 by (intro inv_update_inode) (simp_all add: same)
        with i4 show ?thesis
          by (simp add: s' Let_def s3_def [symmetric] s4_def [symmetric])
      qed
    qed
  qed
qed

lemma inv_tfs_link:
  assumes inv: "tfs_inv s" and l: "tfs_link s target link_name = Inr (rc, s')"
  shows "tfs_inv s'"
proof (cases "rc = 0")
  case False
  have "rc = 0 \<or> s' = s"
    using l add_dir_entry_cases [of s 0 "tl (the link_name)" "tfs_lookup s target 0"]
    by (auto simp: tfs_link_def Let_def inv_root [OF inv]
          split: if_splits option.splits prod.splits)
  with False inv show ?thesis by simp
next
  case True
  define inum where "inum = tfs_lookup s target 0"
  have i0: "inum \<noteq> 0"
    unfolding inum_def by (rule inv_lookup [OF inv])
  from l True obtain p rc1 s1 where
    p: "inode_get s inum = Some p" "i_node_type (inode_table s p) \<noteq> T_SYM_LINK"
    and a: "add_dir_entry s 0 (tl (the link_name)) inum = (rc1, s1)"
    and s': "s' = s1\<lparr>inode_table := (inode_table s1)(p :=
                 (inode_table s1 p)\<lparr>i_links := i_links (inode_table s1 p) + 1\<rparr>)\<rparr>"
    by (auto simp: tfs_link_def Let_def inv_root [OF inv] inum_def
          split: if_splits option.splits prod.splits)
  from inode_get_SomeD [OF p(1)] i0 have p0: "p \<noteq> 0" "freeinode_ts s p = TAKEN"
    by auto
  have i1: "tfs_inv s1"
    by (rule inv_add_dir_entry [OF inv i0 a])
  have fr: "inode_table s1 = inode_table s" "freeinode_ts s1 = freeinode_ts s"
    using add_dir_entry_frame [OF a] by simp_all
  have rb: "root_block s1 = root_block s"
    by (simp add: root_block_def fr)
  show ?thesis
    unfolding s' using i1 p0 p(2) inv_inode_block [OF i1 p0(1)]
    by (intro inv_update_inode) (simp_all add: fr)
qed

lemma inv_tfs_sym_link:
  assumes inv: "tfs_inv s" and l: "tfs_sym_link s target link_name = Inr (rc, s')"
  shows "tfs_inv s'"
proof -
  obtain n s1 where ic: "inode_create s T_SYM_LINK = (n, s1)"
    by (cases "inode_create s T_SYM_LINK")
  from inv_inode_create [OF inv _ ic] have i1: "tfs_inv s1" and n0: "n \<noteq> 0"
    and nt: "n \<noteq> -1 \<Longrightarrow> 0 \<le> n \<and> freeinode_ts s1 (nat n) = TAKEN"
    by simp_all
  have "s' = s \<or> s' = s1 \<or>
    (\<exists>p s2 rc1. n \<noteq> -1 \<and> inode_get s1 n = Some p
       \<and> s2 = s1\<lparr>inode_table := (inode_table s1)(p :=
                  (inode_table s1 p)\<lparr>i_target_d_name := the target\<rparr>)\<rparr>
       \<and> (s' = s2 \<or> add_dir_entry s2 0 (tl (the link_name)) n = (rc1, s')))"
    using l ic
    by (auto simp: tfs_sym_link_def Let_def inv_root [OF inv]
          split: if_splits option.splits prod.splits dest!: inode_get_SomeD)
       (auto simp: ROOT_DIR_INUM_def)
  then consider "s' = s" | "s' = s1"
    | p s2 rc1 where "n \<noteq> -1" "inode_get s1 n = Some p"
       "s2 = s1\<lparr>inode_table := (inode_table s1)(p :=
                  (inode_table s1 p)\<lparr>i_target_d_name := the target\<rparr>)\<rparr>"
       "s' = s2 \<or> add_dir_entry s2 0 (tl (the link_name)) n = (rc1, s')"
    by blast
  then show ?thesis
  proof cases
    case 1
    with inv show ?thesis by simp
  next
    case 2
    with i1 show ?thesis by simp
  next
    case 3
    from inode_get_SomeD [OF 3(2)] n0 have p0: "p \<noteq> 0" "freeinode_ts s1 p = TAKEN"
      by auto
    have i2: "tfs_inv s2"
      unfolding 3(3) using i1 p0 inv_inode_block [OF i1 p0]
      by (intro inv_update_inode) simp_all
    from 3(4) show ?thesis
    proof
      assume "s' = s2"
      with i2 show ?thesis by simp
    next
      assume "add_dir_entry s2 0 (tl (the link_name)) n = (rc1, s')"
      from inv_add_dir_entry [OF i2 n0 this] show ?thesis .
    qed
  qed
qed

lemma tfs_unlink_unfold:
  assumes "inode_get s ROOT_DIR_INUM = Some iroot"
  shows "tfs_unlink s target =
     (if \<not> valid_pathname target \<or> tfs_lookup s target iroot = -1 then Inr (-1, s)
      else
        (case inode_get s (tfs_lookup s target iroot) of
           None \<Rightarrow> Inr (-1, s)
         | Some i_target \<Rightarrow>
             let s1 = (if i_links (inode_table s i_target) - 1 \<le> 0
                       then inode_delete s (tfs_lookup s target iroot)
                       else s\<lparr>inode_table := (inode_table s)(i_target :=
                              (inode_table s i_target)\<lparr>i_links :=
                                 i_links (inode_table s i_target) - 1\<rparr>)\<rparr>)
             in
             (case inode_get s1 ROOT_DIR_INUM of
                None \<Rightarrow> Inr (0, s1)
              | Some r \<Rightarrow> Inr (0, snd (clear_dir_entry s1 r (tl (the target)))))))"
  using assms by (simp add: tfs_unlink_def Let_def)

lemma inv_tfs_unlink:
  assumes inv: "tfs_inv s" and u: "tfs_unlink s target = Inr (rc, s')"
  shows "tfs_inv s'"
proof -
  define inum where "inum = tfs_lookup s target 0"
  have i0: "inum \<noteq> 0"
    unfolding inum_def by (rule inv_lookup [OF inv])
  note unf = tfs_unlink_unfold [OF inv_root [OF inv], of target, folded inum_def]
  show ?thesis
  proof (cases "inode_get s inum")
    case None
    with u unf have "s' = s" by (auto split: if_splits)
    with inv show ?thesis by simp
  next
    case (Some p)
    from inode_get_SomeD [OF Some] i0 have p0: "p \<noteq> 0" "freeinode_ts s p = TAKEN"
      "p = nat inum"
      by auto
    define s1 where "s1 = (if i_links (inode_table s p) - 1 \<le> 0
                       then inode_delete s inum
                       else s\<lparr>inode_table := (inode_table s)(p :=
                              (inode_table s p)\<lparr>i_links :=
                                 i_links (inode_table s p) - 1\<rparr>)\<rparr>)"
    have i1: "tfs_inv s1"
    proof (cases "i_links (inode_table s p) - 1 \<le> 0")
      case True
      with inv_inode_delete [OF inv i0] p0 show ?thesis by (simp add: s1_def)
    next
      case False
      have "tfs_inv (s\<lparr>inode_table := (inode_table s)(p :=
                              (inode_table s p)\<lparr>i_links :=
                                 i_links (inode_table s p) - 1\<rparr>)\<rparr>)"
        using inv p0(1) inv_inode_block [OF inv p0(1,2)]
        by (intro inv_update_inode) simp_all
      with False show ?thesis by (simp add: s1_def)
    qed
    have "tfs_unlink s target =
        (if \<not> valid_pathname target \<or> inum = -1 then Inr (-1, s)
         else (case inode_get s1 ROOT_DIR_INUM of
                 None \<Rightarrow> Inr (0, s1)
               | Some r \<Rightarrow> Inr (0, snd (clear_dir_entry s1 r (tl (the target))))))"
      by (simp only: unf Some option.case Let_def s1_def)
    with u inv_root [OF i1]
    have "s' = s \<or> s' = snd (clear_dir_entry s1 0 (tl (the target)))"
      by (auto split: if_splits)
    then show ?thesis
    proof
      assume "s' = s"
      with inv show ?thesis by simp
    next
      assume "s' = snd (clear_dir_entry s1 0 (tl (the target)))"
      with inv_clear_dir_entry [OF i1, of "tl (the target)" _ s'] show ?thesis
        by (cases "clear_dir_entry s1 0 (tl (the target))") simp
    qed
  qed
qed


lemma inv_open_truncate:
  assumes inv: "tfs_inv s" and p: "p \<noteq> 0" "freeinode_ts s p = TAKEN"
  shows "tfs_inv (if TFS_O_TRUNC \<in> mode \<and> 0 < i_size (inode_table s p)
                  then (data_block_free s (i_data_block (inode_table s p)))
                         \<lparr>inode_table := (inode_table s)(p :=
                            (inode_table s p)\<lparr>i_size := 0\<rparr>)\<rparr>
                  else s)"
proof (cases "TFS_O_TRUNC \<in> mode \<and> 0 < i_size (inode_table s p)")
  case False
  with inv show ?thesis by auto
next
  case True
  define s1 where "s1 = data_block_free s (i_data_block (inode_table s p))"
  from inv_data_block_free [OF inv inv_inode_block [OF inv p]] True
  have s1: "tfs_inv s1" "inode_table s1 = inode_table s"
    by (simp_all add: s1_def)
  have "tfs_inv (s1\<lparr>inode_table := (inode_table s1)(p :=
                            (inode_table s1 p)\<lparr>i_size := 0\<rparr>)\<rparr>)"
    using s1(1) p(1) by (intro inv_update_inode) simp_all
  with True show ?thesis
    by (simp add: s1_def [symmetric] s1(2))
qed

lemma inv_open_create:
  assumes inv: "tfs_inv s"
    and r: "(case inode_create s T_FILE of
              (inum, s1) \<Rightarrow>
                if inum = -1 then Some (Inr (-1, s1))
                else
                  (case add_dir_entry s1 0 nm inum of
                     (rc, s2) \<Rightarrow>
                       if rc = -1 then Some (Inr (-1, inode_delete s2 inum))
                       else Some (Inr (add_to_open_file_table s2 inum 0))))
            = Some (Inr (h, s'))"
  shows "tfs_inv s'"
proof -
  obtain n s1 where ic: "inode_create s T_FILE = (n, s1)"
    by (cases "inode_create s T_FILE")
  from inv_inode_create [OF inv _ ic] have i1: "tfs_inv s1" and n0: "n \<noteq> 0"
    and nt: "n \<noteq> -1 \<Longrightarrow> freeinode_ts s1 (nat n) = TAKEN"
    by simp_all
  show ?thesis
  proof (cases "n = -1")
    case True
    with r ic i1 show ?thesis by simp
  next
    case False
    obtain rc s2 where a: "add_dir_entry s1 0 nm n = (rc, s2)"
      by (cases "add_dir_entry s1 0 nm n")
    have i2: "tfs_inv s2"
      by (rule inv_add_dir_entry [OF i1 n0 a])
    have fr: "freeinode_ts s2 = freeinode_ts s1"
      using add_dir_entry_frame [OF a] by simp
    show ?thesis
    proof (cases "rc = -1")
      case True
      with r ic a False have "s' = inode_delete s2 n" by simp
      with inv_inode_delete [OF i2 n0] nt [OF False] fr show ?thesis by simp
    next
      case rc: False
      with r ic a False have "add_to_open_file_table s2 n 0 = (h, s')" by simp
      from inv_add_to_open_file_table [OF i2 n0 this] show ?thesis .
    qed
  qed
qed


lemma inv_tfs_open:
  assumes "tfs_open s name mode = Some r"
  shows "tfs_inv s \<longrightarrow> (\<forall>h s'. r = Inr (h, s') \<longrightarrow> tfs_inv s')"
proof (rule tfs_open.raw_induct [where P = "\<lambda>s name mode r.
          tfs_inv s \<longrightarrow> (\<forall>h s'. r = Inr (h, s') \<longrightarrow> tfs_inv s')", OF _ assms])
  fix tfs_open' :: "tfs_state \<Rightarrow> string option \<Rightarrow> tfs_file_mode_t \<Rightarrow> int result option"
    and s name mode r
  assume IH: "\<And>s name mode r. tfs_open' s name mode = Some r \<Longrightarrow>
          tfs_inv s \<longrightarrow> (\<forall>h s'. r = Inr (h, s') \<longrightarrow> tfs_inv s')"
  assume body: "(if \<not> valid_pathname name then Some (Inr (-1, s))
      else
        (case inode_get s ROOT_DIR_INUM of
           None \<Rightarrow> Some (Inl AssertFailed)
         | Some root_dir_inode \<Rightarrow>
             let inum = tfs_lookup s name root_dir_inode in
             if 0 \<le> inum then
               (case inode_get s inum of
                  None \<Rightarrow> Some (Inl AssertFailed)
                | Some inode \<Rightarrow>
                    if i_node_type (inode_table s inode) = T_SYM_LINK then
                      (if Some (i_target_d_name (inode_table s inode)) = name
                       then Some (Inr (-1, s))
                       else tfs_open' s (Some (i_target_d_name (inode_table s inode))) mode)
                    else
                      let s1 = (if TFS_O_TRUNC \<in> mode \<and> 0 < i_size (inode_table s inode)
                                then (data_block_free s (i_data_block (inode_table s inode)))
                                       \<lparr>inode_table := (inode_table s)(inode :=
                                          (inode_table s inode)\<lparr>i_size := 0\<rparr>)\<rparr>
                                else s);
                          offset = (if TFS_O_APPEND \<in> mode
                                    then i_size (inode_table s1 inode) else 0)
                      in Some (Inr (add_to_open_file_table s1 inum offset)))
             else if TFS_O_CREAT \<in> mode then
               (case inode_create s T_FILE of
                  (inum, s1) \<Rightarrow>
                    if inum = -1 then Some (Inr (-1, s1))
                    else
                      (case add_dir_entry s1 root_dir_inode (tl (the name)) inum of
                         (rc, s2) \<Rightarrow>
                           if rc = -1 then Some (Inr (-1, inode_delete s2 inum))
                           else Some (Inr (add_to_open_file_table s2 inum 0))))
             else Some (Inr (-1, s)))) = Some r"
  show "tfs_inv s \<longrightarrow> (\<forall>h s'. r = Inr (h, s') \<longrightarrow> tfs_inv s')"
  proof (intro impI allI)
    fix h s'
    assume inv: "tfs_inv s" and r: "r = Inr (h, s')"
    note root = inv_root [OF inv]
    define inum where "inum = tfs_lookup s name 0"
    have i0: "inum \<noteq> 0"
      unfolding inum_def by (rule inv_lookup [OF inv])
    show "tfs_inv s'"
    proof (cases "valid_pathname name")
      case False
      with body r inv show ?thesis by simp
    next
      case True
      with body root have body1:
        "(if 0 \<le> inum then
               (case inode_get s inum of
                  None \<Rightarrow> Some (Inl AssertFailed)
                | Some inode \<Rightarrow>
                    if i_node_type (inode_table s inode) = T_SYM_LINK then
                      (if Some (i_target_d_name (inode_table s inode)) = name
                       then Some (Inr (-1, s))
                       else tfs_open' s (Some (i_target_d_name (inode_table s inode))) mode)
                    else
                      let s1 = (if TFS_O_TRUNC \<in> mode \<and> 0 < i_size (inode_table s inode)
                                then (data_block_free s (i_data_block (inode_table s inode)))
                                       \<lparr>inode_table := (inode_table s)(inode :=
                                          (inode_table s inode)\<lparr>i_size := 0\<rparr>)\<rparr>
                                else s);
                          offset = (if TFS_O_APPEND \<in> mode
                                    then i_size (inode_table s1 inode) else 0)
                      in Some (Inr (add_to_open_file_table s1 inum offset)))
             else if TFS_O_CREAT \<in> mode then
               (case inode_create s T_FILE of
                  (inum, s1) \<Rightarrow>
                    if inum = -1 then Some (Inr (-1, s1))
                    else
                      (case add_dir_entry s1 0 (tl (the name)) inum of
                         (rc, s2) \<Rightarrow>
                           if rc = -1 then Some (Inr (-1, inode_delete s2 inum))
                           else Some (Inr (add_to_open_file_table s2 inum 0))))
             else Some (Inr (-1, s))) = Some r"
        by (simp only: not_True_eq_False if_False option.case Let_def inum_def)
      show ?thesis
      proof (cases "0 \<le> inum")
        case True
        show ?thesis
        proof (cases "inode_get s inum")
          case None
          with body1 True r show ?thesis by simp
        next
          case (Some p)
          from inode_get_SomeD [OF Some] i0 have p0: "p \<noteq> 0" "freeinode_ts s p = TAKEN"
            by auto
          show ?thesis
          proof (cases "i_node_type (inode_table s p) = T_SYM_LINK")
            case True
            note sym = True
            show ?thesis
            proof (cases "Some (i_target_d_name (inode_table s p)) = name")
              case True
              with body1 \<open>0 \<le> inum\<close> Some sym have "Some (Inr (-1, s)) = Some r"
                by simp
              with r inv show ?thesis by simp
            next
              case False
              with body1 \<open>0 \<le> inum\<close> Some sym
              have "tfs_open' s (Some (i_target_d_name (inode_table s p))) mode = Some r"
                by simp
              from IH [OF this] inv r show ?thesis by simp
            qed
          next
            case False
            define s1 where "s1 = (if TFS_O_TRUNC \<in> mode \<and> 0 < i_size (inode_table s p)
                  then (data_block_free s (i_data_block (inode_table s p)))
                         \<lparr>inode_table := (inode_table s)(p :=
                            (inode_table s p)\<lparr>i_size := 0\<rparr>)\<rparr>
                  else s)"
            have i1: "tfs_inv s1"
              unfolding s1_def by (rule inv_open_truncate [OF inv p0])
            from body1 \<open>0 \<le> inum\<close> Some False
            have "Some (Inr (add_to_open_file_table s1 inum
                     (if TFS_O_APPEND \<in> mode then i_size (inode_table s1 p) else 0))) = Some r"
              by (simp add: Let_def s1_def [symmetric])
            with r have "add_to_open_file_table s1 inum
                     (if TFS_O_APPEND \<in> mode then i_size (inode_table s1 p) else 0) = (h, s')"
              by simp
            from inv_add_to_open_file_table [OF i1 i0 this] show ?thesis .
          qed
        qed
      next
        case False
        show ?thesis
        proof (cases "TFS_O_CREAT \<in> mode")
          case True
          with body1 False r
          have "(case inode_create s T_FILE of
              (inum, s1) \<Rightarrow>
                if inum = -1 then Some (Inr (-1, s1))
                else
                  (case add_dir_entry s1 0 (tl (the name)) inum of
                     (rc, s2) \<Rightarrow>
                       if rc = -1 then Some (Inr (-1, inode_delete s2 inum))
                       else Some (Inr (add_to_open_file_table s2 inum 0))))
            = (Some (Inr (h, s')) :: int result option)"
            by simp
          from inv_open_create [OF inv this] show ?thesis .
        next
          case nc: False
          with body1 False have "Some (Inr (-1, s)) = Some r"
            by simp
          with r inv show ?thesis by simp
        qed
      qed
    qed
  qed
qed

lemma unlink_step_inv:
  assumes inv: "tfs_inv s" and p: "p \<noteq> 0" "freeinode_ts s p = TAKEN"
  shows "tfs_inv (inode_delete s (int p))"
    and "tfs_inv (s\<lparr>inode_table := (inode_table s)(p :=
                    (inode_table s p)\<lparr>i_links := i_links (inode_table s p) - 1\<rparr>)\<rparr>)"
proof -
  from p show "tfs_inv (inode_delete s (int p))"
    by (intro inv_inode_delete [OF inv]) simp_all
  show "tfs_inv (s\<lparr>inode_table := (inode_table s)(p :=
                    (inode_table s p)\<lparr>i_links := i_links (inode_table s p) - 1\<rparr>)\<rparr>)"
    using inv p(1) inv_inode_block [OF inv p]
    by (intro inv_update_inode) simp_all
qed

lemma reachable_inv: "reachable s \<Longrightarrow> tfs_inv s"
proof (induction rule: reachable.induct)
  case (r_init params_ptr name_bound s)
  then show ?case by (rule inv_init)
next
  case (r_open s name mode h s')
  with inv_tfs_open [OF r_open(2)] show ?case by simp
next
  case (r_sym_link s target link_name rc s')
  from r_sym_link(3) r_sym_link(2) show ?case by (rule inv_tfs_sym_link)
next
  case (r_link s target link_name rc s')
  from r_link(3) r_link(2) show ?case by (rule inv_tfs_link)
next
  case (r_close s fhandle rc s')
  from r_close(3) r_close(2) show ?case by (rule inv_tfs_close)
next
  case (r_write s fhandle buffer n rc s')
  from r_write(3) r_write(2) show ?case by (rule inv_tfs_write)
next
  case (r_read s fhandle len r s')
  from r_read(3) r_read(2) show ?case by (rule inv_tfs_read)
next
  case (r_unlink s target rc s')
  from r_unlink(3) r_unlink(2) show ?case by (rule inv_tfs_unlink)
qed

subsection \<open>Directory entries name allocated inodes\<close>

lemma finite_entries_of [simp]: "finite (entries_of s p)"
  by (simp add: entries_of_def)

lemma link_invD:
  assumes "link_inv s"
  shows "\<And>i. i < max_inode_count (params s) \<Longrightarrow> d_name (fs_dir s (nat (root_block s)) i) \<noteq> []
          \<Longrightarrow> inode_get s (d_inumber (fs_dir s (nat (root_block s)) i)) \<noteq> None"
    and "\<And>p. freeinode_ts s p = TAKEN
          \<Longrightarrow> int (card (entries_of s p)) \<le> i_links (inode_table s p)"
  using assms by (simp_all add: link_inv_def)

lemma link_inv_frame:
  assumes "max_inode_count (params s') = max_inode_count (params s)"
    and "root_block s' = root_block s"
    and "fs_dir s' (nat (root_block s)) = fs_dir s (nat (root_block s))"
    and "freeinode_ts s' = freeinode_ts s"
    and "\<And>p. i_links (inode_table s' p) = i_links (inode_table s p)"
  shows "link_inv s' = link_inv s"
  by (simp add: link_inv_def entries_of_def inode_get_def assms)

lemma entries_of_free:
  assumes "link_inv s" "freeinode_ts s p = FREE"
  shows "entries_of s p = {}"
proof -
  have "i \<notin> entries_of s p" for i
  proof
    assume "i \<in> entries_of s p"
    then have i: "i < max_inode_count (params s)"
      "d_name (fs_dir s (nat (root_block s)) i) \<noteq> []"
      "d_inumber (fs_dir s (nat (root_block s)) i) = int p"
      by (simp_all add: entries_of_def)
    from link_invD(1) [OF assms(1) i(1,2)] assms(2) show False
      by (simp add: i(3) inode_get_def)
  qed
  then show ?thesis by blast
qed

lemma link_inv_inode_create:
  assumes inv: "tfs_inv s" and li: "link_inv s"
    and t: "t \<noteq> T_DIRECTORY" and ic: "inode_create s t = (n, s1)"
  shows "link_inv s1 \<and> (n \<noteq> -1 \<longrightarrow> entries_of s1 (nat n) = {})"
proof -
  from inode_create_cases [OF t ic] consider
    (none) "n = -1" "s1 = s"
    | (some) p where "n = int p" "p < max_inode_count (params s)" "freeinode_ts s p = FREE"
        "s1 = s\<lparr>freeinode_ts := (freeinode_ts s)(p := TAKEN),
                inode_table := (inode_table s)(p :=
                  \<lparr>i_node_type = t, i_size = 0, i_data_block = -1,
                   i_links = 1, i_target_d_name = []\<rparr>)\<rparr>"
    by blast
  then show ?thesis
  proof cases
    case none
    with li show ?thesis by simp
  next
    case some
    from some(3) inv_root_taken [OF inv] have p0: "p \<noteq> 0"
      by (intro notI) simp
    have rb: "root_block s1 = root_block s"
      using p0 by (simp add: some(4) root_block_def)
    have e: "entries_of s1 q = entries_of s q" for q
      by (simp add: entries_of_def rb) (simp add: some(4))
    have ep: "entries_of s p = {}"
      by (rule entries_of_free [OF li some(3)])
    have g: "inode_get s1 x \<noteq> None" if "inode_get s x \<noteq> None" for x
      using that some(2) by (auto simp: some(4) inode_get_def split: if_splits)
    have d: "fs_dir s1 = fs_dir s" "params s1 = params s"
      by (simp_all add: some(4))
    have "link_inv s1"
      unfolding link_inv_def e rb d
    proof (intro conjI allI impI)
      fix j
      assume "j < max_inode_count (params s) \<and> d_name (fs_dir s (nat (root_block s)) j) \<noteq> []"
      then show "inode_get s1 (d_inumber (fs_dir s (nat (root_block s)) j)) \<noteq> None"
        by (intro g link_invD(1) [OF li]) simp_all
    next
      fix q
      assume q: "freeinode_ts s1 q = TAKEN"
      show "int (card (entries_of s q)) \<le> i_links (inode_table s1 q)"
      proof (cases "q = p")
        case True
        with ep show ?thesis by (simp add: some(4))
      next
        case False
        with q link_invD(2) [OF li, of q] show ?thesis by (simp add: some(4))
      qed
    qed
    with e ep some(1) show ?thesis by simp
  qed
qed

lemma link_inv_add:
  assumes inv: "tfs_inv s" and li: "link_inv s"
    and a: "add_dir_entry s 0 nm (int p) = (rc, s1)" and rc: "rc \<noteq> -1"
    and p: "inode_get s (int p) = Some p"
    and fr: "max_inode_count (params s') = max_inode_count (params s)"
      "root_block s' = root_block s"
      "fs_dir s' (nat (root_block s)) = fs_dir s1 (nat (root_block s))"
      "freeinode_ts s' = freeinode_ts s"
      "\<And>q. q \<noteq> p \<Longrightarrow> i_links (inode_table s' q) = i_links (inode_table s q)"
    and c: "int (card (entries_of s p)) + 1 \<le> i_links (inode_table s' p)"
  shows "link_inv s'"
proof -
  let ?b = "nat (root_block s)"
  from add_dir_entry_slot [OF a rc] inv_dir_block [OF inv] obtain i where
    i: "i < max_inode_count (params s)" "d_name (fs_dir s ?b i) = []" "nm \<noteq> []"
    and s1: "s1 = s\<lparr>fs_dir := (fs_dir s)(?b := (fs_dir s ?b)(i :=
                      \<lparr>d_name = nm, d_inumber = int p\<rparr>))\<rparr>"
    by auto
  have d: "fs_dir s' ?b = (fs_dir s ?b)(i := \<lparr>d_name = nm, d_inumber = int p\<rparr>)"
    by (simp add: fr(3) s1)
  have ni: "i \<notin> entries_of s q" for q
    using i(2) by (simp add: entries_of_def)
  have e: "entries_of s' q = (if q = p then insert i (entries_of s p) else entries_of s q)" for q
    using i by (auto simp: entries_of_def fr(1,2) d)
  have g: "inode_get s' x = inode_get s x" for x
    by (simp add: inode_get_def fr)
  show ?thesis
    unfolding link_inv_def
  proof (intro conjI allI impI)
    fix j
    assume j: "j < max_inode_count (params s') \<and> d_name (fs_dir s' (nat (root_block s')) j) \<noteq> []"
    show "inode_get s' (d_inumber (fs_dir s' (nat (root_block s')) j)) \<noteq> None"
    proof (cases "j = i")
      case True
      with p show ?thesis by (simp add: g fr(2) d)
    next
      case False
      with j link_invD(1) [OF li, of j] show ?thesis by (simp add: g fr(1,2) d)
    qed
  next
    fix q
    assume q: "freeinode_ts s' q = TAKEN"
    show "int (card (entries_of s' q)) \<le> i_links (inode_table s' q)"
    proof (cases "q = p")
      case True
      with c ni [of p] show ?thesis by (simp add: e)
    next
      case False
      with q link_invD(2) [OF li, of q] show ?thesis by (simp add: e fr)
    qed
  qed
qed

lemma link_inv_inode_delete:
  assumes li: "link_inv s" and e: "entries_of s p = {}"
  shows "link_inv (inode_delete s (int p))"
proof -
  let ?s = "inode_delete s (int p)"
  have rb: "root_block ?s = root_block s"
    by (simp add: root_block_def inode_delete_frame)
  have eq: "entries_of ?s q = entries_of s q" for q
    by (simp add: entries_of_def rb inode_delete_frame)
  have fr: "freeinode_ts ?s q = TAKEN \<Longrightarrow> freeinode_ts s q = TAKEN" for q
    by (auto simp: inode_delete_def data_block_free_def Let_def split: if_splits)
  have keep: "inode_get ?s x \<noteq> None" if "inode_get s x \<noteq> None" "x \<noteq> int p" for x
    using that
    by (auto simp: inode_delete_def data_block_free_def Let_def inode_get_def split: if_splits)
  show ?thesis
    unfolding link_inv_def eq rb
  proof (intro conjI allI impI)
    fix j
    assume "j < max_inode_count (params ?s) \<and> d_name (fs_dir ?s (nat (root_block s)) j) \<noteq> []"
    then have j: "j < max_inode_count (params s)" "d_name (fs_dir s (nat (root_block s)) j) \<noteq> []"
      by (simp_all add: inode_delete_frame)
    from j e have "d_inumber (fs_dir s (nat (root_block s)) j) \<noteq> int p"
      by (auto simp: entries_of_def)
    with keep [OF link_invD(1) [OF li j]]
    show "inode_get ?s (d_inumber (fs_dir ?s (nat (root_block s)) j)) \<noteq> None"
      by (simp add: inode_delete_frame)
  next
    fix q
    assume "freeinode_ts ?s q = TAKEN"
    from link_invD(2) [OF li fr [OF this]]
    show "int (card (entries_of s q)) \<le> i_links (inode_table ?s q)"
      by (simp add: inode_delete_frame)
  qed
qed

lemma link_inv_clear:
  assumes li: "link_inv s"
    and i: "i < max_inode_count (params s)" "d_name (fs_dir s (nat (root_block s)) i) \<noteq> []"
      "d_inumber (fs_dir s (nat (root_block s)) i) = int p"
    and fr: "max_inode_count (params s') = max_inode_count (params s)"
      "root_block s' = root_block s"
      "fs_dir s' (nat (root_block s)) = (fs_dir s (nat (root_block s)))(i := free_dir_entry)"
      "\<And>q. q \<noteq> p \<Longrightarrow> freeinode_ts s' q = freeinode_ts s q"
      "\<And>q. q \<noteq> p \<Longrightarrow> i_links (inode_table s' q) = i_links (inode_table s q)"
    and pt: "freeinode_ts s p = TAKEN"
    and c: "(freeinode_ts s' p = FREE \<and> i_links (inode_table s p) \<le> 1)
          \<or> (freeinode_ts s' p = TAKEN
              \<and> i_links (inode_table s' p) = i_links (inode_table s p) - 1)"
  shows "link_inv s'"
proof -
  let ?b = "nat (root_block s)"
  have e: "entries_of s' q = entries_of s q - {i}" for q
    by (auto simp: entries_of_def fr(1,2,3) free_dir_entry_def)
  have ip: "i \<in> entries_of s p"
    using i by (simp add: entries_of_def)
  have cp: "int (card (entries_of s p)) \<le> i_links (inode_table s p)"
    by (rule link_invD(2) [OF li pt])
  have c1: "card (entries_of s p - {i}) = card (entries_of s p) - 1"
    using ip by simp
  have pos: "0 < card (entries_of s p)"
    using ip by (auto simp: card_gt_0_iff)
  show ?thesis
    unfolding link_inv_def
  proof (intro conjI allI impI)
    fix j
    assume "j < max_inode_count (params s') \<and> d_name (fs_dir s' (nat (root_block s')) j) \<noteq> []"
    then have j: "j < max_inode_count (params s)" "j \<noteq> i" "d_name (fs_dir s ?b j) \<noteq> []"
      by (auto simp: fr(1,2,3) free_dir_entry_def split: if_splits)
    let ?x = "d_inumber (fs_dir s ?b j)"
    from link_invD(1) [OF li j(1,3)] have g: "inode_get s ?x \<noteq> None" .
    have "inode_get s' ?x \<noteq> None"
    proof (cases "?x = int p")
      case False
      with g fr(4) [of "nat ?x"] show ?thesis
        by (auto simp: inode_get_def fr(1) split: if_splits)
    next
      case True
      with j have jp: "j \<in> entries_of s p"
        by (simp add: entries_of_def)
      with ip j(2) have "{i, j} \<subseteq> entries_of s p" by simp
      then have "card {i, j} \<le> card (entries_of s p)"
        by (intro card_mono) simp_all
      with j(2) have two: "2 \<le> card (entries_of s p)" by simp
      with cp c have "freeinode_ts s' p = TAKEN" by auto
      with g True show ?thesis
        by (auto simp: inode_get_def fr(1) split: if_splits)
    qed
    with j(2) show "inode_get s' (d_inumber (fs_dir s' (nat (root_block s')) j)) \<noteq> None"
      by (simp add: fr(2,3))
  next
    fix q
    assume q: "freeinode_ts s' q = TAKEN"
    show "int (card (entries_of s' q)) \<le> i_links (inode_table s' q)"
    proof (cases "q = p")
      case True
      with q c have "i_links (inode_table s' p) = i_links (inode_table s p) - 1" by auto
      with cp c1 pos True show ?thesis by (simp add: e)
    next
      case False
      with q fr(4) have "freeinode_ts s q = TAKEN" by simp
      from link_invD(2) [OF li this]
      have "int (card (entries_of s q)) \<le> i_links (inode_table s q)" .
      moreover have "card (entries_of s q - {i}) \<le> card (entries_of s q)"
        by (intro card_mono) auto
      ultimately show ?thesis using False by (simp add: e fr(5))
    qed
  qed
qed

lemma link_tfs_unlink:
  assumes inv: "tfs_inv s" and li: "link_inv s" and u: "tfs_unlink s target = Inr (rc, s')"
  shows "link_inv s'"
proof -
  define inum where "inum = tfs_lookup s target 0"
  have i0: "inum \<noteq> 0"
    unfolding inum_def by (rule inv_lookup [OF inv])
  note unf = tfs_unlink_unfold [OF inv_root [OF inv], of target, folded inum_def]
  show ?thesis
  proof (cases "valid_pathname target \<and> inode_get s inum \<noteq> None")
    case False
    with u unf have "s' = s" by (auto split: if_splits option.splits)
    with li show ?thesis by simp
  next
    case True
    then obtain p where v: "valid_pathname target" and g: "inode_get s inum = Some p"
      by auto
    from inode_get_SomeD [OF g] i0 have p: "p \<noteq> 0" "freeinode_ts s p = TAKEN" "inum = int p"
      "p < max_inode_count (params s)"
      by auto
    let ?b = "nat (root_block s)"
    let ?nm = "tl (the target)"
    have nm: "?nm \<noteq> []"
      by (rule valid_pathname_tl [OF v])
    from v have fd: "find_in_dir s 0 ?nm = int p"
      using p(3) by (simp add: inum_def tfs_lookup_def)
    then obtain i where fs: "find_slot (\<lambda>j. d_name (fs_dir s ?b j) = ?nm)
          (max_inode_count (params s)) = Some i"
      and di: "d_inumber (fs_dir s ?b i) = int p"
      by (auto simp: find_in_dir_def inv_dir_block [OF inv] split: option.splits)
    from find_slot_SomeD [OF fs] nm have i: "i < max_inode_count (params s)"
      "d_name (fs_dir s ?b i) \<noteq> []"
      by simp_all
    define s1 where "s1 = (if i_links (inode_table s p) - 1 \<le> 0
                       then inode_delete s inum
                       else s\<lparr>inode_table := (inode_table s)(p :=
                              (inode_table s p)\<lparr>i_links :=
                                 i_links (inode_table s p) - 1\<rparr>)\<rparr>)"
    have i1: "tfs_inv s1"
      using unlink_step_inv [OF inv p(1,2)] by (simp add: s1_def p(3))
    have same: "fs_dir s1 = fs_dir s" "params s1 = params s" "root_block s1 = root_block s"
      using p(1) by (simp_all add: s1_def inode_delete_frame root_block_def)
    have "tfs_unlink s target =
        (if \<not> valid_pathname target \<or> inum = -1 then Inr (-1, s)
         else (case inode_get s1 ROOT_DIR_INUM of
                 None \<Rightarrow> Inr (0, s1)
               | Some r \<Rightarrow> Inr (0, snd (clear_dir_entry s1 r (tl (the target))))))"
      by (simp only: unf g option.case Let_def s1_def)
    with u v p(3) inv_root [OF i1] have s': "s' = snd (clear_dir_entry s1 0 ?nm)"
      by simp
    have "clear_dir_entry s1 0 ?nm =
        (0, s1\<lparr>fs_dir := (fs_dir s1)(?b := (fs_dir s1 ?b)(i := free_dir_entry))\<rparr>)"
      using inv_dir_block [OF i1] fs by (simp add: clear_dir_entry_def same)
    then have s'': "s' = s1\<lparr>fs_dir := (fs_dir s1)(?b := (fs_dir s1 ?b)(i := free_dir_entry))\<rparr>"
      by (simp add: s')
    show ?thesis
    proof (rule link_inv_clear [OF li i di _ _ _ _ _ p(2)])
      show "max_inode_count (params s') = max_inode_count (params s)"
        by (simp add: s'' same)
      show "root_block s' = root_block s"
        using same(3) by (simp add: s'' root_block_def)
      show "fs_dir s' ?b = (fs_dir s ?b)(i := free_dir_entry)"
        by (simp add: s'' same)
      show "freeinode_ts s' q = freeinode_ts s q" if "q \<noteq> p" for q
        using that
        by (simp add: s'' s1_def p(3) inode_delete_def data_block_free_def Let_def)
      show "i_links (inode_table s' q) = i_links (inode_table s q)" if "q \<noteq> p" for q
        using that by (simp add: s'' s1_def inode_delete_frame)
      show "(freeinode_ts s' p = FREE \<and> i_links (inode_table s p) \<le> 1)
          \<or> (freeinode_ts s' p = TAKEN
              \<and> i_links (inode_table s' p) = i_links (inode_table s p) - 1)"
        using p(2,4)
        by (simp add: s'' s1_def p(3) inode_delete_def data_block_free_def Let_def)
    qed
  qed
qed

lemma link_tfs_close:
  assumes "link_inv s" "tfs_close s fhandle = Inr (rc, s')"
  shows "link_inv s'"
proof -
  from assms(2) have "s' = s \<or> s' = remove_from_open_file_table s fhandle"
    by (auto simp: tfs_close_def split: option.splits)
  moreover have "link_inv (remove_from_open_file_table s fhandle) = link_inv s"
    by (rule link_inv_frame)
       (simp_all add: remove_from_open_file_table_def root_block_def)
  ultimately show ?thesis using assms(1) by auto
qed

lemma link_set_offset:
  "link_inv (s\<lparr>open_file_table := t\<rparr>) = link_inv s"
  by (rule link_inv_frame) (simp_all add: root_block_def)

lemma link_tfs_read:
  assumes "link_inv s" "tfs_read s fhandle len = Inr (r, s')"
  shows "link_inv s'"
  using assms(2) assms(1)
  by (auto simp: tfs_read_def Let_def link_set_offset split: option.splits if_splits)

lemma link_add_to_open_file_table:
  assumes "link_inv s" "add_to_open_file_table s inum off = (h, s')"
  shows "link_inv s'"
proof -
  have "link_inv s' = link_inv s"
    using add_to_open_file_table_cases [OF assms(2)]
    by (intro link_inv_frame) (auto simp: root_block_def)
  with assms(1) show ?thesis by simp
qed

lemma link_tfs_write:
  assumes inv: "tfs_inv s" and li: "link_inv s"
    and w: "tfs_write s fhandle buffer n = Inr (rc, s')"
  shows "link_inv s'"
proof (cases "get_open_file_entry s fhandle")
  case None
  with w li show ?thesis by (simp add: tfs_write_def)
next
  case (Some f)
  note f = Some
  show ?thesis
  proof (cases "inode_get s (of_inumber (open_file_table s f))")
    case None
    with w f show ?thesis by (simp add: tfs_write_def)
  next
    case (Some p)
    note p = inv_open_entry [OF inv f Some]
    have "link_inv s' = link_inv s"
    proof (rule link_inv_frame)
      show "max_inode_count (params s') = max_inode_count (params s)"
        using w f Some
        by (auto simp: tfs_write_def Let_def data_block_alloc_def
              split: option.splits if_splits prod.splits)
      show "root_block s' = root_block s"
        using w f Some p
        by (auto simp: tfs_write_def Let_def data_block_alloc_def root_block_def
              split: option.splits if_splits prod.splits)
      show "fs_dir s' (nat (root_block s)) = fs_dir s (nat (root_block s))"
        using w f Some
        by (auto simp: tfs_write_def Let_def data_block_alloc_def
              split: option.splits if_splits prod.splits)
      show "freeinode_ts s' = freeinode_ts s"
        using w f Some
        by (auto simp: tfs_write_def Let_def data_block_alloc_def
              split: option.splits if_splits prod.splits)
      show "i_links (inode_table s' q) = i_links (inode_table s q)" for q
        using w f Some
        by (auto simp: tfs_write_def Let_def data_block_alloc_def
              split: option.splits if_splits prod.splits)
    qed
    with li show ?thesis by simp
  qed
qed

lemma link_tfs_link:
  assumes inv: "tfs_inv s" and li: "link_inv s"
    and l: "tfs_link s target link_name = Inr (rc, s')"
  shows "link_inv s'"
proof (cases "rc = 0")
  case False
  have "rc = 0 \<or> s' = s"
    using l add_dir_entry_cases [of s 0 "tl (the link_name)" "tfs_lookup s target 0"]
    by (auto simp: tfs_link_def Let_def inv_root [OF inv]
          split: if_splits option.splits prod.splits)
  with False li show ?thesis by simp
next
  case True
  define inum where "inum = tfs_lookup s target 0"
  from l True obtain p rc1 s1 where
    p: "inode_get s inum = Some p"
    and a: "add_dir_entry s 0 (tl (the link_name)) inum = (rc1, s1)" and rc1: "rc1 \<noteq> -1"
    and s': "s' = s1\<lparr>inode_table := (inode_table s1)(p :=
                 (inode_table s1 p)\<lparr>i_links := i_links (inode_table s1 p) + 1\<rparr>)\<rparr>"
    by (auto simp: tfs_link_def Let_def inv_root [OF inv] inum_def
          split: if_splits option.splits prod.splits)
  have i0: "inum \<noteq> 0"
    unfolding inum_def by (rule inv_lookup [OF inv])
  from inode_get_SomeD [OF p] i0 have p0: "p \<noteq> 0" "freeinode_ts s p = TAKEN" "inum = int p"
    by auto
  have fr: "inode_table s1 = inode_table s" "freeinode_ts s1 = freeinode_ts s"
    "params s1 = params s"
    using add_dir_entry_frame [OF a] by simp_all
  show ?thesis
  proof (rule link_inv_add [OF inv li a [unfolded p0(3)] rc1 p [unfolded p0(3)]])
    show "max_inode_count (params s') = max_inode_count (params s)"
      by (simp add: s' fr)
    show "root_block s' = root_block s"
      using p0(1) by (simp add: s' fr root_block_def)
    show "fs_dir s' (nat (root_block s)) = fs_dir s1 (nat (root_block s))"
      by (simp add: s')
    show "freeinode_ts s' = freeinode_ts s"
      by (simp add: s' fr)
    show "i_links (inode_table s' q) = i_links (inode_table s q)" if "q \<noteq> p" for q
      using that by (simp add: s' fr)
    show "int (card (entries_of s p)) + 1 \<le> i_links (inode_table s' p)"
      using link_invD(2) [OF li p0(2)] by (simp add: s' fr)
  qed
qed

lemma link_add_fresh:
  assumes inv: "tfs_inv s" and li: "link_inv s"
    and e: "entries_of s (nat n) = {}" and n: "inode_get s n = Some p"
    and l: "1 \<le> i_links (inode_table s p)"
    and a: "add_dir_entry s 0 nm n = (rc, s')"
  shows "link_inv s'"
proof (cases "rc = -1")
  case True
  with add_dir_entry_cases [OF a] li show ?thesis by auto
next
  case False
  from inode_get_SomeD [OF n] have p: "n = int p" "p = nat n"
    by auto
  have fr: "inode_table s' = inode_table s" "freeinode_ts s' = freeinode_ts s"
    "params s' = params s"
    using add_dir_entry_frame [OF a] by simp_all
  show ?thesis
  proof (rule link_inv_add [OF inv li a [unfolded p(1)] False n [unfolded p(1)]])
    show "int (card (entries_of s p)) + 1 \<le> i_links (inode_table s' p)"
      using e l by (simp add: p(2) fr)
  qed (simp_all add: fr root_block_def)
qed

lemma link_tfs_sym_link:
  assumes inv: "tfs_inv s" and li: "link_inv s"
    and l: "tfs_sym_link s target link_name = Inr (rc, s')"
  shows "link_inv s'"
proof -
  obtain n s1 where ic: "inode_create s T_SYM_LINK = (n, s1)"
    by (cases "inode_create s T_SYM_LINK")
  from inv_inode_create [OF inv _ ic] have i1: "tfs_inv s1" and n0: "n \<noteq> 0"
    by simp_all
  from link_inv_inode_create [OF inv li _ ic] have l1: "link_inv s1"
    and e1: "n \<noteq> -1 \<Longrightarrow> entries_of s1 (nat n) = {}"
    by simp_all
  have "s' = s \<or> s' = s1 \<or>
    (\<exists>p s2 rc1. n \<noteq> -1 \<and> inode_get s1 n = Some p
       \<and> s2 = s1\<lparr>inode_table := (inode_table s1)(p :=
                  (inode_table s1 p)\<lparr>i_target_d_name := the target\<rparr>)\<rparr>
       \<and> (s' = s2 \<or> add_dir_entry s2 0 (tl (the link_name)) n = (rc1, s')))"
    using l ic
    by (auto simp: tfs_sym_link_def Let_def inv_root [OF inv]
          split: if_splits option.splits prod.splits dest!: inode_get_SomeD)
       (auto simp: ROOT_DIR_INUM_def)
  then consider "s' = s" | "s' = s1"
    | p s2 rc1 where "n \<noteq> -1" "inode_get s1 n = Some p"
       "s2 = s1\<lparr>inode_table := (inode_table s1)(p :=
                  (inode_table s1 p)\<lparr>i_target_d_name := the target\<rparr>)\<rparr>"
       "s' = s2 \<or> add_dir_entry s2 0 (tl (the link_name)) n = (rc1, s')"
    by blast
  then show ?thesis
  proof cases
    case 1
    with li show ?thesis by simp
  next
    case 2
    with l1 show ?thesis by simp
  next
    case 3
    from inode_get_SomeD [OF 3(2)] n0 have p0: "p \<noteq> 0" "freeinode_ts s1 p = TAKEN"
      "p = nat n"
      by auto
    have i2: "tfs_inv s2"
      unfolding 3(3) using i1 p0 inv_inode_block [OF i1 p0(1,2)]
      by (intro inv_update_inode) simp_all
    have rb: "root_block s2 = root_block s1"
      using p0(1) by (simp add: 3(3) root_block_def)
    have "link_inv s2 = link_inv s1"
      using p0(1) by (intro link_inv_frame) (simp_all add: 3(3) root_block_def)
    with l1 have l2: "link_inv s2" by simp
    have "entries_of s2 q = entries_of s1 q" for q
      by (simp add: entries_of_def rb) (simp add: 3(3))
    with e1 [OF 3(1)] have e2: "entries_of s2 (nat n) = {}"
      by simp
    have g2: "inode_get s2 n = Some p"
      using 3(2) by (simp add: inode_get_def 3(3))
    from inode_create_cases [OF _ ic] 3(1) p0(3) have "i_links (inode_table s1 p) = 1"
      by auto
    then have k2: "1 \<le> i_links (inode_table s2 p)"
      by (simp add: 3(3))
    from 3(4) show ?thesis
    proof
      assume "s' = s2"
      with l2 show ?thesis by simp
    next
      assume "add_dir_entry s2 0 (tl (the link_name)) n = (rc1, s')"
      from link_add_fresh [OF i2 l2 e2 g2 k2 this] show ?thesis .
    qed
  qed
qed

lemma link_open_truncate:
  assumes li: "link_inv s" and p: "p \<noteq> 0"
  shows "link_inv (if TFS_O_TRUNC \<in> mode \<and> 0 < i_size (inode_table s p)
                  then (data_block_free s (i_data_block (inode_table s p)))
                         \<lparr>inode_table := (inode_table s)(p :=
                            (inode_table s p)\<lparr>i_size := 0\<rparr>)\<rparr>
                  else s)"
proof (cases "TFS_O_TRUNC \<in> mode \<and> 0 < i_size (inode_table s p)")
  case False
  with li show ?thesis by auto
next
  case True
  let ?s = "(data_block_free s (i_data_block (inode_table s p)))
                         \<lparr>inode_table := (inode_table s)(p :=
                            (inode_table s p)\<lparr>i_size := 0\<rparr>)\<rparr>"
  have "link_inv ?s = link_inv s"
    using p by (intro link_inv_frame) (simp_all add: root_block_def data_block_free_def)
  with li True show ?thesis by simp
qed

lemma link_open_create:
  assumes inv: "tfs_inv s" and li: "link_inv s"
    and r: "(case inode_create s T_FILE of
              (inum, s1) \<Rightarrow>
                if inum = -1 then Some (Inr (-1, s1))
                else
                  (case add_dir_entry s1 0 nm inum of
                     (rc, s2) \<Rightarrow>
                       if rc = -1 then Some (Inr (-1, inode_delete s2 inum))
                       else Some (Inr (add_to_open_file_table s2 inum 0))))
            = Some (Inr (h, s'))"
  shows "link_inv s'"
proof -
  obtain n s1 where ic: "inode_create s T_FILE = (n, s1)"
    by (cases "inode_create s T_FILE")
  from inv_inode_create [OF inv _ ic] have i1: "tfs_inv s1" and n0: "n \<noteq> 0"
    and nt: "n \<noteq> -1 \<Longrightarrow> 0 \<le> n \<and> freeinode_ts s1 (nat n) = TAKEN"
    by simp_all
  from link_inv_inode_create [OF inv li _ ic] have l1: "link_inv s1"
    and e1: "n \<noteq> -1 \<Longrightarrow> entries_of s1 (nat n) = {}"
    by simp_all
  show ?thesis
  proof (cases "n = -1")
    case True
    with r ic l1 show ?thesis by simp
  next
    case False
    obtain rc s2 where a: "add_dir_entry s1 0 nm n = (rc, s2)"
      by (cases "add_dir_entry s1 0 nm n")
    from inode_create_cases [OF _ ic] False obtain p where
      p: "n = int p" "inode_get s1 n = Some p" "i_links (inode_table s1 p) = 1"
      by (auto simp: inode_get_def)
    have l2: "link_inv s2"
      by (rule link_add_fresh [OF i1 l1 e1 [OF False] p(2) _ a]) (simp add: p(3))
    show ?thesis
    proof (cases "rc = -1")
      case True
      with add_dir_entry_cases [OF a] have s2: "s2 = s1" by auto
      from True r ic a False have "s' = inode_delete s2 n" by simp
      with link_inv_inode_delete [OF l1, of p] e1 [OF False] p(1) s2 show ?thesis
        by simp
    next
      case rc: False
      with r ic a False have "add_to_open_file_table s2 n 0 = (h, s')" by simp
      from link_add_to_open_file_table [OF l2 this] show ?thesis .
    qed
  qed
qed

lemma link_tfs_open:
  assumes "tfs_open s name mode = Some r"
  shows "tfs_inv s \<and> link_inv s \<longrightarrow> (\<forall>h s'. r = Inr (h, s') \<longrightarrow> link_inv s')"
proof (rule tfs_open.raw_induct [where P = "\<lambda>s name mode r.
          tfs_inv s \<and> link_inv s \<longrightarrow> (\<forall>h s'. r = Inr (h, s') \<longrightarrow> link_inv s')", OF _ assms])
  fix tfs_open' :: "tfs_state \<Rightarrow> string option \<Rightarrow> tfs_file_mode_t \<Rightarrow> int result option"
    and s name mode r
  assume IH: "\<And>s name mode r. tfs_open' s name mode = Some r \<Longrightarrow>
          tfs_inv s \<and> link_inv s \<longrightarrow> (\<forall>h s'. r = Inr (h, s') \<longrightarrow> link_inv s')"
  assume body: "(if \<not> valid_pathname name then Some (Inr (-1, s))
      else
        (case inode_get s ROOT_DIR_INUM of
           None \<Rightarrow> Some (Inl AssertFailed)
         | Some root_dir_inode \<Rightarrow>
             let inum = tfs_lookup s name root_dir_inode in
             if 0 \<le> inum then
               (case inode_get s inum of
                  None \<Rightarrow> Some (Inl AssertFailed)
                | Some inode \<Rightarrow>
                    if i_node_type (inode_table s inode) = T_SYM_LINK then
                      (if Some (i_target_d_name (inode_table s inode)) = name
                       then Some (Inr (-1, s))
                       else tfs_open' s (Some (i_target_d_name (inode_table s inode))) mode)
                    else
                      let s1 = (if TFS_O_TRUNC \<in> mode \<and> 0 < i_size (inode_table s inode)
                                then (data_block_free s (i_data_block (inode_table s inode)))
                                       \<lparr>inode_table := (inode_table s)(inode :=
                                          (inode_table s inode)\<lparr>i_size := 0\<rparr>)\<rparr>
                                else s);
                          offset = (if TFS_O_APPEND \<in> mode
                                    then i_size (inode_table s1 inode) else 0)
                      in Some (Inr (add_to_open_file_table s1 inum offset)))
             else if TFS_O_CREAT \<in> mode then
               (case inode_create s T_FILE of
                  (inum, s1) \<Rightarrow>
                    if inum = -1 then Some (Inr (-1, s1))
                    else
                      (case add_dir_entry s1 root_dir_inode (tl (the name)) inum of
                         (rc, s2) \<Rightarrow>
                           if rc = -1 then Some (Inr (-1, inode_delete s2 inum))
                           else Some (Inr (add_to_open_file_table s2 inum 0))))
             else Some (Inr (-1, s)))) = Some r"
  show "tfs_inv s \<and> link_inv s \<longrightarrow> (\<forall>h s'. r = Inr (h, s') \<longrightarrow> link_inv s')"
  proof (intro impI allI)
    fix h s'
    assume pre: "tfs_inv s \<and> link_inv s" and r: "r = Inr (h, s')"
    from pre have inv: "tfs_inv s" and li: "link_inv s"
      by simp_all
    note root = inv_root [OF inv]
    define inum where "inum = tfs_lookup s name 0"
    have i0: "inum \<noteq> 0"
      unfolding inum_def by (rule inv_lookup [OF inv])
    show "link_inv s'"
    proof (cases "valid_pathname name")
      case False
      with body r li show ?thesis by simp
    next
      case True
      with body root have body1:
        "(if 0 \<le> inum then
               (case inode_get s inum of
                  None \<Rightarrow> Some (Inl AssertFailed)
                | Some inode \<Rightarrow>
                    if i_node_type (inode_table s inode) = T_SYM_LINK then
                      (if Some (i_target_d_name (inode_table s inode)) = name
                       then Some (Inr (-1, s))
                       else tfs_open' s (Some (i_target_d_name (inode_table s inode))) mode)
                    else
                      let s1 = (if TFS_O_TRUNC \<in> mode \<and> 0 < i_size (inode_table s inode)
                                then (data_block_free s (i_data_block (inode_table s inode)))
                                       \<lparr>inode_table := (inode_table s)(inode :=
                                          (inode_table s inode)\<lparr>i_size := 0\<rparr>)\<rparr>
                                else s);
                          offset = (if TFS_O_APPEND \<in> mode
                                    then i_size (inode_table s1 inode) else 0)
                      in Some (Inr (add_to_open_file_table s1 inum offset)))
             else if TFS_O_CREAT \<in> mode then
               (case inode_create s T_FILE of
                  (inum, s1) \<Rightarrow>
                    if inum = -1 then Some (Inr (-1, s1))
                    else
                      (case add_dir_entry s1 0 (tl (the name)) inum of
                         (rc, s2) \<Rightarrow>
                           if rc = -1 then Some (Inr (-1, inode_delete s2 inum))
                           else Some (Inr (add_to_open_file_table s2 inum 0))))
             else Some (Inr (-1, s))) = Some r"
        by (simp only: not_True_eq_False if_False option.case Let_def inum_def)
      show ?thesis
      proof (cases "0 \<le> inum")
        case True
        show ?thesis
        proof (cases "inode_get s inum")
          case None
          with body1 True r show ?thesis by simp
        next
          case (Some p)
          from inode_get_SomeD [OF Some] i0 have p0: "p \<noteq> 0" "freeinode_ts s p = TAKEN"
            by auto
          show ?thesis
          proof (cases "i_node_type (inode_table s p) = T_SYM_LINK")
            case True
            note sym = True
            show ?thesis
            proof (cases "Some (i_target_d_name (inode_table s p)) = name")
              case True
              with body1 \<open>0 \<le> inum\<close> Some sym have "Some (Inr (-1, s)) = Some r"
                by simp
              with r li show ?thesis by simp
            next
              case False
              with body1 \<open>0 \<le> inum\<close> Some sym
              have "tfs_open' s (Some (i_target_d_name (inode_table s p))) mode = Some r"
                by simp
              from IH [OF this] inv li r show ?thesis by simp
            qed
          next
            case False
            define s1 where "s1 = (if TFS_O_TRUNC \<in> mode \<and> 0 < i_size (inode_table s p)
                  then (data_block_free s (i_data_block (inode_table s p)))
                         \<lparr>inode_table := (inode_table s)(p :=
                            (inode_table s p)\<lparr>i_size := 0\<rparr>)\<rparr>
                  else s)"
            have l1: "link_inv s1"
              unfolding s1_def by (rule link_open_truncate [OF li p0(1)])
            from body1 \<open>0 \<le> inum\<close> Some False
            have "Some (Inr (add_to_open_file_table s1 inum
                     (if TFS_O_APPEND \<in> mode then i_size (inode_table s1 p) else 0))) = Some r"
              by (simp add: Let_def s1_def [symmetric])
            with r have "add_to_open_file_table s1 inum
                     (if TFS_O_APPEND \<in> mode then i_size (inode_table s1 p) else 0) = (h, s')"
              by simp
            from link_add_to_open_file_table [OF l1 this] show ?thesis .
          qed
        qed
      next
        case False
        show ?thesis
        proof (cases "TFS_O_CREAT \<in> mode")
          case True
          with body1 False r
          have "(case inode_create s T_FILE of
              (inum, s1) \<Rightarrow>
                if inum = -1 then Some (Inr (-1, s1))
                else
                  (case add_dir_entry s1 0 (tl (the name)) inum of
                     (rc, s2) \<Rightarrow>
                       if rc = -1 then Some (Inr (-1, inode_delete s2 inum))
                       else Some (Inr (add_to_open_file_table s2 inum 0))))
            = (Some (Inr (h, s')) :: int result option)"
            by simp
          from link_open_create [OF inv li this] show ?thesis .
        next
          case nc: False
          with body1 False have "Some (Inr (-1, s)) = Some r"
            by simp
          with r li show ?thesis by simp
        qed
      qed
    qed
  qed
qed

lemma link_init:
  assumes "tfs_init params_ptr name_bound = (0, s)"
  shows "link_inv s"
proof -
  define ps where "ps = (case params_ptr of Some p \<Rightarrow> p | None \<Rightarrow> tfs_default_params)"
  define s0 where "s0 = snd (state_init ps name_bound)"
  have s0: "freeinode_ts s0 = (\<lambda>_. FREE)" "free_blocks s0 = (\<lambda>_. FREE)"
     "params s0 = ps" "fs_dir s0 = (\<lambda>_ _. free_dir_entry)"
    by (simp_all add: s0_def state_init_def)
  have t: "tfs_init params_ptr name_bound =
      (case inode_create s0 T_DIRECTORY of
         (root, s1) \<Rightarrow> if root \<noteq> ROOT_DIR_INUM then (-1, s1) else (0, s1))"
    by (simp add: tfs_init_def ps_def s0_def state_init_def Let_def)
  obtain root s1 where ic: "inode_create s0 T_DIRECTORY = (root, s1)"
    by (cases "inode_create s0 T_DIRECTORY")
  with t assms have r: "root = 0" "s1 = s"
    by (auto simp: ROOT_DIR_INUM_def split: if_splits)
  have names: "d_name (fs_dir s b i) = []" for b i
    using ic r
    by (auto simp: inode_create_def data_block_alloc_def s0 free_dir_entry_def
          split: option.splits if_splits)
  then have "entries_of s p = {}" for p
    by (simp add: entries_of_def)
  moreover have "freeinode_ts s p = TAKEN \<Longrightarrow> 0 \<le> i_links (inode_table s p)" for p
    using ic r
    by (auto simp: inode_create_def data_block_alloc_def s0
          split: option.splits if_splits)
  ultimately show ?thesis
    by (simp add: link_inv_def names)
qed

lemma reachable_link_inv: "reachable s \<Longrightarrow> link_inv s"
proof (induction rule: reachable.induct)
  case (r_init params_ptr name_bound s)
  then show ?case by (rule link_init)
next
  case (r_open s name mode h s')
  with link_tfs_open [OF r_open(2)] reachable_inv [OF r_open(1)] show ?case by simp
next
  case (r_sym_link s target link_name rc s')
  from reachable_inv [OF r_sym_link(1)] r_sym_link(3) r_sym_link(2)
  show ?case by (rule link_tfs_sym_link)
next
  case (r_link s target link_name rc s')
  from reachable_inv [OF r_link(1)] r_link(3) r_link(2) show ?case by (rule link_tfs_link)
next
  case (r_close s fhandle rc s')
  from r_close(3) r_close(2) show ?case by (rule link_tfs_close)
next
  case (r_write s fhandle buffer n rc s')
  from reachable_inv [OF r_write(1)] r_write(3) r_write(2) show ?case by (rule link_tfs_write)
next
  case (r_read s fhandle len r s')
  from r_read(3) r_read(2) show ?case by (rule link_tfs_read)
next
  case (r_unlink s target rc s')
  from reachable_inv [OF r_unlink(1)] r_unlink(3) r_unlink(2)
  show ?case by (rule link_tfs_unlink)
qed

lemma lookup_allocated:
  assumes inv: "tfs_inv s" and li: "link_inv s" and f: "freeinode_ts s p = FREE"
  shows "tfs_lookup s name 0 \<noteq> int p"
proof (cases "valid_pathname name")
  case False
  then show ?thesis by (simp add: tfs_lookup_def)
next
  case True
  let ?b = "nat (root_block s)"
  let ?nm = "tl (the name)"
  have nm: "?nm \<noteq> []"
    by (rule valid_pathname_tl [OF True])
  show ?thesis
  proof (cases "find_slot (\<lambda>j. d_name (fs_dir s ?b j) = ?nm) (max_inode_count (params s))")
    case None
    with True show ?thesis
      by (simp add: tfs_lookup_def find_in_dir_def inv_dir_block [OF inv])
  next
    case (Some i)
    from find_slot_SomeD [OF Some] nm have i: "i < max_inode_count (params s)"
      "d_name (fs_dir s ?b i) \<noteq> []"
      by simp_all
    from link_invD(1) [OF li i] f have "d_inumber (fs_dir s ?b i) \<noteq> int p"
      by (auto simp: inode_get_def split: if_splits)
    with True Some show ?thesis
      by (simp add: tfs_lookup_def find_in_dir_def inv_dir_block [OF inv])
  qed
qed

text \<open>The concrete states used below are reachable.\<close>

lemma reach_facts:
  "reachable fresh_fs"
  "reachable one_file_fs"
  "reachable linked_fs"
  "reachable sym_fs"
proof -
  show f: "reachable fresh_fs"
    by (rule r_init [of "Some small_params" 8]) (simp add: eval_defs)
  show o: "reachable one_file_fs"
    by (rule r_open [OF f, of "Some ''/a''" "{TFS_O_CREAT}" 0]) (simp add: eval_defs)
  show "reachable linked_fs"
    by (rule r_link [OF o, of "Some ''/a''" "Some ''/b''" 0])
       (simp add: eval_defs linked_fs_def tfs_link_def)
  show "reachable sym_fs"
    by (rule r_sym_link [OF o, of "Some ''/a''" "Some ''/l''" 0])
       (simp add: eval_defs sym_fs_def tfs_sym_link_def)
qed

subsection \<open>Writing a file and reading it back\<close>

text \<open>
  C1 (as amended). For every byte sequence \<open>B\<close> no longer than a block, from any state
  whose root directory has no entry \<open>f\<close>: if \<^verbatim>\<open>tfs_open("/f", CREAT|TRUNC)\<close>
  succeeds with handle \<open>h\<close> and \<^verbatim>\<open>tfs_write\<close> of \<open>B\<close> through \<open>h\<close> returns the
  length of \<open>B\<close>, then \<^verbatim>\<open>tfs_close(h)\<close> returns 0, \<^verbatim>\<open>tfs_open("/f", 0)\<close>
  succeeds, and \<^verbatim>\<open>tfs_read\<close> of up to \<open>block_size\<close> bytes through the new handle
  returns the length of \<open>B\<close> and the bytes \<open>B\<close>.
\<close>

theorem round_trip:
  assumes len: "length B \<le> unat (block_size (params s))"
    and root: "inode_get s ROOT_DIR_INUM = Some root"
    and absent: "tfs_lookup s (Some ''/f'') root = -1"
    and open_ok: "tfs_open s (Some ''/f'') {TFS_O_CREAT, TFS_O_TRUNC} = Some (Inr (h, s1))"
    and h: "h \<noteq> -1"
    and write_ok: "tfs_write s1 h B (of_nat (length B)) = Inr (int (length B), s2)"
  shows "\<exists>s3 h' s4 s5. tfs_close s2 h = Inr (0, s3)
           \<and> tfs_open s3 (Some ''/f'') {} = Some (Inr (h', s4)) \<and> h' \<noteq> -1
           \<and> tfs_read s4 h' (block_size (params s4)) = Inr ((int (length B), B), s5)"
proof -
  define n :: size_t where "n = of_nat (length B)"
  define bs where "bs = block_size (params s)"
  have "length B < 2 ^ 64"
    using len unsigned_less [of "block_size (params s)", where 'a = nat] by simp
  then have un: "unat n = length B"
    unfolding n_def by (intro of_nat_inverse [OF refl]) simp
  have nbs: "n \<le> bs"
    using len by (simp add: word_le_nat_alt un bs_def)
  have v: "valid_pathname (Some ''/f'')"
    by (simp add: valid_pathname_def)
  from inode_get_SomeD [OF root]
  have r: "root = 0" "0 < max_inode_count (params s)" "freeinode_ts s 0 = TAKEN"
    by (auto simp: ROOT_DIR_INUM_def)
  \<comment> \<open>the first open creates the file\<close>
  obtain inum sa where ic: "inode_create s T_FILE = (inum, sa)"
    by (cases "inode_create s T_FILE")
  obtain rc sb where ad: "add_dir_entry sa root ''f'' inum = (rc, sb)"
    by (cases "add_dir_entry sa root ''f'' inum")
  obtain h0 sc where at: "add_to_open_file_table sb inum 0 = (h0, sc)"
    by (cases "add_to_open_file_table sb inum 0")
  have "tfs_open s (Some ''/f'') {TFS_O_CREAT, TFS_O_TRUNC} =
      (if inum = -1 then Some (Inr (-1, sa))
       else if rc = -1 then Some (Inr (-1, inode_delete sb inum))
       else Some (Inr (h0, sc)))"
    using tfs_open_create [OF v root, of "{TFS_O_CREAT, TFS_O_TRUNC}"] absent ic ad at
    by simp
  with open_ok h have ok: "inum \<noteq> -1" "rc \<noteq> -1" "h0 = h" "sc = s1"
    by (auto split: if_splits)
  from inode_create_cases [OF _ ic] ok(1) obtain p where
    p: "inum = int p" "p < max_inode_count (params s)" "freeinode_ts s p = FREE"
    and sa: "sa = s\<lparr>freeinode_ts := (freeinode_ts s)(p := TAKEN),
                    inode_table := (inode_table s)(p :=
                      \<lparr>i_node_type = T_FILE, i_size = 0, i_data_block = -1,
                       i_links = 1, i_target_d_name = []\<rparr>)\<rparr>"
    by auto
  have p0: "p \<noteq> 0"
    using p(3) r(3) by (intro notI) simp
  from add_dir_entry_cases [OF ad] ok(2) obtain bd e where
    bd: "dir_block sa root = Some bd" and e: "e < max_inode_count (params sa)"
    and nodup: "find_slot (\<lambda>j. d_name (fs_dir sa bd j) = ''f'') (max_inode_count (params sa)) = None"
    and sb: "sb = sa\<lparr>fs_dir := (fs_dir sa)(bd := (fs_dir sa bd)(e :=
                      \<lparr>d_name = ''f'', d_inumber = inum\<rparr>))\<rparr>"
    by auto
  from add_to_open_file_table_cases [OF at] ok(3) h obtain f where
    f: "h = int f" "f < max_open_files_count (params sb)" "free_open_file_entries sb f = FREE"
    and sc: "sc = sb\<lparr>free_open_file_entries := (free_open_file_entries sb)(f := TAKEN),
                    open_file_table := (open_file_table sb)(f :=
                      \<lparr>of_inumber = inum, of_offset = 0\<rparr>)\<rparr>"
    by auto
  have look_b: "find_in_dir sb root ''f'' = inum"
    using add_dir_entry_found [OF ad ok(2)] .
  \<comment> \<open>what the state after the first open looks like\<close>
  have s1_par: "params s1 = params s" "max_file_name s1 = max_file_name s"
    and s1_fi: "freeinode_ts s1 = (freeinode_ts s)(p := TAKEN)"
    and s1_ip: "inode_table s1 p = \<lparr>i_node_type = T_FILE, i_size = 0, i_data_block = -1,
                       i_links = 1, i_target_d_name = []\<rparr>"
    and s1_ir: "inode_table s1 0 = inode_table s 0"
    and s1_fb: "free_blocks s1 = free_blocks s"
    and s1_dir: "fs_dir s1 = fs_dir sb"
    and s1_fo: "free_open_file_entries s1 = (free_open_file_entries s)(f := TAKEN)"
    and s1_of: "open_file_table s1 f = \<lparr>of_inumber = int p, of_offset = 0\<rparr>"
    using p0 p(1) by (simp_all add: ok(4) [symmetric] sc sb sa)
  have bdT: "free_blocks s bd = TAKEN"
    using bd by (auto simp: dir_block_def data_block_get_def sa split: if_splits)
  have db1: "dir_block s1 0 = Some bd"
    by (rule dir_block_still [OF bd [unfolded r(1)]])
      (use p0 bdT in \<open>simp_all add: s1_par s1_ir s1_fb sa\<close>)
  have "dir_block sb 0 = Some bd"
    using bd by (simp add: sb r(1))
  with db1 have "find_in_dir s1 0 ''f'' = find_in_dir sb 0 ''f''"
    by (intro find_in_dir_cong) (simp_all add: s1_dir s1_par sb sa)
  with look_b have look1: "find_in_dir s1 0 ''f'' = int p"
    by (simp add: r(1) p(1))
  have fmax: "f < max_open_files_count (params s)"
    using f(2) by (simp add: sb sa)
  have g1: "get_open_file_entry s1 h = Some f"
    using fmax by (simp add: get_open_file_entry_def f(1) s1_par s1_fo)
  have i1: "inode_get s1 (int p) = Some p"
    using p(2) by (simp add: inode_get_def s1_par s1_fi)
  \<comment> \<open>the write\<close>
  have wr: "tfs_write s1 h B n =
    (if 0 < n then
       (case (case data_block_alloc s1 of
                (bnum, sd) \<Rightarrow>
                  if bnum = -1 then None
                  else Some (sd\<lparr>inode_table := (inode_table sd)(p :=
                               (inode_table sd p)\<lparr>i_data_block := bnum\<rparr>)\<rparr>)) of
          None \<Rightarrow> Inr (-1, s1)
        | Some s2 \<Rightarrow>
            (case data_block_get s2 (i_data_block (inode_table s2 p)) of
               None \<Rightarrow> Inl AssertFailed
             | Some block \<Rightarrow>
                 let s3 = s2\<lparr>fs_data := (fs_data s2)(block :=
                            block_write (fs_data s2 block) (unat (0::size_t)) B (unat n))\<rparr>;
                     s4 = s3\<lparr>open_file_table := (open_file_table s3)(f :=
                            (open_file_table s3 f)\<lparr>of_offset := 0 + n\<rparr>)\<rparr>;
                     s5 = (if i_size (inode_table s4 p) < 0 + n
                           then s4\<lparr>inode_table := (inode_table s4)(p :=
                                  (inode_table s4 p)\<lparr>i_size := 0 + n\<rparr>)\<rparr>
                           else s4)
                 in Inr (sint n, s5)))
     else Inr (sint n, s1))"
  proof -
    have a: "inode_get s1 (of_inumber (open_file_table s1 f)) = Some p"
      "of_offset (open_file_table s1 f) \<le> block_size (params s1)"
      "unat n + unat (of_offset (open_file_table s1 f)) < 2 ^ 64"
      "unat n \<le> length B"
      "n = min n (block_size (params s1) - of_offset (open_file_table s1 f))"
      "0 = of_offset (open_file_table s1 f)"
      using i1 nbs un \<open>length B < 2 ^ 64\<close> by (simp_all add: s1_of s1_par bs_def min_def)
    show ?thesis
      using tfs_write_unfold [OF g1 a] by (simp add: s1_ip)
  qed
  have post: "params s2 = params s \<and> freeinode_ts s2 = freeinode_ts s1
      \<and> free_open_file_entries s2 = free_open_file_entries s1
      \<and> fs_dir s2 = fs_dir s1
      \<and> inode_table s2 0 = inode_table s1 0
      \<and> i_node_type (inode_table s2 p) = T_FILE
      \<and> i_size (inode_table s2 p) = n
      \<and> free_blocks s2 bd = TAKEN
      \<and> sint n = int (length B)
      \<and> (\<exists>b. 0 < n \<longrightarrow> data_block_get s2 (i_data_block (inode_table s2 p)) = Some b
                 \<and> block_read (fs_data s2 b) 0 (unat n) = B)"
  proof (cases "0 < n")
    case False
    with wr write_ok have "s2 = s1" "sint n = int (length B)"
      by (simp_all add: n_def)
    moreover from False have "n = 0"
      by (simp add: word_gt_0)
    ultimately show ?thesis
      using bdT by (simp add: s1_par s1_ip s1_fb)
  next
    case True
    obtain bnum sd where al: "data_block_alloc s1 = (bnum, sd)"
      by (cases "data_block_alloc s1")
    have bn: "bnum \<noteq> -1"
      using wr write_ok True al by (auto simp: n_def)
    with data_block_alloc_cases [OF al] obtain b where
      b: "bnum = int b" "b < max_block_count (params s1)" "free_blocks s1 b = FREE"
      and sd: "sd = s1\<lparr>free_blocks := (free_blocks s1)(b := TAKEN)\<rparr>"
      by auto
    have res: "tfs_write s1 h B n =
        Inr (sint n,
             s1\<lparr>free_blocks := (free_blocks s1)(b := TAKEN),
                inode_table := (inode_table s1)(p :=
                  (inode_table s1 p)\<lparr>i_data_block := int b, i_size := n\<rparr>),
                fs_data := (fs_data s1)(b := block_write (fs_data s1 b) 0 B (unat n)),
                open_file_table := (open_file_table s1)(f :=
                  (open_file_table s1 f)\<lparr>of_offset := n\<rparr>)\<rparr>)"
      using True b by (simp add: wr al sd data_block_get_def Let_def s1_ip)
    with write_ok have s2: "s2 =
             s1\<lparr>free_blocks := (free_blocks s1)(b := TAKEN),
                inode_table := (inode_table s1)(p :=
                  (inode_table s1 p)\<lparr>i_data_block := int b, i_size := n\<rparr>),
                fs_data := (fs_data s1)(b := block_write (fs_data s1 b) 0 B (unat n)),
                open_file_table := (open_file_table s1)(f :=
                  (open_file_table s1 f)\<lparr>of_offset := n\<rparr>)\<rparr>"
      and sn: "sint n = int (length B)"
      by (simp_all add: n_def)
    have "data_block_get s2 (i_data_block (inode_table s2 p)) = Some b"
      using b by (simp add: s2 data_block_get_def)
    moreover have "block_read (fs_data s2 b) 0 (unat n) = B"
      by (simp add: s2 block_read_write un)
    ultimately show ?thesis
      using p0 bdT sn by (auto simp: s2 s1_par s1_ip s1_fb)
  qed
  then obtain b where
    s2_par: "params s2 = params s" and s2_fi: "freeinode_ts s2 = freeinode_ts s1"
    and s2_fo: "free_open_file_entries s2 = free_open_file_entries s1"
    and s2_dir: "fs_dir s2 = fs_dir s1" and s2_ir: "inode_table s2 0 = inode_table s1 0"
    and s2_ty: "i_node_type (inode_table s2 p) = T_FILE"
    and s2_sz: "i_size (inode_table s2 p) = n"
    and s2_bd: "free_blocks s2 bd = TAKEN"
    and sn: "sint n = int (length B)"
    and s2_blk: "0 < n \<Longrightarrow> data_block_get s2 (i_data_block (inode_table s2 p)) = Some b"
    and s2_rd: "0 < n \<Longrightarrow> block_read (fs_data s2 b) 0 (unat n) = B"
    by auto
  \<comment> \<open>the close\<close>
  define s3 where "s3 = remove_from_open_file_table s2 h"
  have cl: "tfs_close s2 h = Inr (0, s3)"
    using fmax by (simp add: tfs_close_def get_open_file_entry_def f(1) s2_par s2_fo s1_fo s3_def)
  have s3: "s3 = s2\<lparr>free_open_file_entries := (free_open_file_entries s2)(f := FREE)\<rparr>"
    using fmax by (simp add: s3_def remove_from_open_file_table_def f(1) s2_par)
  \<comment> \<open>the second open finds the file\<close>
  have root3: "inode_get s3 ROOT_DIR_INUM = Some 0"
    using r p0 by (simp add: inode_get_def ROOT_DIR_INUM_def s3 s2_par s2_fi s1_fi)
  have db3: "dir_block s3 0 = Some bd"
    by (rule dir_block_still [OF db1]) (simp_all add: s3 s2_ir s2_bd s2_par s1_par)
  with db1 have "find_in_dir s3 0 ''f'' = find_in_dir s1 0 ''f''"
    by (intro find_in_dir_cong) (simp_all add: s3 s2_dir s2_par s1_par)
  with look1 have look3: "tfs_lookup s3 (Some ''/f'') 0 = int p"
    by (simp add: tfs_lookup_def v)
  have i3: "inode_get s3 (int p) = Some p"
    using p(2) by (simp add: inode_get_def s3 s2_par s2_fi s1_fi)
  have ty3: "i_node_type (inode_table s3 p) \<noteq> T_SYM_LINK"
    by (simp add: s3 s2_ty)
  have op: "tfs_open s3 (Some ''/f'') {} = Some (Inr (add_to_open_file_table s3 (int p) 0))"
    using tfs_open_existing [OF v root3 look3 _ i3 ty3, of "{}"] by simp
  obtain h' s4 where at4: "add_to_open_file_table s3 (int p) 0 = (h', s4)"
    by (cases "add_to_open_file_table s3 (int p) 0")
  have h': "h' \<noteq> -1"
    using add_to_open_file_table_free [of f s3 "int p" 0] fmax at4
    by (simp add: s3 s2_par)
  with add_to_open_file_table_cases [OF at4] obtain f' where
    f': "h' = int f'" "f' < max_open_files_count (params s3)"
    and s4: "s4 = s3\<lparr>free_open_file_entries := (free_open_file_entries s3)(f' := TAKEN),
                    open_file_table := (open_file_table s3)(f' :=
                      \<lparr>of_inumber = int p, of_offset = 0\<rparr>)\<rparr>"
    by auto
  \<comment> \<open>the read\<close>
  have g4: "get_open_file_entry s4 h' = Some f'"
    using f' by (simp add: get_open_file_entry_def s4)
  have i4: "inode_get s4 (of_inumber (open_file_table s4 f')) = Some p"
    using i3 by (simp add: s4 inode_get_def)
  have rd: "tfs_read s4 h' (block_size (params s4)) =
     (if 0 < n then
        (case data_block_get s4 (i_data_block (inode_table s4 p)) of
           None \<Rightarrow> Inl AssertFailed
         | Some block \<Rightarrow>
             Inr ((sint n, block_read (fs_data s4 block) (unat (0::size_t)) (unat n)),
                  s4\<lparr>open_file_table := (open_file_table s4)(f' :=
                      (open_file_table s4 f')\<lparr>of_offset := 0 + n\<rparr>)\<rparr>))
      else Inr ((sint n, []), s4))"
  proof -
    have a: "0 = of_offset (open_file_table s4 f')"
      "0 \<le> i_size (inode_table s4 p)"
      "i_size (inode_table s4 p) \<le> block_size (params s4)"
      "n = min (block_size (params s4)) (i_size (inode_table s4 p) - 0)"
      using nbs by (simp_all add: s4 s3 s2_sz s2_par bs_def min_def)
    show ?thesis
      using tfs_read_within_size [OF g4 i4 a] by (simp add: s4 s3 s2_sz)
  qed
  have "\<exists>s5. tfs_read s4 h' (block_size (params s4)) = Inr ((int (length B), B), s5)"
  proof (cases "0 < n")
    case True
    have "data_block_get s4 (i_data_block (inode_table s4 p)) = Some b"
      using s2_blk [OF True] by (simp add: s4 s3 data_block_get_def)
    moreover have "block_read (fs_data s4 b) 0 (unat n) = B"
      using s2_rd [OF True] by (simp add: s4 s3)
    ultimately show ?thesis
      using True by (simp add: rd sn)
  next
    case False
    then have "n = 0" by (simp add: word_gt_0)
    with un have "B = []" by simp
    with False show ?thesis by (simp add: rd sn)
  qed
  with cl op at4 h' show ?thesis
    by auto
qed

text \<open>The round trip of \<open>rt_bytes\<close> on the small file system.\<close>

theorem round_trip_witness:
  "\<exists>s3 h' s4 s5. tfs_close rt_written 0 = Inr (0, s3)
           \<and> tfs_open s3 (Some ''/f'') {} = Some (Inr (h', s4)) \<and> h' \<noteq> -1
           \<and> tfs_read s4 h' (block_size (params s4)) = Inr ((int (length rt_bytes), rt_bytes), s5)"
  by (rule round_trip [OF rt_facts])

text \<open>
  Without the condition on the write the claim fails: on \<open>full_fs\<close> the only data
  block belongs to the root directory, so after a successful
  \<^verbatim>\<open>tfs_open("/f", CREAT|TRUNC)\<close> the write of one byte returns -1 (no block can be
  allocated) and the read after reopening returns 0 bytes.
\<close>

theorem round_trip_counterexample:
  "length [1 :: byte] \<le> unat (block_size (params full_fs))
   \<and> inode_get full_fs ROOT_DIR_INUM = Some 0
   \<and> tfs_lookup full_fs (Some ''/f'') 0 = -1
   \<and> tfs_open full_fs (Some ''/f'') {TFS_O_CREAT, TFS_O_TRUNC} = Some (Inr (0, full_opened))
   \<and> tfs_write full_opened 0 [1] 1 = Inr (-1, full_opened)
   \<and> tfs_close full_opened 0 = Inr (0, full_closed)
   \<and> tfs_open full_closed (Some ''/f'') {} = Some (Inr (0, full_reopened))
   \<and> tfs_read full_reopened 0 (block_size (params full_reopened)) = Inr ((0, []), full_reopened)"
  by (simp add: eval_io)

subsection \<open>tfs\_write\<close>

text \<open>
  C2. Let \<open>fhandle\<close> be a valid handle (its open-file entry is allocated and the inode
  it references exists) whose offset is at most \<open>block_size\<close>, and let \<open>buffer\<close> hold
  the \<open>n\<close> bytes the caller passes (with \<open>n + offset\<close> representable in
  \<^verbatim>\<open>size_t\<close>). With \<open>k = min(n, block_size - offset)\<close>: if \<open>k = 0\<close> the call
  returns 0 and changes nothing; if \<open>k > 0\<close>, the inode's size is 0 and no data block
  can be allocated, it returns -1 and changes nothing; if \<open>k > 0\<close> and the file's block
  is \<open>b\<close> (just allocated when the size was 0, the inode's own block otherwise), it
  returns \<open>k\<close> (as \<^verbatim>\<open>ssize_t\<close>), the first \<open>k\<close> bytes of the buffer stand in block
  \<open>b\<close> from \<open>offset\<close> on, no other byte of any block has changed, the handle's
  offset has advanced by \<open>k\<close>, and the inode's size is the larger of its old size and
  the new offset.
\<close>

theorem tfs_write_spec:
  fixes n :: size_t
  assumes h: "get_open_file_entry s fhandle = Some file"
    and i: "inode_get s (of_inumber (open_file_table s file)) = Some inode"
    and off: "of_offset (open_file_table s file) \<le> block_size (params s)"
    and novf: "unat n + unat (of_offset (open_file_table s file)) < 2 ^ 64"
    and buf: "unat n \<le> length buffer"
    and k: "k = min n (block_size (params s) - of_offset (open_file_table s file))"
    and offset: "offset = of_offset (open_file_table s file)"
  shows "(k = 0 \<longrightarrow> tfs_write s fhandle buffer n = Inr (0, s))
     \<and> (0 < k \<and> i_size (inode_table s inode) = 0 \<and> fst (data_block_alloc s) = -1
          \<longrightarrow> tfs_write s fhandle buffer n = Inr (-1, s))
     \<and> (0 < k \<and> (i_size (inode_table s inode) = 0 \<and> fst (data_block_alloc s) = int b
                  \<or> i_size (inode_table s inode) \<noteq> 0
                    \<and> data_block_get s (i_data_block (inode_table s inode)) = Some b)
          \<longrightarrow> (\<exists>s'. tfs_write s fhandle buffer n = Inr (sint k, s')
                 \<and> block_read (fs_data s' b) (unat offset) (unat k) = take (unat k) buffer
                 \<and> (\<forall>j. j < unat offset \<or> unat offset + unat k \<le> j
                        \<longrightarrow> fs_data s' b j = fs_data s b j)
                 \<and> (\<forall>b'. b' \<noteq> b \<longrightarrow> fs_data s' b' = fs_data s b')
                 \<and> open_file_table s' file
                     = (open_file_table s file)\<lparr>of_offset := offset + k\<rparr>
                 \<and> i_size (inode_table s' inode)
                     = max (i_size (inode_table s inode)) (offset + k)
                 \<and> data_block_get s' (i_data_block (inode_table s' inode)) = Some b))"
proof -
  note unf = tfs_write_unfold [OF h i off novf buf k offset]
  have "unat k \<le> unat n"
    by (simp add: k word_le_nat_alt [symmetric])
  with buf have inbuf: "\<not> length buffer < unat k" "unat k \<le> length buffer"
    by simp_all
  show ?thesis
  proof (intro conjI impI)
    assume "k = 0"
    then show "tfs_write s fhandle buffer n = Inr (0, s)"
      by (simp add: unf)
  next
    assume a: "0 < k \<and> i_size (inode_table s inode) = 0 \<and> fst (data_block_alloc s) = -1"
    then show "tfs_write s fhandle buffer n = Inr (-1, s)"
      by (cases "data_block_alloc s") (simp add: unf)
  next
    assume a: "0 < k \<and> (i_size (inode_table s inode) = 0 \<and> fst (data_block_alloc s) = int b
                  \<or> i_size (inode_table s inode) \<noteq> 0
                    \<and> data_block_get s (i_data_block (inode_table s inode)) = Some b)"
    then have kpos: "0 < k" by simp
    from a consider
      (alloc) "i_size (inode_table s inode) = 0" "fst (data_block_alloc s) = int b"
      | (owned) "i_size (inode_table s inode) \<noteq> 0"
          "data_block_get s (i_data_block (inode_table s inode)) = Some b"
      by blast
    then show "\<exists>s'. tfs_write s fhandle buffer n = Inr (sint k, s')
                 \<and> block_read (fs_data s' b) (unat offset) (unat k) = take (unat k) buffer
                 \<and> (\<forall>j. j < unat offset \<or> unat offset + unat k \<le> j
                        \<longrightarrow> fs_data s' b j = fs_data s b j)
                 \<and> (\<forall>b'. b' \<noteq> b \<longrightarrow> fs_data s' b' = fs_data s b')
                 \<and> open_file_table s' file
                     = (open_file_table s file)\<lparr>of_offset := offset + k\<rparr>
                 \<and> i_size (inode_table s' inode)
                     = max (i_size (inode_table s inode)) (offset + k)
                 \<and> data_block_get s' (i_data_block (inode_table s' inode)) = Some b"
    proof cases
      case alloc
      obtain bn s1 where al: "data_block_alloc s = (bn, s1)"
        by (cases "data_block_alloc s")
      with alloc(2) have bn: "bn = int b" by simp
      with data_block_alloc_cases [OF al] have
        b: "b < max_block_count (params s)" and
        s1: "s1 = s\<lparr>free_blocks := (free_blocks s)(b := TAKEN)\<rparr>"
        by auto
      show ?thesis
        using kpos alloc(1) al bn b inbuf(2)
        by (auto simp: unf s1 data_block_get_def Let_def block_read_write
              block_write_outside max_def word_gt_0)
    next
      case owned
      show ?thesis
        using kpos owned inbuf(2) data_block_get_SomeD [OF owned(2)]
        by (auto simp: unf data_block_get_def Let_def block_read_write
              block_write_outside max_def)
    qed
  qed
qed

text \<open>
  The three cases at work: a write of 0 bytes, a write on the file system with no free
  block, and a write of \<open>rt_bytes\<close> to the new file \<open>/a\<close>.
\<close>

theorem tfs_write_spec_witness:
  "tfs_write one_file_fs 0 rt_bytes 0 = Inr (0, one_file_fs)
   \<and> tfs_write full_opened 0 [1] 1 = Inr (-1, full_opened)
   \<and> (\<exists>s'. tfs_write one_file_fs 0 rt_bytes 3 = Inr (3, s')
         \<and> block_read (fs_data s' 1) 0 3 = rt_bytes
         \<and> open_file_table s' 0 = (open_file_table one_file_fs 0)\<lparr>of_offset := 3\<rparr>
         \<and> i_size (inode_table s' 1) = 3
         \<and> data_block_get s' (i_data_block (inode_table s' 1)) = Some 1)"
proof (intro conjI)
  show "tfs_write one_file_fs 0 rt_bytes 0 = Inr (0, one_file_fs)"
    using tfs_write_spec [OF write_facts(1-3) write_facts(8-10) write_facts(7)] by simp
  show "tfs_write full_opened 0 [1] 1 = Inr (-1, full_opened)"
    using tfs_write_spec [OF full_write_facts(1-7)] full_write_facts(8,9) by simp
  show "\<exists>s'. tfs_write one_file_fs 0 rt_bytes 3 = Inr (3, s')
         \<and> block_read (fs_data s' 1) 0 3 = rt_bytes
         \<and> open_file_table s' 0 = (open_file_table one_file_fs 0)\<lparr>of_offset := 3\<rparr>
         \<and> i_size (inode_table s' 1) = 3
         \<and> data_block_get s' (i_data_block (inode_table s' 1)) = Some 1"
    using tfs_write_spec [OF write_facts(1-7), where b = 1] write_facts(11,12)
    by (auto simp: rt_bytes_def simp del: One_nat_def)
qed

subsection \<open>tfs\_read with the offset beyond the size\<close>

text \<open>
  C3 fails on the code when the handle's offset exceeds the inode's size: the unsigned
  subtraction \<^verbatim>\<open>inode->i_size - file->of_offset\<close> wraps around, so the read is
  capped by \<open>len\<close> alone. Below, \<open>/a\<close> has size 3 and handle 1 has offset 8, yet
  \<^verbatim>\<open>tfs_read\<close> of 4 bytes returns 4, and the bytes are those the file held at
  offsets 8 to 11 before it was truncated.
\<close>

theorem tfs_read_beyond_size:
  "retval (tfs_write two_open_fs 0 [1, 2, 3, 4, 5, 6, 7, 8, 9, 10, 11, 12] 12) = Some 12
   \<and> retval (tfs_read stale_written 1 8) = Some (8, [1, 2, 3, 4, 5, 6, 7, 8])
   \<and> retval (tfs_close stale_read 0) = Some 0
   \<and> map_option retval (tfs_open stale_closed (Some ''/a'') {TFS_O_TRUNC}) = Some (Some 0)
   \<and> retval (tfs_write stale_truncated 0 [7, 8, 9] 3) = Some 3
   \<and> get_open_file_entry stale_rewritten 1 = Some 1
   \<and> inode_get stale_rewritten (of_inumber (open_file_table stale_rewritten 1)) = Some 1
   \<and> i_size (inode_table stale_rewritten 1) = 3
   \<and> of_offset (open_file_table stale_rewritten 1) = 8
   \<and> retval (tfs_read stale_rewritten 1 4) = Some (4, [9, 10, 11, 12])"
  by (simp add: eval_io)

subsection \<open>tfs\_unlink of an open file\<close>

text \<open>
  C4 fails on the code: \<^verbatim>\<open>tfs_unlink\<close> deletes the inode whatever the open-file
  table holds. After \<^verbatim>\<open>tfs_init\<close>, \<^verbatim>\<open>tfs_open("/a", TFS_O_CREAT)\<close> (handle 0,
  inumber 1) and \<^verbatim>\<open>tfs_unlink("/a")\<close>, handle 0 is still allocated and references
  inumber 1, which is free; a \<^verbatim>\<open>tfs_write\<close> through the handle then stops at the
  assertion "inode of open file deleted".
\<close>

theorem tfs_unlink_leaves_open_entry:
  "fst (tfs_init (Some small_params) 8) = 0
   \<and> map_option retval (tfs_open fresh_fs (Some ''/a'') {TFS_O_CREAT}) = Some (Some 0)
   \<and> retval (tfs_unlink one_file_fs (Some ''/a'')) = Some 0
   \<and> get_open_file_entry unlinked_open_fs 0 = Some 0
   \<and> of_inumber (open_file_table unlinked_open_fs 0) = 1
   \<and> inode_get unlinked_open_fs 1 = None
   \<and> tfs_write unlinked_open_fs 0 [1] 1 = Inl AssertFailed"
  by (simp add: eval_io)

subsection \<open>tfs\_unlink\<close>

lemma lookup_after_clear:
  assumes inv: "tfs_inv s1" and v: "valid_pathname target"
  shows "tfs_lookup (snd (clear_dir_entry s1 0 (tl (the target)))) target 0 = -1
       \<and> (\<forall>other. other \<noteq> target \<longrightarrow>
            tfs_lookup (snd (clear_dir_entry s1 0 (tl (the target)))) other 0
            = tfs_lookup s1 other 0)"
proof -
  let ?nm = "tl (the target)"
  let ?b = "nat (root_block s1)"
  let ?n = "max_inode_count (params s1)"
  have db: "dir_block s1 0 = Some ?b"
    by (rule inv_dir_block [OF inv])
  have nm: "?nm \<noteq> []"
    by (rule valid_pathname_tl [OF v])
  show ?thesis
  proof (cases "find_slot (\<lambda>i. d_name (fs_dir s1 ?b i) = ?nm) ?n")
    case None
    with db have "clear_dir_entry s1 0 ?nm = (-1, s1)"
      by (simp add: clear_dir_entry_def)
    moreover from None db v have "tfs_lookup s1 target 0 = -1"
      by (simp add: tfs_lookup_def find_in_dir_def)
    ultimately show ?thesis by simp
  next
    case (Some i)
    let ?s' = "s1\<lparr>fs_dir := (fs_dir s1)(?b := (fs_dir s1 ?b)(i := free_dir_entry))\<rparr>"
    from Some db have c: "clear_dir_entry s1 0 ?nm = (0, ?s')"
      by (simp add: clear_dir_entry_def)
    from find_slot_SomeD [OF Some] have i: "i < ?n" "d_name (fs_dir s1 ?b i) = ?nm"
      by simp_all
    have uniq: "j = i" if "j < ?n" "d_name (fs_dir s1 ?b j) = ?nm" for j
      using tfs_invD(3) [OF inv] i nm that unfolding dir_inv_def by metis
    have db': "dir_block ?s' 0 = Some ?b"
      using db by simp
    have "find_slot (\<lambda>j. d_name (fs_dir ?s' ?b j) = ?nm) ?n = None"
      unfolding find_slot_None_iff using uniq nm
      by (auto simp: free_dir_entry_def)
    with db' v have gone: "tfs_lookup ?s' target 0 = -1"
      by (simp add: tfs_lookup_def find_in_dir_def)
    have rest: "tfs_lookup ?s' other 0 = tfs_lookup s1 other 0" if o: "other \<noteq> target" for other
    proof (cases "valid_pathname other")
      case False
      then show ?thesis by (simp add: tfs_lookup_def)
    next
      case True
      let ?om = "tl (the other)"
      from valid_pathname_eqI [OF True v] o have ne: "?om \<noteq> ?nm" by blast
      have om: "?om \<noteq> []"
        by (rule valid_pathname_tl [OF True])
      have same: "(d_name (fs_dir ?s' ?b j) = ?om) = (d_name (fs_dir s1 ?b j) = ?om)" for j
        using i(2) ne om by (auto simp: free_dir_entry_def)
      have fs: "find_slot (\<lambda>j. d_name (fs_dir ?s' ?b j) = ?om) ?n
              = find_slot (\<lambda>j. d_name (fs_dir s1 ?b j) = ?om) ?n"
        by (rule find_slot_cong_below) (rule same)
      have "find_in_dir ?s' 0 ?om = find_in_dir s1 0 ?om"
      proof (cases "find_slot (\<lambda>j. d_name (fs_dir s1 ?b j) = ?om) ?n")
        case None
        with fs db db' show ?thesis by (simp add: find_in_dir_def)
      next
        case (Some k)
        from find_slot_SomeD [OF Some] i(2) ne have "k \<noteq> i" by auto
        with fs Some db db' show ?thesis by (simp add: find_in_dir_def)
      qed
      with True show ?thesis by (simp add: tfs_lookup_def)
    qed
    from c gone rest show ?thesis by simp
  qed
qed

lemma find_in_dir_inode_delete:
  assumes inv: "tfs_inv s" and i1: "tfs_inv (inode_delete s i)"
  shows "find_in_dir (inode_delete s i) 0 nm = find_in_dir s 0 nm"
proof (rule find_in_dir_cong)
  have "root_block (inode_delete s i) = root_block s"
    by (simp add: root_block_def inode_delete_frame)
  with inv_dir_block [OF inv] inv_dir_block [OF i1]
  show "dir_block (inode_delete s i) 0 = dir_block s 0" by simp
qed (simp_all add: inode_delete_frame)

lemma unlink_facts:
  "tfs_lookup one_file_fs (Some ''/zz'') 0 = -1"
  "tfs_lookup linked_fs (Some ''/a'') 0 = 1"
  "tfs_lookup linked_fs (Some ''/b'') 0 = 1"
  "inode_get linked_fs 1 = Some 1"
  "i_links (inode_table linked_fs 1) = 2"
  "tfs_lookup sym_fs (Some ''/l'') 0 = 2"
  "tfs_lookup sym_fs (Some ''/a'') 0 = 1"
  "inode_get sym_fs 2 = Some 2"
  "i_node_type (inode_table sym_fs 2) = T_SYM_LINK"
  by (simp_all add: eval_defs linked_fs_def sym_fs_def tfs_link_def tfs_sym_link_def)

text \<open>
  C5. In every reachable state: \<^verbatim>\<open>tfs_unlink\<close> returns -1 and changes nothing if
  the path is invalid or absent from the root directory. For a valid path whose entry
  resolves to an allocated inode it returns 0, the path no longer resolves, and every
  other path resolves as before; if the inode's link count is at most 1, or the inode
  is a SYMLINK (whose link count is at most 1 in every reachable state), the inode is
  deleted; if the link count is above 1, the inode stays allocated, its link count
  has dropped by exactly 1, and nothing else of the inode table and of the two
  allocation maps has changed.
\<close>

theorem tfs_unlink_spec:
  assumes r: "reachable s"
  shows "(\<not> valid_pathname target \<or> tfs_lookup s target 0 = -1
            \<longrightarrow> tfs_unlink s target = Inr (-1, s))
       \<and> (\<forall>p. valid_pathname target \<and> inode_get s (tfs_lookup s target 0) = Some p \<longrightarrow>
            (\<exists>s'. tfs_unlink s target = Inr (0, s')
               \<and> tfs_lookup s' target 0 = -1
               \<and> (\<forall>other. other \<noteq> target \<longrightarrow> tfs_lookup s' other 0 = tfs_lookup s other 0)
               \<and> (i_links (inode_table s p) \<le> 1 \<or> i_node_type (inode_table s p) = T_SYM_LINK
                     \<longrightarrow> inode_get s' (int p) = None \<and> inode_table s' = inode_table s)
               \<and> (1 < i_links (inode_table s p)
                     \<longrightarrow> inode_get s' (int p) = Some p
                       \<and> inode_table s' = (inode_table s)(p :=
                            (inode_table s p)\<lparr>i_links := i_links (inode_table s p) - 1\<rparr>)
                       \<and> freeinode_ts s' = freeinode_ts s
                       \<and> free_blocks s' = free_blocks s)))"
proof (intro conjI impI allI)
  have inv: "tfs_inv s"
    by (rule reachable_inv [OF r])
  note unf = tfs_unlink_unfold [OF inv_root [OF inv], of target]
  assume "\<not> valid_pathname target \<or> tfs_lookup s target 0 = -1"
  then show "tfs_unlink s target = Inr (-1, s)"
    by (subst unf) auto
next
  fix p
  assume a: "valid_pathname target \<and> inode_get s (tfs_lookup s target 0) = Some p"
  have inv: "tfs_inv s"
    by (rule reachable_inv [OF r])
  define inum where "inum = tfs_lookup s target 0"
  from a have v: "valid_pathname target" and g: "inode_get s inum = Some p"
    by (simp_all add: inum_def)
  have i0: "inum \<noteq> 0"
    unfolding inum_def by (rule inv_lookup [OF inv])
  from inode_get_SomeD [OF g] i0 have p: "p \<noteq> 0" "freeinode_ts s p = TAKEN" "inum = int p"
    by auto
  from g have n1: "inum \<noteq> -1"
    by (auto simp: inode_get_def split: if_splits)
  define s1 where "s1 = (if i_links (inode_table s p) - 1 \<le> 0
                       then inode_delete s inum
                       else s\<lparr>inode_table := (inode_table s)(p :=
                              (inode_table s p)\<lparr>i_links :=
                                 i_links (inode_table s p) - 1\<rparr>)\<rparr>)"
  have i1: "tfs_inv s1"
    using unlink_step_inv [OF inv p(1,2)] by (simp add: s1_def p(3))
  define s' where "s' = snd (clear_dir_entry s1 0 (tl (the target)))"
  have "tfs_unlink s target =
        (if \<not> valid_pathname target \<or> inum = -1 then Inr (-1, s)
         else (case inode_get s1 ROOT_DIR_INUM of
                 None \<Rightarrow> Inr (0, s1)
               | Some r \<Rightarrow> Inr (0, snd (clear_dir_entry s1 r (tl (the target))))))"
    by (simp only: tfs_unlink_unfold [OF inv_root [OF inv], of target, folded inum_def]
          g option.case Let_def s1_def)
  with v n1 inv_root [OF i1] have u: "tfs_unlink s target = Inr (0, s')"
    by (simp add: s'_def)
  from lookup_after_clear [OF i1 v]
  have l: "tfs_lookup s' target 0 = -1"
    and o: "\<And>other. other \<noteq> target \<Longrightarrow> tfs_lookup s' other 0 = tfs_lookup s1 other 0"
    by (simp_all add: s'_def)
  have l1: "tfs_lookup s1 other 0 = tfs_lookup s other 0" for other
  proof (cases "i_links (inode_table s p) - 1 \<le> 0")
    case True
    then have e: "s1 = inode_delete s inum" by (simp add: s1_def)
    from i1 have "tfs_inv (inode_delete s inum)" by (simp add: e)
    from find_in_dir_inode_delete [OF inv this] show ?thesis
      by (simp add: tfs_lookup_def e)
  next
    case False
    then have e: "s1 = s\<lparr>inode_table := (inode_table s)(p :=
                              (inode_table s p)\<lparr>i_links :=
                                 i_links (inode_table s p) - 1\<rparr>)\<rparr>"
      by (simp add: s1_def)
    have "find_in_dir s1 0 nm = find_in_dir s 0 nm" for nm
      unfolding e by (rule find_in_dir_cong) simp_all
    then show ?thesis by (simp add: tfs_lookup_def)
  qed
  obtain rc where c: "clear_dir_entry s1 0 (tl (the target)) = (rc, s')"
    by (cases "clear_dir_entry s1 0 (tl (the target))") (simp add: s'_def)
  from clear_dir_entry_cases [OF c]
  have fr: "inode_table s' = inode_table s1" "freeinode_ts s' = freeinode_ts s1"
    "free_blocks s' = free_blocks s1" "params s' = params s1"
    by auto
  have sym: "i_links (inode_table s p) \<le> 1"
    if "i_node_type (inode_table s p) = T_SYM_LINK"
    using tfs_invD(2) [OF inv] p(1,2) that by (simp add: inode_inv_def)
  have del: "inode_get s' (int p) = None \<and> inode_table s' = inode_table s"
    if "i_links (inode_table s p) \<le> 1 \<or> i_node_type (inode_table s p) = T_SYM_LINK"
  proof -
    from that sym have "i_links (inode_table s p) - 1 \<le> 0" by auto
    then have e: "s1 = inode_delete s inum" by (simp add: s1_def)
    from inode_delete_gone [OF g] have "inode_get s1 (int p) = None" by (simp add: e)
    then have "inode_get s' (int p) = None"
      by (simp add: inode_get_def fr)
    with fr(1) show ?thesis by (simp add: e inode_delete_frame)
  qed
  have dec: "inode_get s' (int p) = Some p
           \<and> inode_table s' = (inode_table s)(p :=
                (inode_table s p)\<lparr>i_links := i_links (inode_table s p) - 1\<rparr>)
           \<and> freeinode_ts s' = freeinode_ts s \<and> free_blocks s' = free_blocks s"
    if "1 < i_links (inode_table s p)"
  proof -
    from that have e: "s1 = s\<lparr>inode_table := (inode_table s)(p :=
                              (inode_table s p)\<lparr>i_links :=
                                 i_links (inode_table s p) - 1\<rparr>)\<rparr>"
      by (simp add: s1_def)
    from g p(3) have "inode_get s' (int p) = Some p"
      by (simp add: inode_get_def fr e)
    with fr show ?thesis by (simp add: e)
  qed
  show "\<exists>s'. tfs_unlink s target = Inr (0, s')
               \<and> tfs_lookup s' target 0 = -1
               \<and> (\<forall>other. other \<noteq> target \<longrightarrow> tfs_lookup s' other 0 = tfs_lookup s other 0)
               \<and> (i_links (inode_table s p) \<le> 1 \<or> i_node_type (inode_table s p) = T_SYM_LINK
                     \<longrightarrow> inode_get s' (int p) = None \<and> inode_table s' = inode_table s)
               \<and> (1 < i_links (inode_table s p)
                     \<longrightarrow> inode_get s' (int p) = Some p
                       \<and> inode_table s' = (inode_table s)(p :=
                            (inode_table s p)\<lparr>i_links := i_links (inode_table s p) - 1\<rparr>)
                       \<and> freeinode_ts s' = freeinode_ts s
                       \<and> free_blocks s' = free_blocks s)"
    using u l o l1 del dec by (intro exI [of _ s']) simp
qed

text \<open>
  At work on the small file system: an absent path and no path at all; the only name
  of a file; one of the two names of a file; a symbolic link.
\<close>

theorem tfs_unlink_spec_witness:
  "tfs_unlink one_file_fs (Some ''/zz'') = Inr (-1, one_file_fs)
   \<and> tfs_unlink one_file_fs None = Inr (-1, one_file_fs)
   \<and> (\<exists>s'. tfs_unlink one_file_fs (Some ''/a'') = Inr (0, s')
          \<and> tfs_lookup s' (Some ''/a'') 0 = -1 \<and> inode_get s' 1 = None)
   \<and> (\<exists>s'. tfs_unlink linked_fs (Some ''/a'') = Inr (0, s')
          \<and> tfs_lookup s' (Some ''/a'') 0 = -1 \<and> tfs_lookup s' (Some ''/b'') 0 = 1
          \<and> inode_get s' 1 = Some 1 \<and> i_links (inode_table s' 1) = 1)
   \<and> (\<exists>s'. tfs_unlink sym_fs (Some ''/l'') = Inr (0, s')
          \<and> tfs_lookup s' (Some ''/l'') 0 = -1 \<and> tfs_lookup s' (Some ''/a'') 0 = 1
          \<and> inode_get s' 2 = None)"
  using tfs_unlink_spec [OF reach_facts(2), of "Some ''/zz''"]
    tfs_unlink_spec [OF reach_facts(2), of None]
    tfs_unlink_spec [OF reach_facts(2), of "Some ''/a''"]
    tfs_unlink_spec [OF reach_facts(3), of "Some ''/a''"]
    tfs_unlink_spec [OF reach_facts(4), of "Some ''/l''"]
  by (auto simp: one_file_facts unlink_facts valid_pathname_def simp del: One_nat_def)

subsection \<open>Failures of tfs\_open after it created the inode\<close>

text \<open>
  C6. Let \<open>name\<close> be a valid path that the root directory does not resolve, let the
  mode include \<^verbatim>\<open>TFS_O_CREAT\<close>, and let \<^verbatim>\<open>inode_create(T_FILE)\<close> succeed with
  inumber \<open>inum\<close>. If adding the directory entry fails, \<^verbatim>\<open>tfs_open\<close> returns -1 and
  the inode pool is as before the call: the same slots are allocated and every allocated
  inode is unchanged (the directory and the block pool are unchanged too). If the entry
  is added but no open-file entry is free, \<^verbatim>\<open>tfs_open\<close> returns -1 and the new file
  remains: \<open>name\<close> resolves to \<open>inum\<close>, which is an allocated FILE inode that was free
  before the call.
\<close>

theorem tfs_open_create_failures:
  assumes "valid_pathname name"
    and "inode_get s ROOT_DIR_INUM = Some root"
    and "tfs_lookup s name root < 0" "TFS_O_CREAT \<in> mode"
    and "inode_create s T_FILE = (inum, s1)" "inum \<noteq> -1"
    and "add_dir_entry s1 root (tl (the name)) inum = (rc, s2)"
  shows "(rc = -1 \<longrightarrow>
           (\<exists>s'. tfs_open s name mode = Some (Inr (-1, s'))
              \<and> freeinode_ts s' = freeinode_ts s
              \<and> (\<forall>i. inode_get s' i = inode_get s i)
              \<and> (\<forall>p. freeinode_ts s p = TAKEN \<longrightarrow> inode_table s' p = inode_table s p)
              \<and> fs_dir s' = fs_dir s \<and> free_blocks s' = free_blocks s))
       \<and> (rc \<noteq> -1 \<and> fst (add_to_open_file_table s2 inum 0) = -1 \<longrightarrow>
           (\<exists>s' inode. tfs_open s name mode = Some (Inr (-1, s'))
              \<and> tfs_lookup s' name root = inum
              \<and> inode_get s inum = None
              \<and> inode_get s' inum = Some inode
              \<and> i_node_type (inode_table s' inode) = T_FILE))"
proof -
  from inode_create_cases [OF _ assms(5)] assms(6) obtain p where
    p: "inum = int p" "p < max_inode_count (params s)" "freeinode_ts s p = FREE"
    and s1: "s1 = s\<lparr>freeinode_ts := (freeinode_ts s)(p := TAKEN),
                    inode_table := (inode_table s)(p :=
                      \<lparr>i_node_type = T_FILE, i_size = 0, i_data_block = -1,
                       i_links = 1, i_target_d_name = []\<rparr>)\<rparr>"
    by auto
  have unf: "tfs_open s name mode =
      (if rc = -1 then Some (Inr (-1, inode_delete s2 inum))
       else Some (Inr (add_to_open_file_table s2 inum 0)))"
    by (subst tfs_open.simps) (use assms in \<open>simp add: Let_def\<close>)
  have fr: "inode_table s2 = inode_table s1" "freeinode_ts s2 = freeinode_ts s1"
    "params s2 = params s1" "free_blocks s2 = free_blocks s1"
    using add_dir_entry_frame [OF assms(7)] by simp_all
  show ?thesis
  proof (intro conjI impI)
    assume rc: "rc = -1"
    with add_dir_entry_cases [OF assms(7)] have s2: "s2 = s1" by auto
    have del: "inode_delete s1 (int p) =
        s\<lparr>inode_table := (inode_table s)(p :=
                      \<lparr>i_node_type = T_FILE, i_size = 0, i_data_block = -1,
                       i_links = 1, i_target_d_name = []\<rparr>)\<rparr>"
      using p by (simp add: inode_delete_def s1 Let_def fun_upd_idem)
    show "\<exists>s'. tfs_open s name mode = Some (Inr (-1, s'))
              \<and> freeinode_ts s' = freeinode_ts s
              \<and> (\<forall>i. inode_get s' i = inode_get s i)
              \<and> (\<forall>p. freeinode_ts s p = TAKEN \<longrightarrow> inode_table s' p = inode_table s p)
              \<and> fs_dir s' = fs_dir s \<and> free_blocks s' = free_blocks s"
      using unf rc p by (auto simp: s2 del inode_get_def)
  next
    assume a: "rc \<noteq> -1 \<and> fst (add_to_open_file_table s2 inum 0) = -1"
    then have at: "add_to_open_file_table s2 inum 0 = (-1, s2)"
      by (auto simp: add_to_open_file_table_def split: option.splits)
    have look: "tfs_lookup s2 name root = inum"
      using add_dir_entry_found [OF assms(7)] a assms(1) by (simp add: tfs_lookup_def)
    show "\<exists>s' inode. tfs_open s name mode = Some (Inr (-1, s'))
              \<and> tfs_lookup s' name root = inum
              \<and> inode_get s inum = None
              \<and> inode_get s' inum = Some inode
              \<and> i_node_type (inode_table s' inode) = T_FILE"
      using unf a at look p by (auto simp: fr s1 inode_get_def)
  qed
qed

text \<open>
  Both failures at work: a name longer than the bound on the fresh file system, and the
  creation of \<open>/b\<close> when both open-file entries are taken.
\<close>

theorem tfs_open_create_failures_witness:
  "(\<exists>s'. tfs_open fresh_fs (Some ''/123456789'') {TFS_O_CREAT} = Some (Inr (-1, s'))
        \<and> freeinode_ts s' = freeinode_ts fresh_fs
        \<and> (\<forall>i. inode_get s' i = inode_get fresh_fs i))
   \<and> (\<exists>s' inode. tfs_open two_open_fs (Some ''/b'') {TFS_O_CREAT} = Some (Inr (-1, s'))
        \<and> tfs_lookup s' (Some ''/b'') 0 = 2
        \<and> inode_get two_open_fs 2 = None
        \<and> inode_get s' 2 = Some inode
        \<and> i_node_type (inode_table s' inode) = T_FILE)"
proof
  have "valid_pathname (Some ''/123456789'')" "TFS_O_CREAT \<in> {TFS_O_CREAT}" "(1::int) \<noteq> -1"
    by simp_all
  from tfs_open_create_failures [OF this(1) fresh_facts(1) fresh_facts(3) this(2)
      fresh_create(1) this(3) fresh_create(2)]
  show "\<exists>s'. tfs_open fresh_fs (Some ''/123456789'') {TFS_O_CREAT} = Some (Inr (-1, s'))
        \<and> freeinode_ts s' = freeinode_ts fresh_fs
        \<and> (\<forall>i. inode_get s' i = inode_get fresh_fs i)"
    by auto
next
  have "valid_pathname (Some ''/b'')" "TFS_O_CREAT \<in> {TFS_O_CREAT}" "(2::int) \<noteq> -1"
    by simp_all
  from tfs_open_create_failures [OF this(1) two_open_facts(1) two_open_facts(2) this(2)
      two_open_create(1) this(3) two_open_create(2)] two_open_create(3)
  show "\<exists>s' inode. tfs_open two_open_fs (Some ''/b'') {TFS_O_CREAT} = Some (Inr (-1, s'))
        \<and> tfs_lookup s' (Some ''/b'') 0 = 2
        \<and> inode_get two_open_fs 2 = None
        \<and> inode_get s' 2 = Some inode
        \<and> i_node_type (inode_table s' inode) = T_FILE"
    by auto
qed

subsection \<open>Opening a symbolic link\<close>

lemma tfs_open_created:
  assumes v: "valid_pathname name"
    and root: "inode_get s ROOT_DIR_INUM = Some root"
    and absent: "tfs_lookup s name root = -1" and creat: "TFS_O_CREAT \<in> mode"
    and ic: "inode_create s T_FILE = (n, s1)"
    and add: "add_dir_entry s1 root (tl (the name)) n = (rc, s2)"
  shows "\<exists>h s'. tfs_open s name mode = Some (Inr (h, s'))
          \<and> (h = -1 \<longleftrightarrow> n = -1 \<or> rc = -1 \<or> fst (add_to_open_file_table s2 n 0) = -1)
          \<and> (h \<noteq> -1 \<longrightarrow> get_open_file_entry s' h = Some (nat h)
                \<and> open_file_table s' (nat h) = \<lparr>of_inumber = n, of_offset = 0\<rparr>
                \<and> tfs_lookup s' name root = n
                \<and> inode_get s n = None \<and> inode_get s' n = Some (nat n)
                \<and> i_node_type (inode_table s' (nat n)) = T_FILE)"
proof -
  from absent have neg: "tfs_lookup s name root < 0" by simp
  have unf: "tfs_open s name mode =
      (if n = -1 then Some (Inr (-1, s1))
       else if rc = -1 then Some (Inr (-1, inode_delete s2 n))
       else Some (Inr (add_to_open_file_table s2 n 0)))"
    by (simp add: tfs_open_create [OF v root neg creat] ic add)
  show ?thesis
  proof (cases "n = -1 \<or> rc = -1")
    case True
    then show ?thesis by (auto simp: unf)
  next
    case False
    then have n: "n \<noteq> -1" and rc: "rc \<noteq> -1" by simp_all
    obtain h s' where o: "add_to_open_file_table s2 n 0 = (h, s')"
      by (cases "add_to_open_file_table s2 n 0")
    from n rc o have r: "tfs_open s name mode = Some (Inr (h, s'))"
      by (simp add: unf)
    from inode_create_cases [OF _ ic] n obtain p where
      p: "n = int p" "p < max_inode_count (params s)" "freeinode_ts s p = FREE"
      and s1: "s1 = s\<lparr>freeinode_ts := (freeinode_ts s)(p := TAKEN),
                    inode_table := (inode_table s)(p :=
                      \<lparr>i_node_type = T_FILE, i_size = 0, i_data_block = -1,
                       i_links = 1, i_target_d_name = []\<rparr>)\<rparr>"
      by auto
    have fr: "inode_table s2 = inode_table s1" "freeinode_ts s2 = freeinode_ts s1"
      "params s2 = params s1"
      using add_dir_entry_frame [OF add] by simp_all
    have found: "find_in_dir s2 root (tl (the name)) = n"
      by (rule add_dir_entry_found [OF add rc])
    have opened: "get_open_file_entry s' h = Some (nat h)
                \<and> open_file_table s' (nat h) = \<lparr>of_inumber = n, of_offset = 0\<rparr>
                \<and> tfs_lookup s' name root = n
                \<and> inode_get s n = None \<and> inode_get s' n = Some (nat n)
                \<and> i_node_type (inode_table s' (nat n)) = T_FILE"
      if h: "h \<noteq> -1"
    proof -
      from add_to_open_file_table_cases [OF o] h obtain f where
        f: "h = int f" "f < max_open_files_count (params s2)"
        and s': "s' = s2\<lparr>free_open_file_entries := (free_open_file_entries s2)(f := TAKEN),
                    open_file_table := (open_file_table s2)(f :=
                      \<lparr>of_inumber = n, of_offset = 0\<rparr>)\<rparr>"
        by auto
      have "find_in_dir s' root (tl (the name)) = find_in_dir s2 root (tl (the name))"
        by (rule find_in_dir_cong) (simp_all add: s' dir_block_def data_block_get_def)
      with found v have "tfs_lookup s' name root = n"
        by (simp add: tfs_lookup_def)
      moreover have "get_open_file_entry s' h = Some (nat h)"
        using f by (simp add: get_open_file_entry_def s')
      moreover have "open_file_table s' (nat h) = \<lparr>of_inumber = n, of_offset = 0\<rparr>"
        using f by (simp add: s')
      moreover have "inode_get s n = None"
        using p by (simp add: inode_get_free)
      moreover have "inode_get s' n = Some (nat n)"
        using p by (simp add: inode_get_def s' fr s1)
      moreover have "i_node_type (inode_table s' (nat n)) = T_FILE"
        using p by (simp add: s' fr s1)
      ultimately show ?thesis by simp
    qed
    from r n rc o opened show ?thesis by auto
  qed
qed

lemma create_s_facts:
  "tfs_lookup fresh_fs (Some ''/s'') 0 = -1"
  "inode_create fresh_fs T_FILE = (1, snd (inode_create fresh_fs T_FILE))"
  "add_dir_entry (snd (inode_create fresh_fs T_FILE)) 0 ''s'' 1
     = (0, snd (add_dir_entry (snd (inode_create fresh_fs T_FILE)) 0 ''s'' 1))"
  "fst (add_to_open_file_table
         (snd (add_dir_entry (snd (inode_create fresh_fs T_FILE)) 0 ''s'' 1)) 1 0) = 0"
  "tfs_lookup two_open_fs (Some ''/s'') 0 = -1"
  "add_dir_entry (snd (inode_create two_open_fs T_FILE)) 0 ''s'' 2
     = (0, snd (add_dir_entry (snd (inode_create two_open_fs T_FILE)) 0 ''s'' 2))"
  "fst (add_to_open_file_table
         (snd (add_dir_entry (snd (inode_create two_open_fs T_FILE)) 0 ''s'' 2)) 2 0) = -1"
  by (simp_all add: eval_defs)

text \<open>
  C7 (as amended). When the opened path resolves to a SYMLINK inode, \<^verbatim>\<open>tfs_open\<close>
  returns -1 without touching the state if the inode's target name is the opened path
  itself, for every mode; otherwise it is \<^verbatim>\<open>tfs_open\<close> of the target name with
  the same mode. And in a state whose root directory has no entry \<open>s\<close>,
  \<^verbatim>\<open>tfs_sym_link("/s", "/s")\<close> returns -1 and changes nothing (its target does not
  resolve), and \<^verbatim>\<open>tfs_open("/s", mode)\<close> in the state it leaves returns -1 and
  changes nothing for every mode without \<^verbatim>\<open>TFS_O_CREAT\<close>. For a mode with
  \<^verbatim>\<open>TFS_O_CREAT\<close> it takes the creation path and returns: it returns -1 exactly
  when no inode is free, or the directory entry cannot be added, or no open-file entry
  is free; otherwise it returns a handle that is allocated and holds the new inumber
  with offset 0, and \<open>/s\<close> resolves to that inumber, a FILE inode that was free before.
\<close>

theorem tfs_open_symlink:
  "(valid_pathname name \<and> inode_get s ROOT_DIR_INUM = Some root
      \<and> 0 \<le> tfs_lookup s name root
      \<and> inode_get s (tfs_lookup s name root) = Some inode
      \<and> i_node_type (inode_table s inode) = T_SYM_LINK
    \<longrightarrow> tfs_open s name mode =
          (if Some (i_target_d_name (inode_table s inode)) = name
           then Some (Inr (-1, s))
           else tfs_open s (Some (i_target_d_name (inode_table s inode))) mode))
   \<and> (inode_get s ROOT_DIR_INUM = Some root
      \<and> tfs_lookup s (Some ''/s'') root = -1 \<and> TFS_O_CREAT \<notin> mode
    \<longrightarrow> tfs_sym_link s (Some ''/s'') (Some ''/s'') = Inr (-1, s)
        \<and> tfs_open s (Some ''/s'') mode = Some (Inr (-1, s)))
   \<and> (inode_get s ROOT_DIR_INUM = Some root
      \<and> tfs_lookup s (Some ''/s'') root = -1 \<and> TFS_O_CREAT \<in> mode
      \<and> inode_create s T_FILE = (n, s1) \<and> add_dir_entry s1 root ''s'' n = (rc, s2)
    \<longrightarrow> tfs_sym_link s (Some ''/s'') (Some ''/s'') = Inr (-1, s)
        \<and> (\<exists>h s'. tfs_open s (Some ''/s'') mode = Some (Inr (h, s'))
             \<and> (h = -1 \<longleftrightarrow>
                  n = -1 \<or> rc = -1 \<or> fst (add_to_open_file_table s2 n 0) = -1)
             \<and> (h \<noteq> -1 \<longrightarrow> get_open_file_entry s' h = Some (nat h)
                   \<and> open_file_table s' (nat h) = \<lparr>of_inumber = n, of_offset = 0\<rparr>
                   \<and> tfs_lookup s' (Some ''/s'') root = n
                   \<and> inode_get s n = None \<and> inode_get s' n = Some (nat n)
                   \<and> i_node_type (inode_table s' (nat n)) = T_FILE)))"
proof (intro conjI impI)
  assume a: "valid_pathname name \<and> inode_get s ROOT_DIR_INUM = Some root
      \<and> 0 \<le> tfs_lookup s name root
      \<and> inode_get s (tfs_lookup s name root) = Some inode
      \<and> i_node_type (inode_table s inode) = T_SYM_LINK"
  show "tfs_open s name mode =
          (if Some (i_target_d_name (inode_table s inode)) = name
           then Some (Inr (-1, s))
           else tfs_open s (Some (i_target_d_name (inode_table s inode))) mode)"
    by (subst tfs_open.simps) (use a in \<open>simp add: Let_def\<close>)
next
  assume b: "inode_get s ROOT_DIR_INUM = Some root
      \<and> tfs_lookup s (Some ''/s'') root = -1 \<and> TFS_O_CREAT \<notin> mode"
  have v: "valid_pathname (Some ''/s'')"
    by (simp add: valid_pathname_def)
  show "tfs_sym_link s (Some ''/s'') (Some ''/s'') = Inr (-1, s)"
    using b v by (simp add: tfs_sym_link_def)
  show "tfs_open s (Some ''/s'') mode = Some (Inr (-1, s))"
    by (subst tfs_open.simps) (use b v in \<open>simp add: Let_def\<close>)
next
  assume c: "inode_get s ROOT_DIR_INUM = Some root
      \<and> tfs_lookup s (Some ''/s'') root = -1 \<and> TFS_O_CREAT \<in> mode
      \<and> inode_create s T_FILE = (n, s1) \<and> add_dir_entry s1 root ''s'' n = (rc, s2)"
  have v: "valid_pathname (Some ''/s'')"
    by (simp add: valid_pathname_def)
  show "tfs_sym_link s (Some ''/s'') (Some ''/s'') = Inr (-1, s)"
    using c v by (simp add: tfs_sym_link_def)
  from c have add: "add_dir_entry s1 root (tl (the (Some ''/s''))) n = (rc, s2)"
    by simp
  from c tfs_open_created [OF v _ _ _ _ add, of s mode]
  show "\<exists>h s'. tfs_open s (Some ''/s'') mode = Some (Inr (h, s'))
             \<and> (h = -1 \<longleftrightarrow>
                  n = -1 \<or> rc = -1 \<or> fst (add_to_open_file_table s2 n 0) = -1)
             \<and> (h \<noteq> -1 \<longrightarrow> get_open_file_entry s' h = Some (nat h)
                   \<and> open_file_table s' (nat h) = \<lparr>of_inumber = n, of_offset = 0\<rparr>
                   \<and> tfs_lookup s' (Some ''/s'') root = n
                   \<and> inode_get s n = None \<and> inode_get s' n = Some (nat n)
                   \<and> i_node_type (inode_table s' (nat n)) = T_FILE)"
    by simp
qed

text \<open>
  The theorem at work: in \<open>self_loop_fs\<close> opening \<open>/s\<close> (a self loop) fails even
  with \<^verbatim>\<open>TFS_O_CREAT\<close>, opening \<open>/t\<close> is opening its target \<open>/s\<close>; in the fresh
  file system \<^verbatim>\<open>tfs_sym_link("/s", "/s")\<close> and an open without \<^verbatim>\<open>TFS_O_CREAT\<close>
  both return -1, and an open with \<^verbatim>\<open>TFS_O_CREAT\<close> creates the file; where both
  open-file entries are taken, the open with \<^verbatim>\<open>TFS_O_CREAT\<close> returns -1.
\<close>

theorem tfs_open_symlink_witness:
  "tfs_open self_loop_fs (Some ''/s'') {TFS_O_CREAT} = Some (Inr (-1, self_loop_fs))
   \<and> tfs_open self_loop_fs (Some ''/t'') {TFS_O_APPEND}
       = tfs_open self_loop_fs (Some ''/s'') {TFS_O_APPEND}
   \<and> tfs_sym_link fresh_fs (Some ''/s'') (Some ''/s'') = Inr (-1, fresh_fs)
   \<and> tfs_open fresh_fs (Some ''/s'') {TFS_O_TRUNC} = Some (Inr (-1, fresh_fs))
   \<and> (\<exists>h s'. tfs_open fresh_fs (Some ''/s'') {TFS_O_CREAT} = Some (Inr (h, s'))
          \<and> h \<noteq> -1 \<and> tfs_lookup s' (Some ''/s'') 0 = 1
          \<and> i_node_type (inode_table s' 1) = T_FILE)
   \<and> tfs_sym_link two_open_fs (Some ''/s'') (Some ''/s'') = Inr (-1, two_open_fs)
   \<and> (\<exists>s'. tfs_open two_open_fs (Some ''/s'') {TFS_O_CREAT} = Some (Inr (-1, s')))"
proof -
  note a = tfs_open_symlink [of "Some ''/s''" self_loop_fs 0 1 "{TFS_O_CREAT}"]
  note b = tfs_open_symlink [of "Some ''/t''" self_loop_fs 0 2 "{TFS_O_APPEND}"]
  note c = tfs_open_symlink [of "Some ''/s''" fresh_fs 0 1 "{TFS_O_TRUNC}"]
  note d = tfs_open_symlink [of _ fresh_fs 0 _ "{TFS_O_CREAT}",
      THEN conjunct2, THEN conjunct2, rule_format,
      OF conjI [OF fresh_facts(1) conjI [OF create_s_facts(1) conjI [OF _
           conjI [OF create_s_facts(2) create_s_facts(3)]]]]]
  note e = tfs_open_symlink [of _ two_open_fs 0 _ "{TFS_O_CREAT}",
      THEN conjunct2, THEN conjunct2, rule_format,
      OF conjI [OF two_open_facts(1) conjI [OF create_s_facts(5) conjI [OF _
           conjI [OF two_open_create(1) create_s_facts(6)]]]]]
  have "tfs_open self_loop_fs (Some ''/s'') {TFS_O_CREAT} = Some (Inr (-1, self_loop_fs))
   \<and> tfs_open self_loop_fs (Some ''/t'') {TFS_O_APPEND}
       = tfs_open self_loop_fs (Some ''/s'') {TFS_O_APPEND}
   \<and> tfs_sym_link fresh_fs (Some ''/s'') (Some ''/s'') = Inr (-1, fresh_fs)
   \<and> tfs_open fresh_fs (Some ''/s'') {TFS_O_TRUNC} = Some (Inr (-1, fresh_fs))"
    using a b c by (simp add: eval_defs)
  moreover have "\<exists>h s'. tfs_open fresh_fs (Some ''/s'') {TFS_O_CREAT} = Some (Inr (h, s'))
          \<and> h \<noteq> -1 \<and> tfs_lookup s' (Some ''/s'') 0 = 1
          \<and> i_node_type (inode_table s' 1) = T_FILE"
    using d create_s_facts(4) by auto
  moreover have "tfs_sym_link two_open_fs (Some ''/s'') (Some ''/s'') = Inr (-1, two_open_fs)
   \<and> (\<exists>s'. tfs_open two_open_fs (Some ''/s'') {TFS_O_CREAT} = Some (Inr (-1, s')))"
    using e create_s_facts(7) by auto
  ultimately show ?thesis by blast
qed

text \<open>
  The claim as stated fails for a mode with \<^verbatim>\<open>TFS_O_CREAT\<close>: in the fresh file
  system \<^verbatim>\<open>tfs_sym_link("/s", "/s")\<close> returns -1 and leaves the state as it was,
  and \<^verbatim>\<open>tfs_open("/s", TFS_O_CREAT)\<close> then creates the file and returns handle 0.
\<close>

theorem self_loop_counterexample:
  "tfs_sym_link fresh_fs (Some ''/s'') (Some ''/s'') = Inr (-1, fresh_fs)
   \<and> map_option retval (tfs_open fresh_fs (Some ''/s'') {TFS_O_CREAT}) = Some (Some 0)"
  apply (subst tfs_open.simps)
  apply (simp add: tfs_sym_link_def retval_def eval_defs)
  done

subsection \<open>tfs\_link\<close>



subsection \<open>tfs\_sym\_link\<close>

lemma sym_link_facts:
  "fst (add_dir_entry
         ((snd (inode_create one_file_fs T_SYM_LINK))\<lparr>inode_table :=
            (inode_table (snd (inode_create one_file_fs T_SYM_LINK)))(nat 2 :=
              (inode_table (snd (inode_create one_file_fs T_SYM_LINK)) (nat 2))
                \<lparr>i_target_d_name := the (Some ''/a'')\<rparr>)\<rparr>)
         0 (tl (the (Some ''/l''))) 2) = 0"
  by (simp add: eval_defs)

text \<open>
  C9. For valid paths: if \<open>target\<close> does not resolve in the root directory,
  \<^verbatim>\<open>tfs_sym_link\<close> returns -1 and changes nothing, and so does it if the target
  resolves but no inode is free. If the target resolves, \<^verbatim>\<open>inode_create\<close> gives the
  inumber \<open>n\<close> and the directory entry can be added, \<^verbatim>\<open>tfs_sym_link\<close> returns 0:
  \<open>n\<close>, free before the call, is then an allocated SYMLINK inode with one link whose
  target name is \<open>target\<close>, \<open>link_name\<close> resolves to \<open>n\<close>, every other inode
  is as before and every other path resolves as before. And it returns 0 only if the
  target resolved.
\<close>

theorem tfs_sym_link_spec:
  assumes "valid_pathname target" "valid_pathname link_name"
    and "inode_get s ROOT_DIR_INUM = Some iroot"
    and "inode_create s T_SYM_LINK = (n, s1)"
  shows "(tfs_lookup s target iroot = -1 \<longrightarrow> tfs_sym_link s target link_name = Inr (-1, s))
       \<and> (tfs_lookup s target iroot \<noteq> -1 \<and> n = -1
            \<longrightarrow> tfs_sym_link s target link_name = Inr (-1, s))
       \<and> (tfs_lookup s target iroot \<noteq> -1 \<and> n \<noteq> -1
            \<and> fst (add_dir_entry
                     (s1\<lparr>inode_table := (inode_table s1)(nat n :=
                           (inode_table s1 (nat n))\<lparr>i_target_d_name := the target\<rparr>)\<rparr>)
                     iroot (tl (the link_name)) n) \<noteq> -1
            \<longrightarrow> (\<exists>s' i_link. tfs_sym_link s target link_name = Inr (0, s')
                   \<and> inode_get s n = None \<and> inode_get s' n = Some i_link
                   \<and> inode_table s' i_link =
                        \<lparr>i_node_type = T_SYM_LINK, i_size = 0, i_data_block = -1,
                         i_links = 1, i_target_d_name = the target\<rparr>
                   \<and> Some (i_target_d_name (inode_table s' i_link)) = target
                   \<and> tfs_lookup s' link_name iroot = n
                   \<and> (\<forall>q. q \<noteq> i_link \<longrightarrow> inode_table s' q = inode_table s q)
                   \<and> (\<forall>other. other \<noteq> link_name
                         \<longrightarrow> tfs_lookup s' other iroot = tfs_lookup s other iroot)))
       \<and> (\<forall>s'. tfs_sym_link s target link_name = Inr (0, s')
            \<longrightarrow> tfs_lookup s target iroot \<noteq> -1)"
proof (intro conjI impI allI)
  assume "tfs_lookup s target iroot = -1"
  with assms show "tfs_sym_link s target link_name = Inr (-1, s)"
    by (simp add: tfs_sym_link_def)
next
  assume a: "tfs_lookup s target iroot \<noteq> -1 \<and> n = -1"
  with inode_create_cases [OF _ assms(4)] have "s1 = s" by auto
  with a assms show "tfs_sym_link s target link_name = Inr (-1, s)"
    by (simp add: tfs_sym_link_def)
next
  fix s'
  assume "tfs_sym_link s target link_name = Inr (0, s')"
  with assms show "tfs_lookup s target iroot \<noteq> -1"
    by (auto simp: tfs_sym_link_def)
next
  assume a: "tfs_lookup s target iroot \<noteq> -1 \<and> n \<noteq> -1
            \<and> fst (add_dir_entry
                     (s1\<lparr>inode_table := (inode_table s1)(nat n :=
                           (inode_table s1 (nat n))\<lparr>i_target_d_name := the target\<rparr>)\<rparr>)
                     iroot (tl (the link_name)) n) \<noteq> -1"
  then have res: "tfs_lookup s target iroot \<noteq> -1" and n: "n \<noteq> -1"
    by simp_all
  from inode_create_cases [OF _ assms(4)] n obtain p where
    p: "n = int p" "p < max_inode_count (params s)" "freeinode_ts s p = FREE"
    and s1: "s1 = s\<lparr>freeinode_ts := (freeinode_ts s)(p := TAKEN),
                    inode_table := (inode_table s)(p :=
                      \<lparr>i_node_type = T_SYM_LINK, i_size = 0, i_data_block = -1,
                       i_links = 1, i_target_d_name = []\<rparr>)\<rparr>"
    by auto
  have g1: "inode_get s1 n = Some p"
    using p by (simp add: s1 inode_get_after_create)
  define s2 where "s2 = s1\<lparr>inode_table := (inode_table s1)(p :=
                          (inode_table s1 p)\<lparr>i_target_d_name := the target\<rparr>)\<rparr>"
  have rootp: "iroot \<noteq> p"
    using inode_get_SomeD [OF assms(3)] p by auto
  have root2: "inode_get s2 ROOT_DIR_INUM = Some iroot"
    using assms(3) p inode_get_SomeD [OF assms(3)]
    by (auto simp: s2_def s1 inode_get_def)
  obtain rc s3 where add: "add_dir_entry s2 iroot (tl (the link_name)) n = (rc, s3)"
    by (cases "add_dir_entry s2 iroot (tl (the link_name)) n")
  with a p have rc: "rc \<noteq> -1"
    by (simp add: s2_def)
  have unf: "tfs_sym_link s target link_name = Inr (0, s3)"
    using assms(1-3) res assms(4) n g1 root2 add rc
    by (simp add: tfs_sym_link_def Let_def s2_def [symmetric])
  have fr: "inode_table s3 = inode_table s2" "freeinode_ts s3 = freeinode_ts s2"
    "params s3 = params s2"
    using add_dir_entry_frame [OF add] by simp_all
  have look: "tfs_lookup s3 link_name iroot = n"
    using add_dir_entry_found [OF add rc] assms(2) by (simp add: tfs_lookup_def)
  have db: "dir_block s2 iroot = dir_block s iroot"
    using rootp by (simp add: dir_block_def data_block_get_def s2_def s1)
  have fd2: "find_in_dir s2 iroot nm = find_in_dir s iroot nm" for nm
    by (intro find_in_dir_cong db) (simp_all add: s2_def s1)
  have others: "tfs_lookup s3 other iroot = tfs_lookup s other iroot"
    if o: "other \<noteq> link_name" for other
  proof (cases "valid_pathname other")
    case False
    then show ?thesis by (simp add: tfs_lookup_def)
  next
    case True
    from valid_pathname_eqI [OF True assms(2)] o
    have ne: "tl (the other) \<noteq> tl (the link_name)" by blast
    from add_dir_entry_other [OF add ne valid_pathname_tl [OF True]] True show ?thesis
      by (simp add: tfs_lookup_def fd2)
  qed
  have "inode_get s n = None"
    using p by (simp add: inode_get_free)
  moreover have "inode_get s3 n = Some p"
    using p by (simp add: inode_get_def fr s2_def s1)
  moreover have "inode_table s3 p =
       \<lparr>i_node_type = T_SYM_LINK, i_size = 0, i_data_block = -1,
        i_links = 1, i_target_d_name = the target\<rparr>"
    by (simp add: fr s2_def s1)
  moreover have "Some (i_target_d_name (inode_table s3 p)) = target"
    using assms(1) by (simp add: fr s2_def s1 valid_pathname_def split: option.splits)
  moreover have "\<forall>q. q \<noteq> p \<longrightarrow> inode_table s3 q = inode_table s q"
    by (simp add: fr s2_def s1)
  ultimately show "\<exists>s' i_link. tfs_sym_link s target link_name = Inr (0, s')
                   \<and> inode_get s n = None \<and> inode_get s' n = Some i_link
                   \<and> inode_table s' i_link =
                        \<lparr>i_node_type = T_SYM_LINK, i_size = 0, i_data_block = -1,
                         i_links = 1, i_target_d_name = the target\<rparr>
                   \<and> Some (i_target_d_name (inode_table s' i_link)) = target
                   \<and> tfs_lookup s' link_name iroot = n
                   \<and> (\<forall>q. q \<noteq> i_link \<longrightarrow> inode_table s' q = inode_table s q)
                   \<and> (\<forall>other. other \<noteq> link_name
                         \<longrightarrow> tfs_lookup s' other iroot = tfs_lookup s other iroot)"
    using unf look others by blast
qed

text \<open>
  At work: a link to the missing \<open>/a\<close> on the fresh file system, and the link \<open>/l\<close>
  to the file \<open>/a\<close>.
\<close>

theorem tfs_sym_link_spec_witness:
  "tfs_sym_link fresh_fs (Some ''/a'') (Some ''/l'') = Inr (-1, fresh_fs)
   \<and> (\<exists>s' i_link. tfs_sym_link one_file_fs (Some ''/a'') (Some ''/l'') = Inr (0, s')
        \<and> inode_get one_file_fs 2 = None \<and> inode_get s' 2 = Some i_link
        \<and> i_node_type (inode_table s' i_link) = T_SYM_LINK
        \<and> i_target_d_name (inode_table s' i_link) = ''/a''
        \<and> tfs_lookup s' (Some ''/l'') 0 = 2
        \<and> tfs_lookup s' (Some ''/a'') 0 = 1)"
proof -
  have v: "valid_pathname (Some ''/a'')" "valid_pathname (Some ''/l'')"
    by simp_all
  obtain n s1 where ic: "inode_create fresh_fs T_SYM_LINK = (n, s1)"
    by (cases "inode_create fresh_fs T_SYM_LINK")
  show ?thesis
    using tfs_sym_link_spec [OF v fresh_facts(1) ic]
      tfs_sym_link_spec [OF v one_file_facts(1) one_file_more(2)]
      sym_link_facts
    by (auto simp: fresh_facts(2) one_file_facts(2) simp del: One_nat_def)
qed

subsection \<open>tfs\_sym\_link when the directory entry cannot be added\<close>

text \<open>
  C10. In every reachable state, for valid paths whose target resolves: if
  \<^verbatim>\<open>inode_create(T_SYM_LINK)\<close> succeeds with inumber \<open>n\<close> and adding the directory
  entry for \<open>link_name\<close> fails, \<^verbatim>\<open>tfs_sym_link\<close> returns -1 and the inode is not
  deleted: \<open>n\<close>, free before the call, is an allocated SYMLINK inode after it. The
  directory's entries are those of before the call, every path resolves as before,
  and no path resolves to \<open>n\<close>.
\<close>

theorem tfs_sym_link_leaks_inode:
  assumes "reachable s"
    and "valid_pathname target" "valid_pathname link_name"
    and "tfs_lookup s target 0 \<noteq> -1"
    and "inode_create s T_SYM_LINK = (n, s1)" "n \<noteq> -1"
    and "fst (add_dir_entry
               (s1\<lparr>inode_table := (inode_table s1)(nat n :=
                     (inode_table s1 (nat n))\<lparr>i_target_d_name := the target\<rparr>)\<rparr>)
               0 (tl (the link_name)) n) = -1"
  shows "\<exists>s' i_link. tfs_sym_link s target link_name = Inr (-1, s')
           \<and> inode_get s n = None
           \<and> inode_get s' n = Some i_link
           \<and> i_node_type (inode_table s' i_link) = T_SYM_LINK
           \<and> fs_dir s' = fs_dir s
           \<and> (\<forall>name. tfs_lookup s' name 0 = tfs_lookup s name 0)
           \<and> (\<forall>name. tfs_lookup s' name 0 \<noteq> n)"
proof -
  have inv: "tfs_inv s"
    by (rule reachable_inv [OF assms(1)])
  have li: "link_inv s"
    by (rule reachable_link_inv [OF assms(1)])
  note root = inv_root [OF inv]
  from inode_create_cases [OF _ assms(5)] assms(6) obtain p where
    p: "n = int p" "p < max_inode_count (params s)" "freeinode_ts s p = FREE"
    and s1: "s1 = s\<lparr>freeinode_ts := (freeinode_ts s)(p := TAKEN),
                    inode_table := (inode_table s)(p :=
                      \<lparr>i_node_type = T_SYM_LINK, i_size = 0, i_data_block = -1,
                       i_links = 1, i_target_d_name = []\<rparr>)\<rparr>"
    by auto
  have g1: "inode_get s1 n = Some p"
    using p by (simp add: s1 inode_get_after_create)
  define s2 where "s2 = s1\<lparr>inode_table := (inode_table s1)(p :=
                          (inode_table s1 p)\<lparr>i_target_d_name := the target\<rparr>)\<rparr>"
  have rootp: "p \<noteq> 0"
    using inv_root_taken [OF inv] p(3) by (intro notI) simp
  have root2: "inode_get s2 ROOT_DIR_INUM = Some 0"
    using root p inode_get_SomeD [OF root]
    by (auto simp: s2_def s1 inode_get_def)
  obtain rc s3 where add: "add_dir_entry s2 0 (tl (the link_name)) n = (rc, s3)"
    by (cases "add_dir_entry s2 0 (tl (the link_name)) n")
  with assms(7) p have rc: "rc = -1"
    by (simp add: s2_def)
  with add_dir_entry_cases [OF add] have s3: "s3 = s2" by auto
  have unf: "tfs_sym_link s target link_name = Inr (-1, s2)"
    using assms(2-6) root g1 root2 add rc s3
    by (simp add: tfs_sym_link_def Let_def s2_def [symmetric])
  have db: "dir_block s2 0 = dir_block s 0"
    using rootp by (simp add: dir_block_def data_block_get_def s2_def s1)
  have fd: "find_in_dir s2 0 nm = find_in_dir s 0 nm" for nm
    by (intro find_in_dir_cong db) (simp_all add: s2_def s1)
  then have same: "tfs_lookup s2 name 0 = tfs_lookup s name 0" for name
    by (simp add: tfs_lookup_def)
  have none: "tfs_lookup s2 name 0 \<noteq> n" for name
    using lookup_allocated [OF inv li p(3), of name] by (simp add: same p(1))
  have "inode_get s n = None"
    using p by (simp add: inode_get_free)
  moreover have "inode_get s2 n = Some p"
    using p by (simp add: inode_get_def s2_def s1)
  moreover have "i_node_type (inode_table s2 p) = T_SYM_LINK"
    by (simp add: s2_def s1)
  moreover have "fs_dir s2 = fs_dir s"
    by (simp add: s2_def s1)
  ultimately show ?thesis
    using unf same none by blast
qed

text \<open>
  At work: \<^verbatim>\<open>tfs_sym_link("/a", "/a")\<close> where \<open>/a\<close> exists: the entry cannot be
  added, and inode 2 stays allocated with no path to it.
\<close>

theorem tfs_sym_link_leaks_inode_witness:
  "\<exists>s' i_link. tfs_sym_link one_file_fs (Some ''/a'') (Some ''/a'') = Inr (-1, s')
           \<and> inode_get one_file_fs 2 = None
           \<and> inode_get s' 2 = Some i_link
           \<and> i_node_type (inode_table s' i_link) = T_SYM_LINK
           \<and> fs_dir s' = fs_dir one_file_fs
           \<and> (\<forall>name. tfs_lookup s' name 0 = tfs_lookup one_file_fs name 0)
           \<and> (\<forall>name. tfs_lookup s' name 0 \<noteq> 2)"
proof -
  have v: "valid_pathname (Some ''/a'')" "(2::int) \<noteq> -1"
    by simp_all
  show ?thesis
    by (rule tfs_sym_link_leaks_inode [OF reach_facts(2) v(1) v(1) one_file_more(5)
          one_file_more(2) v(2) one_file_more(3)])
qed

end
